(* ===== verification/GoPrelude.thy ===== *)
theory GoPrelude
  imports
    Main
    "HOL-Library.Char_ord"
    "HOL-Library.List_Lexorder"
    "HOL-Library.Product_Lexorder"
    "HOL-Library.Option_ord"
    "HOL-Library.Sublist"
    "HOL-Library.Multiset"
begin

section \<open>Go values shared by the components\<close>

text \<open>
  The vocabulary every component uses. A Go string is a sequence of bytes, so it is a
  \<^typ>\<open>string\<close> (a list of 8-bit characters) and Go's \<^verbatim>\<open><\<close> on strings is the
  lexicographic order of the bytes (\<^theory_text>\<open>List_Lexorder\<close> over \<^theory_text>\<open>Char_ord\<close>).
  A \<^verbatim>\<open>time.Time\<close> is an instant, an \<^typ>\<open>int\<close> counting nanoseconds; a
  \<^verbatim>\<open>time.Duration\<close> is the same at 64 bits. A nil pointer is \<^term>\<open>None\<close>. A
  \<^verbatim>\<open>map[string]V\<close> that is only looked up is an association list read with
  \<^term>\<open>map_of\<close>. \<^verbatim>\<open>sort.SliceStable\<close> by a chain of fields is
  \<^const>\<open>sort_key\<close> on the tuple of those fields.

  The theory also holds the development's collections: \<open>go_consts\<close> unfolds the string
  constants of the source, \<open>go_defs\<close> the small helpers.
\<close>

named_theorems go_consts \<open>string and integer constants of the source\<close>
named_theorems go_defs \<open>definitions of small Go helpers\<close>

type_synonym gotime = int
type_synonym tags = "(string \<times> string) list"

subsection \<open>Options and results\<close>

type_synonym ('e, 'a) result = "'e + 'a"

definition bindR :: "'e + 'a \<Rightarrow> ('a \<Rightarrow> 'e + 'b) \<Rightarrow> 'e + 'b" where
  "bindR r f = (case r of Inl e \<Rightarrow> Inl e | Inr x \<Rightarrow> f x)"

lemma bindR_simps [simp]:
  "bindR (Inl e) f = Inl e"
  "bindR (Inr x) f = f x"
  by (simp_all add: bindR_def)

lemma bindR_Inr_iff: "bindR r f = Inr y \<longleftrightarrow> (\<exists>x. r = Inr x \<and> f x = Inr y)"
  by (cases r) simp_all

lemma bindR_cong [fundef_cong]:
  "\<lbrakk> r = r'; \<And>x. r' = Inr x \<Longrightarrow> f x = g x \<rbrakk> \<Longrightarrow> bindR r f = bindR r' g"
  by (cases r') (simp_all add: bindR_def)

text \<open>\<^verbatim>\<open>derefOr\<close>-style reading of a nil-able value.\<close>

definition derefOr :: "'a option \<Rightarrow> 'a \<Rightarrow> 'a" where
  "derefOr p d = (case p of None \<Rightarrow> d | Some x \<Rightarrow> x)"

lemma derefOr_simps [simp]: "derefOr None d = d" "derefOr (Some x) d = x"
  by (simp_all add: derefOr_def)

text \<open>Reading a missing key of a \<^verbatim>\<open>map[string]string\<close> gives the empty string.\<close>

definition tagval :: "tags \<Rightarrow> string \<Rightarrow> string" where
  "tagval ts k = derefOr (map_of ts k) []"

subsection \<open>Strings\<close>

definition hasPrefix :: "string \<Rightarrow> string \<Rightarrow> bool" where
  "hasPrefix s p = prefix p s"

definition hasSuffix :: "string \<Rightarrow> string \<Rightarrow> bool" where
  "hasSuffix s p = suffix p s"

definition trimSuffix :: "string \<Rightarrow> string \<Rightarrow> string" where
  "trimSuffix s p = (if hasSuffix s p then take (length s - length p) s else s)"

text \<open>\<^verbatim>\<open>strings.Contains\<close>: some suffix of the text starts with the pattern.\<close>

fun strContains :: "string \<Rightarrow> string \<Rightarrow> bool" where
  "strContains [] p = (p = [])"
| "strContains (c # cs) p = (prefix p (c # cs) \<or> strContains cs p)"

lemma strContains_iff: "strContains s p \<longleftrightarrow> (\<exists>us vs. s = us @ p @ vs)"
proof (induction s)
  case Nil
  then show ?case by auto
next
  case (Cons c cs)
  show ?case
  proof
    assume "strContains (c # cs) p"
    then consider "prefix p (c # cs)" | "strContains cs p" by auto
    then show "\<exists>us vs. c # cs = us @ p @ vs"
    proof cases
      case 1
      then obtain vs where "c # cs = [] @ p @ vs" by (auto elim: prefixE)
      then show ?thesis by blast
    next
      case 2
      then obtain us vs where "cs = us @ p @ vs" using Cons.IH by auto
      then have "c # cs = (c # us) @ p @ vs" by simp
      then show ?thesis by blast
    qed
  next
    assume "\<exists>us vs. c # cs = us @ p @ vs"
    then obtain us vs where eq: "c # cs = us @ p @ vs" by blast
    show "strContains (c # cs) p"
    proof (cases us)
      case Nil
      with eq have "prefix p (c # cs)" by (auto intro: prefixI)
      then show ?thesis by simp
    next
      case (Cons u us')
      with eq have "cs = us' @ p @ vs" by simp
      then show ?thesis using Cons.IH by auto
    qed
  qed
qed

text \<open>
  \<^verbatim>\<open>strings.IndexByte\<close>, \<^verbatim>\<open>strings.LastIndexByte\<close> (with \<^term>\<open>None\<close> for -1).
\<close>

fun indexByte :: "string \<Rightarrow> char \<Rightarrow> nat option" where
  "indexByte [] c = None"
| "indexByte (x # xs) c = (if x = c then Some 0 else map_option Suc (indexByte xs c))"

definition lastIndexByte :: "string \<Rightarrow> char \<Rightarrow> nat option" where
  "lastIndexByte s c = map_option (\<lambda>i. length s - 1 - i) (indexByte (rev s) c)"

lemma indexByte_None: "indexByte s c = None \<longleftrightarrow> c \<notin> set s"
  by (induction s) auto

lemma indexByte_Some:
  "indexByte s c = Some i \<Longrightarrow> i < length s \<and> s ! i = c \<and> c \<notin> set (take i s)"
  by (induction s arbitrary: i) (auto split: if_splits)

lemma indexByte_append:
  "indexByte (us @ vs) c =
     (case indexByte us c of Some i \<Rightarrow> Some i | None \<Rightarrow> map_option ((+) (length us)) (indexByte vs c))"
proof (induction us)
  case Nil
  show ?case by (cases "indexByte vs c") simp_all
next
  case (Cons a us)
  then show ?case by (cases "indexByte vs c") (auto split: option.splits)
qed

lemma indexByte_first: "c \<notin> set us \<Longrightarrow> indexByte (us @ c # vs) c = Some (length us)"
  by (induction us) auto

text \<open>\<^verbatim>\<open>strings.SplitN(s, sep, n)\<close> for a one-byte separator.\<close>

fun splitN :: "string \<Rightarrow> char \<Rightarrow> nat \<Rightarrow> string list" where
  "splitN s c 0 = []"
| "splitN s c (Suc n) =
     (if n = 0 then [s]
      else case indexByte s c of
             None \<Rightarrow> [s]
           | Some i \<Rightarrow> take i s # splitN (drop (Suc i) s) c n)"

fun joinWith :: "string \<Rightarrow> string list \<Rightarrow> string" where
  "joinWith sep [] = []"
| "joinWith sep [x] = x"
| "joinWith sep (x # y # ys) = x @ sep @ joinWith sep (y # ys)"

text \<open>
  \<^verbatim>\<open>strings.ToLower\<close> and \<^verbatim>\<open>strings.EqualFold\<close> on ASCII, which is all that IAM action
  names, service namespaces and tag keys contain; a byte outside ASCII is left as it is.
\<close>

definition toLowerByte :: "char \<Rightarrow> char" where
  "toLowerByte c = (let n = of_char c :: nat in if 65 \<le> n \<and> n \<le> 90 then char_of (n + 32) else c)"

definition toLower :: "string \<Rightarrow> string" where
  "toLower = map toLowerByte"

definition equalFold :: "string \<Rightarrow> string \<Rightarrow> bool" where
  "equalFold a b = (toLower a = toLower b)"

lemma of_char_toLowerByte:
  "(of_char (toLowerByte c) :: nat) =
     (let n = of_char c in if 65 \<le> n \<and> n \<le> 90 then n + 32 else n)"
proof -
  have "(of_char c :: nat) < 256" by simp
  then show ?thesis by (simp add: toLowerByte_def Let_def)
qed

lemma toLowerByte_idem [simp]: "toLowerByte (toLowerByte c) = toLowerByte c"
proof -
  have "\<not> (65 \<le> (of_char (toLowerByte c) :: nat) \<and> (of_char (toLowerByte c) :: nat) \<le> 90)"
    unfolding of_char_toLowerByte Let_def by (simp split: if_splits)
  then show ?thesis by (subst toLowerByte_def) (simp only: Let_def if_False)
qed

lemma toLower_idem [simp]: "toLower (toLower s) = toLower s"
  by (simp add: toLower_def)

lemma toLower_simps [simp]:
  "toLower [] = []"
  "toLower (c # s) = toLowerByte c # toLower s"
  "toLower (s @ t) = toLower s @ toLower t"
  "length (toLower s) = length s"
  by (simp_all add: toLower_def)

lemma toLowerByte_fixed:
  "\<not> (65 \<le> (of_char c :: nat) \<and> (of_char c :: nat) \<le> 90) \<Longrightarrow> toLowerByte c = c"
  by (auto simp: toLowerByte_def Let_def)

lemma toLowerByte_punct [simp]:
  "toLowerByte CHR ''*'' = CHR ''*''" "toLowerByte CHR ''?'' = CHR ''?''"
  "toLowerByte CHR '':'' = CHR '':''"
  by (simp_all add: toLowerByte_def Let_def)

text \<open>A character that is not a letter lower-cases from itself only.\<close>

lemma toLowerByte_eq_punct:
  assumes "\<not> (97 \<le> (of_char p :: nat) \<and> (of_char p :: nat) \<le> 122)"
  shows "toLowerByte c = p \<longleftrightarrow> c = p \<and> \<not> (65 \<le> (of_char c :: nat) \<and> (of_char c :: nat) \<le> 90)"
proof (cases "65 \<le> (of_char c :: nat) \<and> (of_char c :: nat) \<le> 90")
  case True
  then have "(of_char (toLowerByte c) :: nat) = of_char c + 32"
    by (simp add: of_char_toLowerByte Let_def)
  with True assms show ?thesis by auto
next
  case False
  then show ?thesis by (auto simp: toLowerByte_fixed)
qed

lemma toLowerByte_eq_glob [simp]:
  "toLowerByte c = CHR ''*'' \<longleftrightarrow> c = CHR ''*''"
  "toLowerByte c = CHR ''?'' \<longleftrightarrow> c = CHR ''?''"
  "toLowerByte c = CHR '':'' \<longleftrightarrow> c = CHR '':''"
  by (subst toLowerByte_eq_punct; auto)+

text \<open>
  \<^verbatim>\<open>strings.TrimSpace\<close>: the UTF-8 encodings of the code points
  \<^verbatim>\<open>unicode.IsSpace\<close> accepts.
\<close>

definition bytes :: "nat list \<Rightarrow> string" where
  "bytes ns = map char_of ns"

definition spaceEncodings :: "string list" where
  "spaceEncodings =
     map bytes ([[9], [10], [11], [12], [13], [32], [0xC2, 0x85], [0xC2, 0xA0], [0xE1, 0x9A, 0x80]]
       @ map (\<lambda>k. [0xE2, 0x80, k]) [0x80, 0x81, 0x82, 0x83, 0x84, 0x85, 0x86, 0x87, 0x88, 0x89, 0x8A, 0xA8, 0xA9, 0xAF]
       @ [[0xE2, 0x81, 0x9F], [0xE3, 0x80, 0x80]])"

fun trimFuel :: "nat \<Rightarrow> string list \<Rightarrow> string \<Rightarrow> string" where
  "trimFuel 0 encs s = s"
| "trimFuel (Suc n) encs s =
     (case find (\<lambda>e. prefix e s) encs of
        None \<Rightarrow> s
      | Some e \<Rightarrow> trimFuel n encs (drop (length e) s))"

definition trimLeft :: "string \<Rightarrow> string" where
  "trimLeft s = trimFuel (length s) spaceEncodings s"

definition trimRight :: "string \<Rightarrow> string" where
  "trimRight s = rev (trimFuel (length s) (map rev spaceEncodings) (rev s))"

definition trimSpace :: "string \<Rightarrow> string" where
  "trimSpace s = trimRight (trimLeft s)"

lemma spaceEncodings_nonempty: "e \<in> set spaceEncodings \<Longrightarrow> e \<noteq> []"
  by (auto simp: spaceEncodings_def bytes_def)

text \<open>The fuel, the length of the text, is enough: what is left starts with no space.\<close>

lemma trimFuel_done:
  assumes "\<And>e. e \<in> set encs \<Longrightarrow> e \<noteq> []" and "length s \<le> n"
  shows "find (\<lambda>e. prefix e (trimFuel n encs s)) encs = None"
  using assms(2)
proof (induction n arbitrary: s)
  case 0
  then show ?case using assms(1) by (auto simp: find_None_iff)
next
  case (Suc n)
  show ?case
  proof (cases "find (\<lambda>e. prefix e s) encs")
    case None
    then show ?thesis by simp
  next
    case (Some e)
    then have "e \<in> set encs" "prefix e s" by (auto simp: find_Some_iff)
    with assms(1) have "0 < length e" "length e \<le> length s" by (auto dest: prefix_length_le)
    with Suc.prems have "length (drop (length e) s) \<le> n" by (simp add: le_diff_conv del: length_greater_0_conv)
    from Suc.IH [OF this] Some show ?thesis by simp
  qed
qed

lemma trimLeft_no_space:
  "e \<in> set spaceEncodings \<Longrightarrow> \<not> prefix e (trimLeft s)"
  using trimFuel_done [of spaceEncodings s "length s"] spaceEncodings_nonempty
  by (auto simp: trimLeft_def find_None_iff)

subsection \<open>Decimal text\<close>

text \<open>\<^verbatim>\<open>strconv.Itoa\<close> and \<^verbatim>\<open>%d\<close>.\<close>

fun natDigits :: "nat \<Rightarrow> string" where
  "natDigits n = (if n < 10 then [char_of (48 + n)] else natDigits (n div 10) @ [char_of (48 + n mod 10)])"

declare natDigits.simps [simp del]

definition itoa :: "int \<Rightarrow> string" where
  "itoa i = (if i < 0 then CHR ''-'' # natDigits (nat (- i)) else natDigits (nat i))"

fun digitsVal :: "nat \<Rightarrow> string \<Rightarrow> nat" where
  "digitsVal acc [] = acc"
| "digitsVal acc (c # cs) = digitsVal (10 * acc + (of_char c - 48)) cs"

definition isDigit :: "char \<Rightarrow> bool" where
  "isDigit c \<longleftrightarrow> 48 \<le> (of_char c :: nat) \<and> (of_char c :: nat) \<le> 57"

text \<open>\<^verbatim>\<open>strconv.Atoi\<close>: an optional sign, then digits, in the range of a 64-bit int.\<close>

definition atoi :: "string \<Rightarrow> int option" where
  "atoi s =
     (let neg = (case s of c # _ \<Rightarrow> c = CHR ''-'' | [] \<Rightarrow> False);
          ds = (case s of c # cs \<Rightarrow> if c = CHR ''-'' \<or> c = CHR ''+'' then cs else s | [] \<Rightarrow> []);
          v = (if neg then - int (digitsVal 0 ds) else int (digitsVal 0 ds))
      in if ds \<noteq> [] \<and> list_all isDigit ds \<and> - (2 ^ 63) \<le> v \<and> v < 2 ^ 63 then Some v else None)"

lemma digitsVal_append: "digitsVal a (us @ vs) = digitsVal (digitsVal a us) vs"
  by (induction us arbitrary: a) auto

lemma natDigits_val: "digitsVal 0 (natDigits n) = n"
proof (induction n rule: natDigits.induct)
  case (1 n)
  show ?case
  proof (cases "n < 10")
    case True
    then show ?thesis by (subst natDigits.simps) simp
  next
    case False
    with 1 have "digitsVal 0 (natDigits (n div 10)) = n div 10" by simp
    with False show ?thesis by (subst natDigits.simps) (simp add: digitsVal_append)
  qed
qed

lemma natDigits_inj: "natDigits m = natDigits n \<Longrightarrow> m = n"
  by (metis natDigits_val)

lemma natDigits_isDigit: "list_all isDigit (natDigits n)"
proof (induction n rule: natDigits.induct)
  case (1 n)
  have digit: "m < 10 \<Longrightarrow> isDigit (char_of (48 + m))" for m :: nat
    by (simp add: isDigit_def)
  show ?case
  proof (cases "n < 10")
    case True
    then show ?thesis by (subst natDigits.simps) (simp add: digit)
  next
    case False
    with 1 have "list_all isDigit (natDigits (n div 10))" by simp
    with False show ?thesis by (subst natDigits.simps) (simp add: digit)
  qed
qed

lemma natDigits_nonempty [simp]: "natDigits n \<noteq> []"
  by (subst natDigits.simps) simp

lemma natDigits_no_sign: "natDigits n = c # cs \<Longrightarrow> c \<noteq> CHR ''-'' \<and> c \<noteq> CHR ''+''"
  using natDigits_isDigit [of n] by (auto simp: isDigit_def)

lemma atoi_itoa:
  assumes "- (2 ^ 63) \<le> i" "i < 2 ^ 63"
  shows "atoi (itoa i) = Some i"
proof (cases "i < 0")
  case True
  with assms show ?thesis
    by (simp add: atoi_def itoa_def natDigits_val natDigits_isDigit)
next
  case False
  obtain c cs where c: "natDigits (nat i) = c # cs"
    by (cases "natDigits (nat i)") auto
  with natDigits_no_sign have "c \<noteq> CHR ''-''" "c \<noteq> CHR ''+''" by auto
  with False assms c natDigits_val [of "nat i"] natDigits_isDigit [of "nat i"] show ?thesis
    by (auto simp: atoi_def itoa_def Let_def)
qed

subsection \<open>Sorting and de-duplication\<close>

text \<open>
  \<^verbatim>\<open>sortedUnique\<close> (\<^verbatim>\<open>canonical.go\<close>): sort, then keep an element only when it differs
  from the last one kept.
\<close>

definition sortedUnique :: "string list \<Rightarrow> string list" where
  "sortedUnique xs = remdups_adj (sort xs)"

lemma set_sortedUnique [simp]: "set (sortedUnique xs) = set xs"
  by (simp add: sortedUnique_def)

lemma sorted_sortedUnique [simp]: "sorted (sortedUnique xs)"
  by (simp add: sortedUnique_def)

lemma distinct_sortedUnique [simp]: "distinct (sortedUnique xs)"
proof -
  have "sorted ys \<Longrightarrow> distinct (remdups_adj ys)" for ys :: "string list"
    by (induction ys rule: remdups_adj.induct) (auto simp: order.order_iff_strict)
  then show ?thesis by (simp add: sortedUnique_def)
qed

lemma sortedUnique_eq_iff: "sortedUnique xs = sortedUnique ys \<longleftrightarrow> set xs = set ys"
  by (metis distinct_sortedUnique set_sortedUnique sorted_distinct_set_unique sorted_sortedUnique)

lemma sortedUnique_Nil [simp]: "sortedUnique xs = [] \<longleftrightarrow> xs = []"
  by (metis set_empty2 set_sortedUnique)


subsection \<open>Sorting by a key that identifies the element\<close>

text \<open>
  \<^verbatim>\<open>sort.Slice\<close> is not stable, so its result is determined only when elements with
  equal keys are equal. Under that contract the sorted list depends only on the elements.
\<close>

locale total_key =
  fixes key :: "'a \<Rightarrow> 'k :: linorder"
  assumes key_inject: "key x = key y \<Longrightarrow> x = y"
begin

lemma inj_key: "inj key"
  using key_inject by (auto intro: injI)

lemma sort_key_mset: "sort_key key xs = sort_key key ys \<longleftrightarrow> mset xs = mset ys"
proof
  assume "sort_key key xs = sort_key key ys"
  then show "mset xs = mset ys" by (metis mset_sort)
next
  assume "mset xs = mset ys"
  then show "sort_key key xs = sort_key key ys"
    using properties_for_sort_key [of "sort_key key ys" xs key] inj_key
    by (metis (no_types, lifting) mset_sort sort_key_inj_key_eq inj_on_subset subset_UNIV sorted_sort_key)
qed

lemma sort_key_unique:
  assumes "mset xs = mset ys" "sorted (map key ys)"
  shows "ys = sort_key key xs"
  using assms sort_key_mset sort_key_id_if_sorted by metis

end

end
