(* ===== verification/Qualify.thy ===== *)
theory Qualify
  imports GoPrelude
begin

section \<open>The qualified interval and grant age (internal/igagov/qualify.go)\<close>

text \<open>
  A service \<open>S\<close> reaches a role through grant paths; each path holds while all of its
  components hold, and a component is a set of intervals. \<open>Qualify\<close> derives from the
  paths, the activity report and the tracking catalogue whether "no attempt" can be claimed
  for a window of at least 30 days.

  The abstract view of a list of intervals is the predicate \<open>heldAt\<close>, the instants at
  which some interval contains the time. The lemmas relate every routine to it:
  normalisation keeps it, intersection of components is conjunction, the union of paths is
  disjunction, and the current grant is a maximal run of it.
\<close>

subsection \<open>Constants\<close>

definition Hour :: int where [go_consts]: "Hour = 3600 * 10 ^ 9"
definition ReportingLag :: int where [go_consts]: "ReportingLag = 4 * (3600 * 10 ^ 9)"
definition MinQualifiedDays :: int where [go_consts]: "MinQualifiedDays = 30"
definition DefaultWindowDays :: int where [go_consts]: "DefaultWindowDays = 90"
definition MinWindowDays :: int where [go_consts]: "MinWindowDays = 30"
definition MaxWindowDays :: int where [go_consts]: "MaxWindowDays = 400"

definition QualObserved :: string where [go_consts]: "QualObserved = ''observed''"
definition QualNoAttempt :: string where [go_consts]: "QualNoAttempt = ''no_attempt''"
definition QualNotEnoughHistory :: string where
  [go_consts]: "QualNotEnoughHistory = ''not_enough_history''"
definition QualUnreviewed :: string where [go_consts]: "QualUnreviewed = ''unreviewed''"

definition ConfidenceQualified :: string where [go_consts]: "ConfidenceQualified = ''qualified''"
definition ConfidenceAgeUnverified :: string where
  [go_consts]: "ConfidenceAgeUnverified = ''age_unverified''"
definition ConfidenceNotApplicable :: string where
  [go_consts]: "ConfidenceNotApplicable = ''not_applicable''"

definition GrantAgeObservedSinceChange :: string where
  [go_consts]: "GrantAgeObservedSinceChange = ''observed_since_change''"
definition GrantAgePredatesObservation :: string where
  [go_consts]: "GrantAgePredatesObservation = ''predates_observation''"
definition GrantAgeUnknown :: string where [go_consts]: "GrantAgeUnknown = ''unknown''"

lemma qual_outcomes_distinct [simp]:
  "QualObserved \<noteq> QualNoAttempt" "QualNoAttempt \<noteq> QualObserved"
  "QualNotEnoughHistory \<noteq> QualNoAttempt" "QualNoAttempt \<noteq> QualNotEnoughHistory"
  "QualUnreviewed \<noteq> QualNoAttempt" "QualNoAttempt \<noteq> QualUnreviewed"
  "QualObserved \<noteq> QualNotEnoughHistory" "QualNotEnoughHistory \<noteq> QualObserved"
  "QualUnreviewed \<noteq> QualObserved" "QualObserved \<noteq> QualUnreviewed"
  "QualUnreviewed \<noteq> QualNotEnoughHistory" "QualNotEnoughHistory \<noteq> QualUnreviewed"
  by (simp_all add: go_consts)

lemma grant_ages_distinct [simp]:
  "GrantAgeObservedSinceChange \<noteq> GrantAgePredatesObservation"
  "GrantAgePredatesObservation \<noteq> GrantAgeObservedSinceChange"
  "GrantAgeUnknown \<noteq> GrantAgePredatesObservation" "GrantAgePredatesObservation \<noteq> GrantAgeUnknown"
  "GrantAgeUnknown \<noteq> GrantAgeObservedSinceChange" "GrantAgeObservedSinceChange \<noteq> GrantAgeUnknown"
  by (simp_all add: go_consts)

subsection \<open>Intervals and grant paths\<close>

record interval =
  iv_From :: gotime
  iv_To :: "gotime option"
  iv_OpenStart :: bool

definition contains :: "interval \<Rightarrow> gotime \<Rightarrow> bool" where
  "contains iv t \<longleftrightarrow> \<not> t < iv_From iv \<and> (case iv_To iv of None \<Rightarrow> True | Some e \<Rightarrow> t < e)"

record grantPath =
  gp_Key :: string
  gp_Components :: "interval list list"

definition minEnd :: "gotime option \<Rightarrow> gotime option \<Rightarrow> gotime option" where
  "minEnd a b =
     (case a of None \<Rightarrow> b
      | Some x \<Rightarrow> (case b of None \<Rightarrow> a | Some y \<Rightarrow> if x < y then a else b))"

definition intersect :: "interval \<Rightarrow> interval \<Rightarrow> interval option" where
  "intersect a b =
     (let from = (if iv_From a < iv_From b then iv_From b else iv_From a);
          end = minEnd (iv_To a) (iv_To b)
      in if (case end of None \<Rightarrow> False | Some e \<Rightarrow> \<not> from < e) then None
         else Some \<lparr>iv_From = from, iv_To = end, iv_OpenStart = iv_OpenStart a \<and> iv_OpenStart b\<rparr>)"

text \<open>The merge loop of \<open>normalizeIntervals\<close>: \<open>cur\<close> is the last element of \<open>out\<close>.\<close>

definition absorb :: "interval \<Rightarrow> interval \<Rightarrow> interval" where
  "absorb cur iv =
     (let cur1 = (case iv_To cur of
                    None \<Rightarrow> cur
                  | Some e \<Rightarrow> (case iv_To iv of
                                None \<Rightarrow> cur\<lparr>iv_To := None\<rparr>
                              | Some e' \<Rightarrow> if e < e' then cur\<lparr>iv_To := Some e'\<rparr> else cur))
      in if iv_From iv = iv_From cur \<and> iv_OpenStart iv then cur1\<lparr>iv_OpenStart := True\<rparr> else cur1)"

definition touches :: "interval \<Rightarrow> interval \<Rightarrow> bool" where
  "touches cur iv \<longleftrightarrow> (case iv_To cur of None \<Rightarrow> True | Some e \<Rightarrow> \<not> e < iv_From iv)"

fun mergeLoop :: "interval \<Rightarrow> interval list \<Rightarrow> interval list" where
  "mergeLoop cur [] = [cur]"
| "mergeLoop cur (iv # ivs) =
     (if touches cur iv then mergeLoop (absorb cur iv) ivs else cur # mergeLoop iv ivs)"

definition sortIntervals :: "interval list \<Rightarrow> interval list" where
  "sortIntervals = sort_key (\<lambda>iv. (iv_From iv, \<not> iv_OpenStart iv))"

definition normalizeIntervals :: "interval list \<Rightarrow> interval list" where
  "normalizeIntervals ivs = (case sortIntervals ivs of [] \<Rightarrow> [] | iv # rest \<Rightarrow> mergeLoop iv rest)"

definition intersectAll :: "interval list \<Rightarrow> interval list \<Rightarrow> interval list" where
  "intersectAll as bs = concat (map (\<lambda>a. List.map_filter (intersect a) bs) as)"

definition PathIntervals :: "grantPath \<Rightarrow> interval list" where
  "PathIntervals p =
     (case gp_Components p of
        [] \<Rightarrow> []
      | c # cs \<Rightarrow>
          foldl (\<lambda>acc comp. normalizeIntervals (intersectAll acc (normalizeIntervals comp)))
            (normalizeIntervals c) cs)"

definition GrantedIntervals :: "grantPath list \<Rightarrow> interval list" where
  "GrantedIntervals paths = normalizeIntervals (concat (map PathIntervals paths))"

definition CurrentGrant :: "grantPath list \<Rightarrow> gotime \<Rightarrow> interval option" where
  "CurrentGrant paths at = find (\<lambda>iv. contains iv at) (GrantedIntervals paths)"

text \<open>The result is the grant start, its basis and \<^verbatim>\<open>ok\<close>.\<close>

definition VerifiedGrantFrom :: "grantPath list \<Rightarrow> gotime \<Rightarrow> gotime option \<times> string \<times> bool" where
  "VerifiedGrantFrom paths at =
     (case CurrentGrant paths at of
        None \<Rightarrow> (None, GrantAgeUnknown, False)
      | Some cur \<Rightarrow>
          if iv_OpenStart cur then (None, GrantAgePredatesObservation, True)
          else (Some (iv_From cur), GrantAgeObservedSinceChange, True))"

subsection \<open>Qualification\<close>

record qualifyInput =
  qi_Service :: string
  qi_ReportGeneratedAt :: gotime
  qi_LastAuthenticatedAt :: "gotime option"
  qi_RoleCreatedAt :: gotime
  qi_TrackingFrom :: "gotime option"
  qi_TrackingReason :: string
  qi_RequestedWindowDays :: int
  qi_Paths :: "grantPath list"
  qi_At :: gotime

record qualification =
  q_Service :: string
  q_Outcome :: string
  q_Reason :: string
  q_ReportGeneratedAt :: gotime
  q_LastAuthenticatedAt :: "gotime option"
  q_CoveredUntil :: gotime
  q_CoverageStart :: gotime
  q_RoleFrom :: gotime
  q_TrackingFrom :: "gotime option"
  q_RequestedWindowDays :: int
  q_VerifiedGrantFrom :: "gotime option"
  q_GrantAgeBasis :: string
  q_WindowStart :: gotime
  q_QualifiedDays :: int
  q_Confidence :: string

definition ClampWindowDays :: "int \<Rightarrow> int" where
  "ClampWindowDays d =
     (if d = 0 then DefaultWindowDays
      else if d < MinWindowDays then MinWindowDays
      else if d > MaxWindowDays then MaxWindowDays
      else d)"

definition maxTime :: "gotime \<Rightarrow> gotime list \<Rightarrow> gotime" where
  "maxTime t ts = foldl (\<lambda>m t. if m < t then t else m) t ts"

text \<open>\<^verbatim>\<open>Time.Sub\<close> saturates at the ends of a 64-bit duration.\<close>

definition timeSub :: "gotime \<Rightarrow> gotime \<Rightarrow> int" where
  "timeSub t u = max (- (2 ^ 63)) (min (2 ^ 63 - 1) (t - u))"

definition wholeDays :: "int \<Rightarrow> int" where
  "wholeDays d = (if d \<le> 0 then 0 else d div (24 * Hour))"

definition Qualify :: "qualifyInput \<Rightarrow> qualification" where
  "Qualify qi =
     (let req = ClampWindowDays (qi_RequestedWindowDays qi);
          coveredUntil = qi_ReportGeneratedAt qi - ReportingLag;
          windowFloor = coveredUntil - req * 24 * Hour;
          coverageStart =
            (case qi_TrackingFrom qi of
               Some tf \<Rightarrow> maxTime windowFloor [qi_RoleCreatedAt qi, tf]
             | None \<Rightarrow> maxTime windowFloor [qi_RoleCreatedAt qi]);
          (from, basis, ok) = VerifiedGrantFrom (qi_Paths qi) (qi_At qi);
          windowStart = (case from of
                           Some f \<Rightarrow> if coverageStart < f then f else coverageStart
                         | None \<Rightarrow> coverageStart);
          days = wholeDays (timeSub coveredUntil windowStart);
          q = \<lparr>q_Service = qi_Service qi, q_Outcome = [], q_Reason = [],
               q_ReportGeneratedAt = qi_ReportGeneratedAt qi,
               q_LastAuthenticatedAt = qi_LastAuthenticatedAt qi,
               q_CoveredUntil = coveredUntil, q_CoverageStart = coverageStart,
               q_RoleFrom = qi_RoleCreatedAt qi, q_TrackingFrom = qi_TrackingFrom qi,
               q_RequestedWindowDays = req, q_VerifiedGrantFrom = from, q_GrantAgeBasis = basis,
               q_WindowStart = windowStart, q_QualifiedDays = days,
               q_Confidence = ConfidenceNotApplicable\<rparr>
      in if \<not> ok then q\<lparr>q_Outcome := QualUnreviewed, q_Reason := ''grant_path_not_reconstructable''\<rparr>
         else if qi_TrackingFrom qi = None then
           q\<lparr>q_Outcome := QualUnreviewed,
             q_Reason := (if qi_TrackingReason qi = [] then ''service_not_in_tracking_catalog''
                          else qi_TrackingReason qi)\<rparr>
         else if (case qi_LastAuthenticatedAt qi of None \<Rightarrow> False | Some l \<Rightarrow> \<not> l < windowStart) then
           q\<lparr>q_Outcome := QualObserved\<rparr>
         else if days < MinQualifiedDays then q\<lparr>q_Outcome := QualNotEnoughHistory\<rparr>
         else q\<lparr>q_Outcome := QualNoAttempt,
                q_Confidence := (if basis = GrantAgeObservedSinceChange then ConfidenceQualified
                                 else ConfidenceAgeUnverified)\<rparr>)"

subsection \<open>The abstract view: the instants at which a list of intervals holds\<close>

definition heldAt :: "interval list \<Rightarrow> gotime \<Rightarrow> bool" where
  "heldAt ivs t \<longleftrightarrow> (\<exists>iv \<in> set ivs. contains iv t)"

text \<open>What the paragraph "granted" of the design says of a set of paths.\<close>

definition grantedAt :: "grantPath list \<Rightarrow> gotime \<Rightarrow> bool" where
  "grantedAt paths t \<longleftrightarrow>
     (\<exists>p \<in> set paths. gp_Components p \<noteq> [] \<and> (\<forall>c \<in> set (gp_Components p). heldAt c t))"

lemma heldAt_simps [simp]:
  "heldAt [] t = False"
  "heldAt (iv # ivs) t = (contains iv t \<or> heldAt ivs t)"
  "heldAt (as @ bs) t = (heldAt as t \<or> heldAt bs t)"
  by (auto simp: heldAt_def)

lemma heldAt_cong_set: "set as = set bs \<Longrightarrow> heldAt as t = heldAt bs t"
  by (simp add: heldAt_def)

lemma set_sortIntervals [simp]: "set (sortIntervals ivs) = set ivs"
  by (simp add: sortIntervals_def)

lemma sorted_sortIntervals: "sorted (map iv_From (sortIntervals ivs))"
proof -
  have "sorted (map (\<lambda>iv. (iv_From iv, \<not> iv_OpenStart iv)) (sortIntervals ivs))"
    unfolding sortIntervals_def by (rule sorted_sort_key)
  then show ?thesis
    by (auto simp: sorted_iff_nth_mono less_eq_prod_def dest: less_imp_le)
qed

lemma absorb_From [simp]: "iv_From (absorb cur iv) = iv_From cur"
  by (simp add: absorb_def Let_def split: option.splits)

lemma contains_absorb:
  "iv_From cur \<le> iv_From iv \<Longrightarrow> touches cur iv \<Longrightarrow>
     contains (absorb cur iv) t \<longleftrightarrow> contains cur t \<or> contains iv t"
  by (auto simp: contains_def absorb_def touches_def Let_def split: option.splits)

lemma heldAt_mergeLoop:
  "sorted (map iv_From (cur # ivs)) \<Longrightarrow> heldAt (mergeLoop cur ivs) t \<longleftrightarrow> contains cur t \<or> heldAt ivs t"
  by (induction cur ivs rule: mergeLoop.induct) (auto simp: contains_absorb)

lemma heldAt_normalizeIntervals [simp]: "heldAt (normalizeIntervals ivs) t \<longleftrightarrow> heldAt ivs t"
proof (cases "sortIntervals ivs")
  case Nil
  then have "ivs = []" using set_sortIntervals [of ivs] by simp
  then show ?thesis by (simp add: normalizeIntervals_def sortIntervals_def)
next
  case (Cons iv rest)
  then have "sorted (map iv_From (iv # rest))" using sorted_sortIntervals [of ivs] by simp
  with Cons have "heldAt (normalizeIntervals ivs) t \<longleftrightarrow> heldAt (iv # rest) t"
    by (simp add: normalizeIntervals_def heldAt_mergeLoop)
  also have "\<dots> \<longleftrightarrow> heldAt ivs t"
    using set_sortIntervals [of ivs] unfolding Cons by (rule heldAt_cong_set)
  finally show ?thesis .
qed

lemma contains_intersect:
  "(\<exists>iv. intersect a b = Some iv \<and> contains iv t) \<longleftrightarrow> contains a t \<and> contains b t"
  by (auto simp: intersect_def contains_def minEnd_def Let_def split: option.splits if_splits)

lemma heldAt_intersectAll: "heldAt (intersectAll as bs) t \<longleftrightarrow> heldAt as t \<and> heldAt bs t"
proof -
  have "heldAt (intersectAll as bs) t \<longleftrightarrow>
      (\<exists>a\<in>set as. \<exists>b\<in>set bs. \<exists>iv. intersect a b = Some iv \<and> contains iv t)"
    by (fastforce simp: heldAt_def intersectAll_def List.map_filter_def)
  then show ?thesis by (auto simp: contains_intersect heldAt_def)
qed

lemma heldAt_fold_components:
  "heldAt (foldl (\<lambda>acc comp. normalizeIntervals (intersectAll acc (normalizeIntervals comp))) acc cs) t \<longleftrightarrow>
     heldAt acc t \<and> (\<forall>c \<in> set cs. heldAt c t)"
  by (induction cs arbitrary: acc) (auto simp: heldAt_intersectAll)

lemma heldAt_PathIntervals:
  "heldAt (PathIntervals p) t \<longleftrightarrow>
     gp_Components p \<noteq> [] \<and> (\<forall>c \<in> set (gp_Components p). heldAt c t)"
  by (cases "gp_Components p") (simp_all add: PathIntervals_def heldAt_fold_components)

subsection \<open>Normalised intervals are apart\<close>

definition apart :: "interval \<Rightarrow> interval \<Rightarrow> bool" where
  "apart a b \<longleftrightarrow> (case iv_To a of None \<Rightarrow> False | Some e \<Rightarrow> e < iv_From b)"

lemma mergeLoop_apart:
  "sorted (map iv_From (cur # ivs)) \<Longrightarrow>
     sorted_wrt apart (mergeLoop cur ivs) \<and> (\<forall>x \<in> set (mergeLoop cur ivs). iv_From cur \<le> iv_From x)"
proof (induction cur ivs rule: mergeLoop.induct)
  case (1 cur)
  then show ?case by simp
next
  case (2 cur iv ivs)
  show ?case
  proof (cases "touches cur iv")
    case True
    with 2 show ?thesis by fastforce
  next
    case False
    then obtain e where e: "iv_To cur = Some e" "e < iv_From iv"
      by (auto simp: touches_def split: option.splits)
    have IH: "sorted_wrt apart (mergeLoop iv ivs)"
      "\<forall>x \<in> set (mergeLoop iv ivs). iv_From iv \<le> iv_From x"
      using 2 False by auto
    have le: "iv_From cur \<le> iv_From iv" using 2(3) by simp
    have "mergeLoop cur (iv # ivs) = cur # mergeLoop iv ivs" using False by simp
    moreover have "\<forall>x \<in> set (mergeLoop iv ivs). apart cur x" using e IH(2) by (auto simp: apart_def)
    ultimately show ?thesis using le IH by auto
  qed
qed

lemma normalizeIntervals_apart: "sorted_wrt apart (normalizeIntervals ivs)"
proof (cases "sortIntervals ivs")
  case Nil
  then show ?thesis by (simp add: normalizeIntervals_def)
next
  case (Cons iv rest)
  then have "sorted (map iv_From (iv # rest))" using sorted_sortIntervals [of ivs] by simp
  then show ?thesis using mergeLoop_apart [of iv rest] Cons by (simp add: normalizeIntervals_def)
qed

text \<open>In a list that is apart, the interval that contains a time is a maximal run.\<close>

definition isRun :: "(gotime \<Rightarrow> bool) \<Rightarrow> interval \<Rightarrow> gotime \<Rightarrow> bool" where
  "isRun holds iv at \<longleftrightarrow>
     contains iv at \<and> (\<forall>t. contains iv t \<longrightarrow> holds t) \<and> \<not> holds (iv_From iv - 1) \<and>
     (case iv_To iv of None \<Rightarrow> True | Some e \<Rightarrow> \<not> holds e)"

lemma apart_isRun:
  assumes "sorted_wrt apart ivs" and "iv \<in> set ivs" and "contains iv at"
  shows "isRun (heldAt ivs) iv at"
proof -
  obtain us vs where ivs: "ivs = us @ iv # vs" using assms(2) by (meson split_list)
  have before: "\<And>u. u \<in> set us \<Longrightarrow> apart u iv" and after: "\<And>v. v \<in> set vs \<Longrightarrow> apart iv v"
    using assms(1) unfolding ivs by (auto simp: sorted_wrt_append)
  have "\<not> contains x (iv_From iv - 1)" if "x \<in> set ivs" for x
    using that before [of x] after [of x] assms(3) unfolding ivs
    by (auto simp: contains_def apart_def split: option.splits)
  moreover have "\<not> contains x e" if "x \<in> set ivs" "iv_To iv = Some e" for x e
    using that before [of x] after [of x] assms(3) unfolding ivs
    by (auto simp: contains_def apart_def split: option.splits)
  ultimately show ?thesis using assms(2,3)
    by (auto simp: isRun_def heldAt_def split: option.splits)
qed

subsection \<open>Open starts\<close>

definition wfInterval :: "interval \<Rightarrow> bool" where
  "wfInterval iv \<longleftrightarrow> (case iv_To iv of None \<Rightarrow> True | Some e \<Rightarrow> iv_From iv \<le> e)"

lemma absorb_open: "iv_OpenStart (absorb cur iv) \<longleftrightarrow>
    iv_OpenStart cur \<or> (iv_From iv = iv_From cur \<and> iv_OpenStart iv)"
  by (auto simp: absorb_def Let_def split: option.splits)

lemma absorb_wf: "wfInterval cur \<Longrightarrow> wfInterval (absorb cur iv)"
  by (auto simp: wfInterval_def absorb_def Let_def split: option.splits)

lemma apart_absorb: "apart (absorb cur iv) x \<Longrightarrow> apart cur x"
  by (auto simp: apart_def absorb_def Let_def split: option.splits if_splits)

lemma mergeLoop_later:
  "sorted (map iv_From (cur # ivs)) \<Longrightarrow> x \<in> set (mergeLoop cur ivs) \<Longrightarrow>
     iv_From x = iv_From cur \<or> apart cur x"
proof (induction cur ivs rule: mergeLoop.induct)
  case (1 cur)
  then show ?case by simp
next
  case (2 cur iv ivs)
  show ?case
  proof (cases "touches cur iv")
    case True
    with 2 show ?thesis by (auto dest: apart_absorb)
  next
    case False
    then have "x = cur \<or> x \<in> set (mergeLoop iv ivs)" using 2(4) by simp
    moreover have "\<forall>x \<in> set (mergeLoop iv ivs). iv_From iv \<le> iv_From x"
      using 2(3) mergeLoop_apart [of iv ivs] by simp
    moreover obtain e where "iv_To cur = Some e" "e < iv_From iv"
      using False by (auto simp: touches_def split: option.splits)
    ultimately show ?thesis by (auto simp: apart_def)
  qed
qed

lemma mergeLoop_open:
  "\<lbrakk> sorted (map iv_From (cur # ivs)); \<forall>x \<in> set (cur # ivs). wfInterval x;
     x \<in> set (mergeLoop cur ivs) \<rbrakk> \<Longrightarrow>
   iv_OpenStart x \<longleftrightarrow> (\<exists>y \<in> set (cur # ivs). iv_From y = iv_From x \<and> iv_OpenStart y)"
proof (induction cur ivs rule: mergeLoop.induct)
  case (1 cur)
  then show ?case by simp
next
  case (2 cur iv ivs)
  have le: "iv_From cur \<le> iv_From iv" "\<forall>y \<in> set ivs. iv_From iv \<le> iv_From y"
    using 2(3) by auto
  show ?case
  proof (cases "touches cur iv")
    case True
    then have x: "x \<in> set (mergeLoop (absorb cur iv) ivs)" using 2(5) by simp
    have srt: "sorted (map iv_From (absorb cur iv # ivs))" using 2(3) by auto
    have "iv_From x = iv_From cur \<or> apart (absorb cur iv) x"
      using mergeLoop_later [OF srt x] by simp
    then have "iv_From x = iv_From cur \<or> apart cur x" by (auto dest: apart_absorb)
    then have late: "iv_From x = iv_From iv \<Longrightarrow> iv_From iv = iv_From cur"
      using True by (auto simp: apart_def touches_def split: option.splits)
    have "iv_OpenStart x \<longleftrightarrow>
        (\<exists>y \<in> set (absorb cur iv # ivs). iv_From y = iv_From x \<and> iv_OpenStart y)"
      using 2(1) [OF True srt _ x] 2(4) by (auto simp: absorb_wf)
    then show ?thesis using late by (auto simp: absorb_open)
  next
    case False
    with 2(4) have lt: "iv_From cur < iv_From iv"
      by (auto simp: touches_def wfInterval_def split: option.splits)
    from False 2(5) consider "x = cur" | "x \<in> set (mergeLoop iv ivs)" by auto
    then show ?thesis
    proof cases
      case 1
      with lt le show ?thesis by fastforce
    next
      case 2
      then have "iv_From iv \<le> iv_From x" using mergeLoop_apart [of iv ivs] "2.prems"(1) by auto
      with lt 2 show ?thesis using "2.IH"(2) [OF False] "2.prems" by auto
    qed
  qed
qed

lemma normalizeIntervals_open:
  assumes "\<forall>x \<in> set ivs. wfInterval x" and "x \<in> set (normalizeIntervals ivs)"
  shows "iv_OpenStart x \<longleftrightarrow> (\<exists>y \<in> set ivs. iv_From y = iv_From x \<and> iv_OpenStart y)"
proof (cases "sortIntervals ivs")
  case Nil
  with assms(2) show ?thesis by (simp add: normalizeIntervals_def)
next
  case (Cons iv rest)
  then have srt: "sorted (map iv_From (iv # rest))" and eq: "set ivs = set (iv # rest)"
    using sorted_sortIntervals [of ivs] set_sortIntervals [of ivs] by simp_all
  from assms(2) Cons have "x \<in> set (mergeLoop iv rest)" by (simp add: normalizeIntervals_def)
  with srt assms(1) show ?thesis unfolding eq by (intro mergeLoop_open)
qed

lemma mergeLoop_wf:
  "\<forall>x \<in> set (cur # ivs). wfInterval x \<Longrightarrow> \<forall>x \<in> set (mergeLoop cur ivs). wfInterval x"
proof (induction cur ivs rule: mergeLoop.induct)
  case (1 cur)
  then show ?case by simp
next
  case (2 cur iv ivs)
  then show ?case by (cases "touches cur iv") (simp_all add: absorb_wf)
qed

lemma normalizeIntervals_wf:
  assumes "\<forall>x \<in> set ivs. wfInterval x"
  shows "\<forall>x \<in> set (normalizeIntervals ivs). wfInterval x"
proof (cases "sortIntervals ivs")
  case Nil
  then show ?thesis by (simp add: normalizeIntervals_def)
next
  case (Cons iv rest)
  then have "set ivs = set (iv # rest)" using set_sortIntervals [of ivs] by simp
  with assms have "\<forall>x \<in> set (iv # rest). wfInterval x" by (simp only:)
  from mergeLoop_wf [OF this] Cons show ?thesis by (simp add: normalizeIntervals_def)
qed

lemma intersect_wf: "intersect a b = Some iv \<Longrightarrow> wfInterval iv"
  by (auto simp: intersect_def wfInterval_def Let_def split: option.splits if_splits)

lemma intersectAll_wf: "\<forall>x \<in> set (intersectAll as bs). wfInterval x"
  by (auto simp: intersectAll_def List.map_filter_def dest: intersect_wf)

lemma fold_components_wf:
  assumes "\<forall>x \<in> set acc. wfInterval x"
  shows "\<forall>x \<in> set (foldl (\<lambda>acc comp. normalizeIntervals (intersectAll acc (normalizeIntervals comp))) acc cs).
       wfInterval x"
  using assms
proof (induction cs arbitrary: acc)
  case Nil
  then show ?case by simp
next
  case (Cons c cs)
  have "\<forall>x \<in> set (normalizeIntervals (intersectAll acc (normalizeIntervals c))). wfInterval x"
    by (rule normalizeIntervals_wf [OF intersectAll_wf])
  from Cons.IH [OF this] show ?case by simp
qed

lemma PathIntervals_wf:
  assumes "\<forall>c \<in> set (gp_Components p). \<forall>x \<in> set c. wfInterval x"
  shows "\<forall>x \<in> set (PathIntervals p). wfInterval x"
proof (cases "gp_Components p")
  case Nil
  then show ?thesis by (simp add: PathIntervals_def)
next
  case (Cons c cs)
  with assms have "\<forall>x \<in> set (normalizeIntervals c). wfInterval x"
    by (intro normalizeIntervals_wf) simp
  from fold_components_wf [OF this, of cs] Cons show ?thesis by (simp add: PathIntervals_def)
qed

lemma heldAt_GrantedIntervals: "heldAt (GrantedIntervals paths) t \<longleftrightarrow> grantedAt paths t"
proof -
  have "heldAt (concat (map PathIntervals paths)) t \<longleftrightarrow> (\<exists>p \<in> set paths. heldAt (PathIntervals p) t)"
    by (auto simp: heldAt_def)
  then show ?thesis by (simp add: GrantedIntervals_def grantedAt_def heldAt_PathIntervals)
qed

lemma CurrentGrant_None: "CurrentGrant paths at = None \<longleftrightarrow> \<not> grantedAt paths at"
  unfolding heldAt_GrantedIntervals [symmetric]
  by (auto simp: CurrentGrant_def find_None_iff heldAt_def)

lemma CurrentGrant_run:
  assumes "CurrentGrant paths at = Some iv"
  shows "isRun (grantedAt paths) iv at"
proof -
  from assms have "iv \<in> set (GrantedIntervals paths)" "contains iv at"
    by (auto simp: CurrentGrant_def find_Some_iff)
  moreover have "sorted_wrt apart (GrantedIntervals paths)"
    by (simp add: GrantedIntervals_def normalizeIntervals_apart)
  ultimately have "isRun (heldAt (GrantedIntervals paths)) iv at" by (intro apart_isRun)
  then show ?thesis by (simp add: isRun_def heldAt_GrantedIntervals split: option.splits)
qed

lemma VerifiedGrantFrom_cases:
  "VerifiedGrantFrom paths at = (from, basis, ok) \<Longrightarrow>
     (if grantedAt paths at
      then ok \<and> (\<exists>iv. isRun (grantedAt paths) iv at \<and> CurrentGrant paths at = Some iv \<and>
             (if iv_OpenStart iv then from = None \<and> basis = GrantAgePredatesObservation
              else from = Some (iv_From iv) \<and> basis = GrantAgeObservedSinceChange))
      else \<not> ok \<and> from = None \<and> basis = GrantAgeUnknown)"
  using CurrentGrant_None [of paths at] CurrentGrant_run [of paths at]
  by (cases "CurrentGrant paths at"; cases "grantedAt paths at")
    (simp_all add: VerifiedGrantFrom_def split: if_splits)

subsection \<open>Arithmetic of the window\<close>

lemma ClampWindowDays_bounds: "MinWindowDays \<le> ClampWindowDays d" "ClampWindowDays d \<le> MaxWindowDays"
  by (auto simp: ClampWindowDays_def go_consts)

lemma maxTime_ge: "t \<le> maxTime t ts" "u \<in> set ts \<Longrightarrow> u \<le> maxTime t ts"
proof -
  have *: "t \<le> foldl (\<lambda>m t. if m < t then t else m) t ts \<and>
      (\<forall>u \<in> set ts. u \<le> foldl (\<lambda>m t. if m < t then t else m) t ts)" for t
  proof (induction ts arbitrary: t)
    case Nil
    then show ?case by simp
  next
    case (Cons a ts)
    from Cons [of "if t < a then a else t"] show ?case by (auto split: if_splits)
  qed
  show "t \<le> maxTime t ts" "u \<in> set ts \<Longrightarrow> u \<le> maxTime t ts"
    using * by (auto simp: maxTime_def)
qed

lemma wholeDays_le: "0 \<le> d \<Longrightarrow> wholeDays d * (24 * Hour) \<le> d"
  using minus_mod_eq_div_mult [of d "24 * Hour"] pos_mod_sign [of "24 * Hour" d]
  by (auto simp: wholeDays_def Hour_def)

lemma wholeDays_nonneg [simp]: "0 \<le> wholeDays d"
  by (simp add: wholeDays_def Hour_def pos_imp_zdiv_nonneg_iff)

lemma timeSub_le: "0 \<le> timeSub t u \<Longrightarrow> timeSub t u \<le> t - u"
  by (auto simp: timeSub_def)

lemma wholeDays_timeSub:
  assumes "0 < n" "n \<le> wholeDays (timeSub t u)"
  shows "n * (24 * Hour) \<le> t - u"
proof -
  have pos: "0 < timeSub t u" using assms by (auto simp: wholeDays_def split: if_splits)
  have "n * (24 * Hour) \<le> wholeDays (timeSub t u) * (24 * Hour)"
    using assms by (intro mult_right_mono) (simp_all add: Hour_def)
  also have "\<dots> \<le> timeSub t u" using pos by (intro wholeDays_le) simp
  also have "\<dots> \<le> t - u" using pos by (intro timeSub_le) simp
  finally show ?thesis .
qed

lemma wholeDays_upper:
  assumes "0 \<le> n" "t - u \<le> n * (24 * Hour)"
  shows "wholeDays (timeSub t u) \<le> n"
proof (cases "timeSub t u \<le> 0")
  case True
  with assms show ?thesis by (simp add: wholeDays_def)
next
  case False
  then have "timeSub t u \<le> n * (24 * Hour)" using timeSub_le [of t u] assms by simp
  then have "timeSub t u div (24 * Hour) \<le> (n * (24 * Hour)) div (24 * Hour)"
    by (intro zdiv_mono1) (simp_all add: Hour_def)
  with False show ?thesis by (simp add: wholeDays_def Hour_def)
qed

text \<open>What \<open>Qualify\<close> computes, field by field, from the verified grant.\<close>

lemma Qualify_fields:
  assumes "VerifiedGrantFrom (qi_Paths qi) (qi_At qi) = (fr, basis, ok)"
  shows
    "q_CoveredUntil (Qualify qi) = qi_ReportGeneratedAt qi - ReportingLag"
    "q_RequestedWindowDays (Qualify qi) = ClampWindowDays (qi_RequestedWindowDays qi)"
    "q_GrantAgeBasis (Qualify qi) = basis"
    "q_VerifiedGrantFrom (Qualify qi) = fr"
    "q_QualifiedDays (Qualify qi) =
       wholeDays (timeSub (q_CoveredUntil (Qualify qi)) (q_WindowStart (Qualify qi)))"
    "q_CoveredUntil (Qualify qi) - q_RequestedWindowDays (Qualify qi) * 24 * Hour
       \<le> q_CoverageStart (Qualify qi)"
    "q_CoverageStart (Qualify qi) \<le> q_WindowStart (Qualify qi)"
    "qi_RoleCreatedAt qi \<le> q_CoverageStart (Qualify qi)"
    "qi_TrackingFrom qi = Some tf \<Longrightarrow> tf \<le> q_CoverageStart (Qualify qi)"
    "fr = Some f \<Longrightarrow> f \<le> q_WindowStart (Qualify qi)"
  using assms
  by (simp_all add: Qualify_def Let_def maxTime_ge split: option.splits)

lemma Qualify_outcome:
  assumes "VerifiedGrantFrom (qi_Paths qi) (qi_At qi) = (fr, basis, ok)"
  shows "q_Outcome (Qualify qi) =
     (if \<not> ok \<or> qi_TrackingFrom qi = None then QualUnreviewed
      else if (\<exists>l. qi_LastAuthenticatedAt qi = Some l \<and> q_WindowStart (Qualify qi) \<le> l) then QualObserved
      else if q_QualifiedDays (Qualify qi) < MinQualifiedDays then QualNotEnoughHistory
      else QualNoAttempt)"
  using assms
  by (cases "qi_LastAuthenticatedAt qi") (simp_all add: Qualify_def Let_def not_less)

subsection \<open>Properties\<close>


text \<open>
  C9. CurrentGrant fails exactly when the service is not granted at the evaluation time;
  otherwise the interval it returns is the maximal run of granted instants around that time:
  it contains the time, every instant of it is granted, the instant before its start is not
  granted, and its end (when it has one) is not granted.
\<close>

theorem current_grant_maximal_run:
  "case CurrentGrant paths at of
     None \<Rightarrow> \<not> grantedAt paths at
   | Some iv \<Rightarrow> isRun (grantedAt paths) iv at"
  using CurrentGrant_None [of paths at] CurrentGrant_run [of paths at]
  by (auto split: option.splits)

text \<open>
  When component intervals do not end before they start, the grant is reported as
  predating observation exactly when some path has an interval that begins where the current
  run begins and is open-start; a later path that joined the run does not make it so.
\<close>

theorem verified_grant_open_iff:
  assumes "\<forall>p \<in> set paths. \<forall>c \<in> set (gp_Components p). \<forall>x \<in> set c. wfInterval x"
    and "CurrentGrant paths at = Some iv"
  shows "fst (snd (VerifiedGrantFrom paths at)) = GrantAgePredatesObservation \<longleftrightarrow>
     (\<exists>p \<in> set paths. \<exists>x \<in> set (PathIntervals p). iv_From x = iv_From iv \<and> iv_OpenStart x)"
proof -
  have wf: "\<forall>x \<in> set (concat (map PathIntervals paths)). wfInterval x"
    using assms(1) PathIntervals_wf by auto
  have "iv \<in> set (normalizeIntervals (concat (map PathIntervals paths)))"
    using assms(2) by (auto simp: CurrentGrant_def GrantedIntervals_def find_Some_iff)
  from normalizeIntervals_open [OF wf this] assms(2) show ?thesis
    by (simp add: VerifiedGrantFrom_def)
qed

text \<open>
  C10. A "no attempt" outcome is justified: the service is tracked and granted at the
  evaluation time; the window is at least 30 whole days long, ends four hours before the
  report and starts no earlier than the role's creation, the tracking start and the requested
  window; the last reported attempt, if any, is before the window; the grant's age is known,
  and when its start was observed the service was granted at every instant from the window's
  start to the evaluation time.
\<close>

theorem qualify_no_attempt_sound:
  assumes "q_Outcome (Qualify qi) = QualNoAttempt"
  shows "grantedAt (qi_Paths qi) (qi_At qi) \<and>
    (\<exists>tf. qi_TrackingFrom qi = Some tf \<and> tf \<le> q_WindowStart (Qualify qi)) \<and>
    qi_RoleCreatedAt qi \<le> q_WindowStart (Qualify qi) \<and>
    (case qi_LastAuthenticatedAt qi of None \<Rightarrow> True | Some l \<Rightarrow> l < q_WindowStart (Qualify qi)) \<and>
    30 * (24 * Hour) \<le> qi_ReportGeneratedAt qi - 4 * Hour - q_WindowStart (Qualify qi) \<and>
    (q_GrantAgeBasis (Qualify qi) = GrantAgePredatesObservation \<or>
     q_GrantAgeBasis (Qualify qi) = GrantAgeObservedSinceChange \<and>
       (\<forall>t. q_WindowStart (Qualify qi) \<le> t \<and> t \<le> qi_At qi \<longrightarrow> grantedAt (qi_Paths qi) t))"
proof -
  obtain fr basis ok where v: "VerifiedGrantFrom (qi_Paths qi) (qi_At qi) = (fr, basis, ok)"
    by (metis prod_cases3)
  note fields = Qualify_fields [OF v]
  have out: "ok" "qi_TrackingFrom qi \<noteq> None"
    "\<not> (\<exists>l. qi_LastAuthenticatedAt qi = Some l \<and> q_WindowStart (Qualify qi) \<le> l)"
    "MinQualifiedDays \<le> q_QualifiedDays (Qualify qi)"
    using assms unfolding Qualify_outcome [OF v] by (simp_all split: if_splits)
  have granted: "grantedAt (qi_Paths qi) (qi_At qi)"
    using VerifiedGrantFrom_cases [OF v] out(1) by (auto split: if_splits)
  have track: "\<exists>tf. qi_TrackingFrom qi = Some tf \<and> tf \<le> q_WindowStart (Qualify qi)"
    using out(2) fields(7,9) by fastforce
  have role: "qi_RoleCreatedAt qi \<le> q_WindowStart (Qualify qi)" using fields(7,8) by simp
  have last: "case qi_LastAuthenticatedAt qi of None \<Rightarrow> True | Some l \<Rightarrow> l < q_WindowStart (Qualify qi)"
    using out(3) by (auto split: option.splits)
  have "MinQualifiedDays * (24 * Hour) \<le> q_CoveredUntil (Qualify qi) - q_WindowStart (Qualify qi)"
    using out(4) fields(5) by (intro wholeDays_timeSub) (simp_all add: MinQualifiedDays_def)
  then have days: "30 * (24 * Hour) \<le> qi_ReportGeneratedAt qi - 4 * Hour - q_WindowStart (Qualify qi)"
    using fields(1) by (simp add: go_consts)
  obtain iv where iv: "isRun (grantedAt (qi_Paths qi)) iv (qi_At qi)"
    "if iv_OpenStart iv then fr = None \<and> basis = GrantAgePredatesObservation
     else fr = Some (iv_From iv) \<and> basis = GrantAgeObservedSinceChange"
    using VerifiedGrantFrom_cases [OF v] granted by auto
  have "grantedAt (qi_Paths qi) t"
    if "\<not> iv_OpenStart iv" "q_WindowStart (Qualify qi) \<le> t" "t \<le> qi_At qi" for t
  proof -
    have "iv_From iv \<le> q_WindowStart (Qualify qi)" using fields(10) iv(2) that(1) by simp
    with iv(1) that show ?thesis by (auto simp: isRun_def contains_def split: option.splits)
  qed
  with iv(2) fields(3)
  have "q_GrantAgeBasis (Qualify qi) = GrantAgePredatesObservation \<or>
     q_GrantAgeBasis (Qualify qi) = GrantAgeObservedSinceChange \<and>
       (\<forall>t. q_WindowStart (Qualify qi) \<le> t \<and> t \<le> qi_At qi \<longrightarrow> grantedAt (qi_Paths qi) t)"
    by (auto split: if_splits)
  with granted track role last days show ?thesis by blast
qed

definition exampleQualify :: qualifyInput where
  "exampleQualify =
     \<lparr>qi_Service = ''sqs'', qi_ReportGeneratedAt = 200 * (24 * Hour), qi_LastAuthenticatedAt = Some 5,
      qi_RoleCreatedAt = 10, qi_TrackingFrom = Some 0, qi_TrackingReason = [],
      qi_RequestedWindowDays = 90,
      qi_Paths = [\<lparr>gp_Key = ''p#s'',
                   gp_Components =
                     [[\<lparr>iv_From = 100 * (24 * Hour), iv_To = None, iv_OpenStart = False\<rparr>],
                      [\<lparr>iv_From = 0, iv_To = Some (150 * (24 * Hour)), iv_OpenStart = True\<rparr>,
                       \<lparr>iv_From = 150 * (24 * Hour), iv_To = None, iv_OpenStart = False\<rparr>]]\<rparr>],
      qi_At = 200 * (24 * Hour)\<rparr>"

theorem qualify_no_attempt_sound_witness:
  "q_Outcome (Qualify exampleQualify) = QualNoAttempt \<and> grantedAt (qi_Paths exampleQualify) (qi_At exampleQualify)"
proof -
  have "q_Outcome (Qualify exampleQualify) = QualNoAttempt" by code_simp
  then show ?thesis using qualify_no_attempt_sound by blast
qed

text \<open>
  C11. The outcome is decided exactly: unreviewed when the service is not granted at the
  evaluation time or is not tracked; otherwise observed when an attempt is reported at or
  after the window's start; otherwise "not enough history" below 30 qualified days and
  "no attempt" from 30 on. The qualified days are between 0 and the requested window, which
  is between 30 and 400.
\<close>

theorem qualify_outcome_exact:
  "q_Outcome (Qualify qi) =
     (if grantedAt (qi_Paths qi) (qi_At qi) \<and> qi_TrackingFrom qi \<noteq> None then
        (if (\<exists>l. qi_LastAuthenticatedAt qi = Some l \<and> q_WindowStart (Qualify qi) \<le> l) then QualObserved
         else if q_QualifiedDays (Qualify qi) < 30 then QualNotEnoughHistory
         else QualNoAttempt)
      else QualUnreviewed) \<and>
   0 \<le> q_QualifiedDays (Qualify qi) \<and>
   q_QualifiedDays (Qualify qi) \<le> q_RequestedWindowDays (Qualify qi) \<and>
   30 \<le> q_RequestedWindowDays (Qualify qi) \<and> q_RequestedWindowDays (Qualify qi) \<le> 400"
proof -
  obtain fr basis ok where v: "VerifiedGrantFrom (qi_Paths qi) (qi_At qi) = (fr, basis, ok)"
    by (metis prod_cases3)
  note fields = Qualify_fields [OF v]
  have ok: "ok \<longleftrightarrow> grantedAt (qi_Paths qi) (qi_At qi)"
    using VerifiedGrantFrom_cases [OF v] by (auto split: if_splits)
  have req: "30 \<le> q_RequestedWindowDays (Qualify qi)" "q_RequestedWindowDays (Qualify qi) \<le> 400"
    using ClampWindowDays_bounds [of "qi_RequestedWindowDays qi"] fields(2)
    by (simp_all add: MinWindowDays_def MaxWindowDays_def)
  have "q_CoveredUntil (Qualify qi) - q_WindowStart (Qualify qi) \<le> q_RequestedWindowDays (Qualify qi) * (24 * Hour)"
    using fields(6,7) by simp
  then have "q_QualifiedDays (Qualify qi) \<le> q_RequestedWindowDays (Qualify qi)"
    unfolding fields(5) using req by (intro wholeDays_upper) simp_all
  moreover have "0 \<le> q_QualifiedDays (Qualify qi)" unfolding fields(5) by simp
  ultimately show ?thesis using req Qualify_outcome [OF v, unfolded ok MinQualifiedDays_def]
    by (intro conjI) (auto split: if_splits)
qed

end
