(* ===== verification/PolicyDoc.thy ===== *)
theory PolicyDoc
  imports GoPrelude "HOL-Library.While_Combinator"
begin

section \<open>IAM statements, action patterns and namespaces (internal/igagov/canonical.go)\<close>

text \<open>
  The normalised IAM policy document and the matching of action patterns. \<open>globMatch\<close> is
  the loop of the source, with its four variables; \<open>globSpec\<close> is the meaning of a pattern
  with \<^verbatim>\<open>*\<close> and \<^verbatim>\<open>?\<close>. The locale \<open>glob_matcher\<close> is what the namespace
  operations need of a matcher, and \<open>globMatch\<close> is shown to provide it.
\<close>

subsection \<open>Documents\<close>

definition EffectAllow :: string where [go_consts]: "EffectAllow = ''Allow''"
definition EffectDeny :: string where [go_consts]: "EffectDeny = ''Deny''"

lemma effects_distinct [simp]: "EffectAllow \<noteq> EffectDeny" "EffectDeny \<noteq> EffectAllow"
  by (simp_all add: go_consts)

record principal =
  pr_Wildcard :: bool
  pr_Values :: "(string \<times> string list) list"

record conditionEntry =
  ce_Operator :: string
  ce_Key :: string
  ce_Values :: "string list"

text \<open>
  \<^verbatim>\<open>Resource\<close> and \<^verbatim>\<open>NotResource\<close> are optional because the source compares them with
  nil; \<^verbatim>\<open>Raw\<close> is the statement's canonical JSON text.
\<close>

record statement =
  st_Sid :: string
  st_Effect :: string
  st_Action :: "string list"
  st_NotAction :: "string list"
  st_IsNotAction :: bool
  st_Resource :: "string list option"
  st_NotResource :: "string list option"
  st_Principal :: "principal option"
  st_NotPrincipal :: "principal option"
  st_Conditions :: "conditionEntry list"
  st_Raw :: string
  st_Unknown :: "string list"

record policyDocument =
  pd_Version :: string
  pd_ID :: string
  pd_Statements :: "statement list"

definition awsValues :: "principal \<Rightarrow> string list" where
  "awsValues p = derefOr (map_of (pr_Values p) ''AWS'') []"

subsection \<open>Glob patterns\<close>

abbreviation star :: char where "star \<equiv> CHR ''*''"
abbreviation quest :: char where "quest \<equiv> CHR ''?''"

text \<open>
  The loop of \<open>globMatch\<close>: \<open>gl_star\<close> is the index of the last \<^verbatim>\<open>*\<close> taken (the source's -1
  is \<^term>\<open>None\<close>), \<open>gl_fail\<close> records the \<^verbatim>\<open>return false\<close> of the default branch.
\<close>

record globState =
  gl_pi :: nat
  gl_ti :: nat
  gl_star :: "nat option"
  gl_mark :: nat
  gl_fail :: bool

definition globStep :: "string \<Rightarrow> string \<Rightarrow> globState \<Rightarrow> globState" where
  "globStep p t s =
     (if gl_pi s < length p \<and> (p ! gl_pi s = quest \<or> p ! gl_pi s = t ! gl_ti s) then
        s\<lparr>gl_pi := gl_pi s + 1, gl_ti := gl_ti s + 1\<rparr>
      else if gl_pi s < length p \<and> p ! gl_pi s = star then
        s\<lparr>gl_star := Some (gl_pi s), gl_mark := gl_ti s, gl_pi := gl_pi s + 1\<rparr>
      else case gl_star s of
             Some i \<Rightarrow> s\<lparr>gl_pi := i + 1, gl_mark := gl_mark s + 1, gl_ti := gl_mark s + 1\<rparr>
           | None \<Rightarrow> s\<lparr>gl_fail := True\<rparr>)"

definition globInit :: globState where
  "globInit = \<lparr>gl_pi = 0, gl_ti = 0, gl_star = None, gl_mark = 0, gl_fail = False\<rparr>"

definition globGuard :: "string \<Rightarrow> globState \<Rightarrow> bool" where
  "globGuard t s \<longleftrightarrow> gl_ti s < length t \<and> \<not> gl_fail s"

definition globMatch :: "string \<Rightarrow> string \<Rightarrow> bool" where
  "globMatch pattern s =
     (let p = toLower pattern; t = toLower s;
          r = while (globGuard t) (globStep p t) globInit
      in \<not> gl_fail r \<and> list_all (\<lambda>c. c = star) (drop (gl_pi r) p))"

text \<open>
  \<open>globsIntersect\<close>: the recursion of the source on the two remaining patterns. Its memo
  table returns the result of an earlier call with the same arguments.
\<close>

function globsIntersectRec :: "string \<Rightarrow> string \<Rightarrow> bool" where
  "globsIntersectRec a b =
     (case a of
        [] \<Rightarrow> (case b of
                [] \<Rightarrow> True
              | d # ds \<Rightarrow> if d = star then globsIntersectRec [] ds else False)
      | c # cs \<Rightarrow>
          if c = star then
            globsIntersectRec cs b \<or> (case b of [] \<Rightarrow> False | d # ds \<Rightarrow> globsIntersectRec (c # cs) ds)
          else (case b of
                  [] \<Rightarrow> False
                | d # ds \<Rightarrow>
                    if d = star then globsIntersectRec (c # cs) ds \<or> globsIntersectRec cs (d # ds)
                    else (c = quest \<or> d = quest \<or> c = d) \<and> globsIntersectRec cs ds))"
  by pat_completeness auto
termination
  by (relation "measure (\<lambda>(a, b). length a + length b)") auto

declare globsIntersectRec.simps [simp del]

definition globsIntersect :: "string \<Rightarrow> string \<Rightarrow> bool" where
  "globsIntersect a b = globsIntersectRec (toLower a) (toLower b)"

subsection \<open>Action patterns and namespaces\<close>

definition SplitAction :: "string \<Rightarrow> (string \<times> string) option" where
  "SplitAction action =
     (case indexByte action (CHR '':'') of
        None \<Rightarrow> None
      | Some i \<Rightarrow> if i = 0 then None else Some (take i action, drop (i + 1) action))"

definition allStars :: "string \<Rightarrow> bool" where
  "allStars s \<longleftrightarrow> s \<noteq> [] \<and> list_all (\<lambda>c. c = star) s"

definition containsWild :: "string \<Rightarrow> bool" where
  "containsWild s \<longleftrightarrow> star \<in> set s \<or> quest \<in> set s"

definition PatternCoversNamespace :: "string \<Rightarrow> string \<Rightarrow> bool" where
  "PatternCoversNamespace pattern ns =
     (if allStars pattern then True
      else case SplitAction pattern of None \<Rightarrow> False | Some (pns, act) \<Rightarrow> globMatch pns ns)"

definition patternCoversWholeNamespace :: "string \<Rightarrow> string \<Rightarrow> bool" where
  "patternCoversWholeNamespace pattern ns =
     (if allStars pattern then True
      else case SplitAction pattern of
             None \<Rightarrow> False
           | Some (pns, act) \<Rightarrow> allStars act \<and> globMatch pns ns)"

definition GrantsNamespace :: "statement \<Rightarrow> string \<Rightarrow> bool" where
  "GrantsNamespace st ns =
     (if st_Effect st \<noteq> EffectAllow then False
      else if st_IsNotAction st then \<not> list_ex (\<lambda>p. patternCoversWholeNamespace p ns) (st_NotAction st)
      else list_ex (\<lambda>p. PatternCoversNamespace p ns) (st_Action st))"

definition ExplicitNamespaces :: "statement \<Rightarrow> string list" where
  "ExplicitNamespaces st =
     (if st_Effect st \<noteq> EffectAllow \<or> st_IsNotAction st then []
      else sortedUnique (List.map_filter
             (\<lambda>p. case SplitAction p of
                    None \<Rightarrow> None
                  | Some (ns, act) \<Rightarrow> if containsWild ns then None else Some (toLower ns))
             (st_Action st)))"

definition ResourceIsWildcard :: "statement \<Rightarrow> bool" where
  "ResourceIsWildcard st \<longleftrightarrow>
     st_NotResource st \<noteq> None \<or> list_ex (\<lambda>r. r = ''*'') (derefOr (st_Resource st) [])"

subsection \<open>What a pattern means\<close>

fun globSpec :: "string \<Rightarrow> string \<Rightarrow> bool" where
  "globSpec [] t = (t = [])"
| "globSpec (p # ps) t =
     (if p = star then (\<exists>k \<le> length t. globSpec ps (drop k t))
      else (case t of [] \<Rightarrow> False | c # cs \<Rightarrow> (p = quest \<or> p = c) \<and> globSpec ps cs))"

lemma globSpec_star: "globSpec (star # ps) t \<longleftrightarrow> (\<exists>us vs. t = us @ vs \<and> globSpec ps vs)"
  (is "?l \<longleftrightarrow> ?r")
proof
  assume ?l
  then obtain k where "globSpec ps (drop k t)" by auto
  then show ?r by (metis append_take_drop_id)
next
  assume ?r
  then obtain us vs where "t = us @ vs" "globSpec ps vs" by blast
  then have "length us \<le> length t \<and> globSpec ps (drop (length us) t)" by simp
  then show ?l by auto
qed

lemma globSpec_star_unfold:
  "globSpec (star # ps) t \<longleftrightarrow> globSpec ps t \<or> (\<exists>c cs. t = c # cs \<and> globSpec (star # ps) cs)"
  unfolding globSpec_star
proof
  assume "\<exists>us vs. t = us @ vs \<and> globSpec ps vs"
  then obtain us vs where "t = us @ vs" "globSpec ps vs" by blast
  then show "globSpec ps t \<or> (\<exists>c cs. t = c # cs \<and> (\<exists>us vs. cs = us @ vs \<and> globSpec ps vs))"
    by (cases us) auto
next
  assume "globSpec ps t \<or> (\<exists>c cs. t = c # cs \<and> (\<exists>us vs. cs = us @ vs \<and> globSpec ps vs))"
  then show "\<exists>us vs. t = us @ vs \<and> globSpec ps vs"
    by (metis append_Cons append_Nil)
qed

lemma globSpec_drop_star:
  "globSpec (star # ps) (drop i t) \<longleftrightarrow> (\<exists>k \<ge> i. globSpec ps (drop k t))"
proof
  assume "globSpec (star # ps) (drop i t)"
  then obtain k where "globSpec ps (drop k (drop i t))" by auto
  then have "i \<le> k + i \<and> globSpec ps (drop (k + i) t)" by simp
  then show "\<exists>k \<ge> i. globSpec ps (drop k t)" by blast
next
  assume "\<exists>k \<ge> i. globSpec ps (drop k t)"
  then obtain k where "i \<le> k" "globSpec ps (drop k t)" by blast
  then have "drop i t = take (k - i) (drop i t) @ drop k t"
    by (metis append_take_drop_id drop_drop le_add_diff_inverse2)
  then show "globSpec (star # ps) (drop i t)"
    unfolding globSpec_star using \<open>globSpec ps (drop k t)\<close> by blast
qed

lemma globSpec_empty: "globSpec ps [] \<longleftrightarrow> list_all (\<lambda>c. c = star) ps"
  by (induction ps) auto

text \<open>A pattern segment without a star consumes as many characters as it has.\<close>

lemma globSpec_segment:
  "star \<notin> set seg \<Longrightarrow> globSpec (seg @ ps) t \<Longrightarrow>
     length seg \<le> length t \<and> globSpec ps (drop (length seg) t)"
  by (induction seg arbitrary: t) (auto split: list.splits)

lemma globSpec_all: "(\<forall>t. globSpec ps t) \<longleftrightarrow> allStars ps"
proof
  assume all: "\<forall>t. globSpec ps t"
  then have "list_all (\<lambda>c. c = star) ps" using globSpec_empty by blast
  moreover have "ps \<noteq> []" using all globSpec.simps(1) [of "''x''"] by auto
  ultimately show "allStars ps" by (simp add: allStars_def)
next
  assume stars: "allStars ps"
  then obtain qs where ps: "ps = star # qs" and qs: "list_all (\<lambda>c. c = star) qs"
    by (cases ps) (auto simp: allStars_def)
  have "globSpec ps t" for t
    unfolding ps globSpec_star using qs globSpec_empty by (metis append_Nil2)
  then show "\<forall>t. globSpec ps t" ..
qed

text \<open>Every pattern matches something.\<close>

lemma globSpec_ex: "\<exists>t. globSpec ps t"
proof (induction ps)
  case Nil
  show ?case by simp
next
  case (Cons p ps)
  then obtain t where t: "globSpec ps t" by blast
  show ?case
  proof (cases "p = star")
    case True
    then have "globSpec (p # ps) t" using t globSpec_star_unfold by blast
    then show ?thesis by blast
  next
    case False
    with t have "globSpec (p # ps) (p # t)" by simp
    then show ?thesis by blast
  qed
qed

subsection \<open>The loop of globMatch\<close>

text \<open>
  Positions: between the last star and the current position pattern and text have advanced
  in lockstep. This is what makes the loop end, on every input.
\<close>

definition globPos :: "string \<Rightarrow> string \<Rightarrow> globState \<Rightarrow> bool" where
  "globPos p t s \<longleftrightarrow>
     gl_pi s \<le> length p \<and> gl_ti s \<le> length t \<and>
     (case gl_star s of
        None \<Rightarrow> True
      | Some i \<Rightarrow> i < gl_pi s \<and> gl_mark s \<le> gl_ti s \<and> gl_pi s - (i + 1) = gl_ti s - gl_mark s)"

definition globRank :: "string \<Rightarrow> string \<Rightarrow> (globState \<times> globState) set" where
  "globRank p t = inv_image (measure id <*lex*> measure id <*lex*> measure id <*lex*> measure id)
     (\<lambda>s. (if gl_fail s then 0 else 1,
           length p + 1 - (case gl_star s of None \<Rightarrow> 0 | Some i \<Rightarrow> i + 1),
           length t - gl_mark s, length t - gl_ti s))"

lemma wf_globRank: "wf (globRank p t)"
  by (auto simp: globRank_def)

lemma globPos_init: "globPos p t globInit"
  by (simp add: globPos_def globInit_def)

lemma globPos_step:
  assumes "globPos p t s" "globGuard t s"
  shows "globPos p t (globStep p t s)"
  using assms by (auto simp: globPos_def globGuard_def globStep_def split: option.splits)

lemma globRank_step:
  assumes "globPos p t s" "globGuard t s"
  shows "(globStep p t s, s) \<in> globRank p t"
  using assms
  by (auto simp: globPos_def globGuard_def globStep_def globRank_def split: option.splits)

lemma globLoop_terminates:
  "\<exists>r. while_option (globGuard t) (globStep p t) globInit = Some r"
proof (rule wf_while_option_Some [where P = "globPos p t"])
  show "wf {(s', s). (globPos p t s \<and> globGuard t s) \<and> s' = globStep p t s}"
    by (rule wf_subset [OF wf_globRank]) (auto intro: globRank_step)
qed (auto intro: globPos_init globPos_step)

text \<open>Meaning: what the rest of the run has to decide is whether the whole text matches.\<close>

definition globSem :: "string \<Rightarrow> string \<Rightarrow> globState \<Rightarrow> bool" where
  "globSem p t s \<longleftrightarrow>
     (if gl_fail s then \<not> globSpec p t
      else case gl_star s of
        None \<Rightarrow> globSpec p t \<longleftrightarrow> globSpec (drop (gl_pi s) p) (drop (gl_ti s) t)
      | Some i \<Rightarrow>
          star \<notin> set (take (gl_pi s - (i + 1)) (drop (i + 1) p)) \<and>
          (globSpec p t \<longleftrightarrow> (\<exists>k \<ge> gl_mark s. globSpec (drop (i + 1) p) (drop k t))) \<and>
          (globSpec (drop (i + 1) p) (drop (gl_mark s) t) \<longleftrightarrow>
             globSpec (drop (gl_pi s) p) (drop (gl_ti s) t)))"

lemma globSpec_advance:
  assumes "i < length p" "j < length t" "p ! i \<noteq> star" "p ! i = quest \<or> p ! i = t ! j"
  shows "globSpec (drop i p) (drop j t) \<longleftrightarrow> globSpec (drop (Suc i) p) (drop (Suc j) t)"
  using assms by (simp add: Cons_nth_drop_Suc [symmetric])

lemma globSpec_mismatch:
  assumes "j < length t" "\<not> (i < length p \<and> (p ! i = quest \<or> p ! i = t ! j))"
    "\<not> (i < length p \<and> p ! i = star)"
  shows "\<not> globSpec (drop i p) (drop j t)"
  using assms by (cases "i < length p") (simp_all add: Cons_nth_drop_Suc [symmetric])

text \<open>
  The segment between the last star and the position fits at any place where the rest of the
  pattern matches, so a later star can take over from an earlier one.
\<close>

lemma glob_segment_at:
  assumes "i < pi" "pi \<le> length p" "star \<notin> set (take (pi - (i + 1)) (drop (i + 1) p))"
    and "globSpec (drop (i + 1) p) (drop k t)"
  shows "pi - (i + 1) \<le> length t - k \<and> globSpec (drop pi p) (drop (k + (pi - (i + 1))) t)"
proof -
  let ?n = "pi - (i + 1)"
  have "drop (i + 1) p = take ?n (drop (i + 1) p) @ drop pi p"
    using assms(1) by (metis Suc_eq_plus1 Suc_leI append_take_drop_id drop_drop le_add_diff_inverse2)
  then have "globSpec (take ?n (drop (i + 1) p) @ drop pi p) (drop k t)" using assms(4) by simp
  from globSpec_segment [OF assms(3) this] assms(1,2) show ?thesis
    by (simp add: add.commute)
qed

lemma glob_takeover:
  assumes pos: "i < pi" "pi \<le> length p" "mark \<le> ti" "pi - (i + 1) = ti - mark"
    and seg: "star \<notin> set (take (pi - (i + 1)) (drop (i + 1) p))"
    and here: "globSpec (drop (i + 1) p) (drop mark t) \<longleftrightarrow> globSpec (drop pi p) (drop ti t)"
    and pi: "drop pi p = star # q"
  shows "(\<exists>k \<ge> mark. globSpec (drop (i + 1) p) (drop k t)) \<longleftrightarrow> (\<exists>k \<ge> ti. globSpec q (drop k t))"
proof
  assume "\<exists>k \<ge> mark. globSpec (drop (i + 1) p) (drop k t)"
  then obtain k where k: "mark \<le> k" "globSpec (drop (i + 1) p) (drop k t)" by blast
  from glob_segment_at [OF pos(1,2) seg k(2)]
  have "globSpec (star # q) (drop (k + (ti - mark)) t)" using pi pos(4) by simp
  then obtain l where "k + (ti - mark) \<le> l" "globSpec q (drop l t)"
    unfolding globSpec_drop_star by blast
  moreover have "ti \<le> k + (ti - mark)" using k(1) pos(3) by simp
  ultimately show "\<exists>k \<ge> ti. globSpec q (drop k t)" using le_trans by blast
next
  assume "\<exists>k \<ge> ti. globSpec q (drop k t)"
  then have "globSpec (star # q) (drop ti t)" unfolding globSpec_drop_star .
  then show "\<exists>k \<ge> mark. globSpec (drop (i + 1) p) (drop k t)" using here pi by auto
qed

lemma globSem_init: "globSem p t globInit"
  by (simp add: globSem_def globInit_def)

lemma ex_ge_Suc: "(\<exists>k \<ge> m. P k) \<longleftrightarrow> P m \<or> (\<exists>k \<ge> Suc m. P k)"
  by (metis Suc_leD le_eq_less_or_eq le_refl Suc_leI)

lemma globSem_step:
  assumes pos: "globPos p t s" and sem: "globSem p t s" and guard: "globGuard t s"
    and lit: "star \<notin> set t"
  shows "globSem p t (globStep p t s)"
proof -
  let ?i = "gl_pi s" and ?j = "gl_ti s"
  have j: "?j < length t" and nf: "\<not> gl_fail s" using guard by (simp_all add: globGuard_def)
  have tj: "t ! ?j \<noteq> star" using lit j by (metis nth_mem)
  consider (adv) "?i < length p" "p ! ?i = quest \<or> p ! ?i = t ! ?j"
    | (star) "?i < length p" "p ! ?i = star" "\<not> (p ! ?i = quest \<or> p ! ?i = t ! ?j)"
    | (mis) "\<not> (?i < length p \<and> (p ! ?i = quest \<or> p ! ?i = t ! ?j))"
        "\<not> (?i < length p \<and> p ! ?i = star)"
    by blast
  then show ?thesis
  proof cases
    case adv
    have ns: "p ! ?i \<noteq> star" using adv(2) tj by auto
    note step = globSpec_advance [OF adv(1) j ns adv(2)]
    show ?thesis
    proof (cases "gl_star s")
      case None
      then show ?thesis using sem nf adv step by (simp add: globSem_def globStep_def)
    next
      case (Some i)
      have i: "i < ?i" using pos Some by (simp add: globPos_def)
      then have "Suc ?i - (i + 1) = Suc (?i - (i + 1))" by simp
      moreover have "drop (i + 1) p ! (?i - (i + 1)) = p ! ?i" using i adv(1) by simp
      moreover have "?i - (i + 1) < length (drop (i + 1) p)" using i adv(1) by simp
      ultimately show ?thesis using sem nf adv step ns Some
        by (simp add: globSem_def globStep_def take_Suc_conv_app_nth)
    qed
  next
    case star
    have q: "drop ?i p = star # drop (Suc ?i) p" using star by (metis Cons_nth_drop_Suc)
    have "globSpec p t \<longleftrightarrow> (\<exists>k \<ge> ?j. globSpec (drop (Suc ?i) p) (drop k t))"
    proof (cases "gl_star s")
      case None
      then show ?thesis using sem nf q globSpec_drop_star by (simp add: globSem_def del: globSpec.simps)
    next
      case (Some i)
      then show ?thesis
        using glob_takeover [of i ?i p "gl_mark s" ?j t, OF _ _ _ _ _ _ q] pos sem nf
        by (simp add: globSem_def globPos_def del: globSpec.simps)
    qed
    then show ?thesis using star nf by (simp add: globSem_def globStep_def)
  next
    case mis
    note no = globSpec_mismatch [OF j mis]
    show ?thesis
    proof (cases "gl_star s")
      case None
      then show ?thesis using sem nf mis no by (auto simp: globSem_def globStep_def)
    next
      case (Some i)
      have "\<not> globSpec (drop (i + 1) p) (drop (gl_mark s) t)"
        using sem nf Some no by (simp add: globSem_def)
      then have "globSpec p t \<longleftrightarrow> (\<exists>k \<ge> Suc (gl_mark s). globSpec (drop (i + 1) p) (drop k t))"
        using sem nf Some ex_ge_Suc [of "gl_mark s"] by (simp add: globSem_def)
      then show ?thesis using Some nf mis by (auto simp: globSem_def globStep_def)
    qed
  qed
qed

lemma globSem_end:
  assumes pos: "globPos p t s" and sem: "globSem p t s" and stop: "\<not> globGuard t s"
  shows "(\<not> gl_fail s \<and> list_all (\<lambda>c. c = star) (drop (gl_pi s) p)) \<longleftrightarrow> globSpec p t"
proof (cases "gl_fail s")
  case True
  then show ?thesis using sem by (simp add: globSem_def)
next
  case False
  then have ti: "gl_ti s = length t" using stop pos by (auto simp: globGuard_def globPos_def)
  show ?thesis
  proof (cases "gl_star s")
    case None
    then show ?thesis using sem False ti by (simp add: globSem_def globSpec_empty)
  next
    case (Some i)
    let ?m = "gl_mark s" and ?q = "drop (i + 1) p"
    have P: "i < gl_pi s" "gl_pi s \<le> length p" "?m \<le> length t" "gl_pi s - (i + 1) = length t - ?m"
      using pos Some ti by (auto simp: globPos_def)
    have seg: "star \<notin> set (take (gl_pi s - (i + 1)) ?q)"
      and here: "globSpec ?q (drop ?m t) \<longleftrightarrow> globSpec (drop (gl_pi s) p) []"
      and all: "globSpec p t \<longleftrightarrow> (\<exists>k \<ge> ?m. globSpec ?q (drop k t))"
      using sem False Some ti by (simp_all add: globSem_def)
    have "globSpec ?q (drop ?m t)" if "?m \<le> k" "globSpec ?q (drop k t)" for k
    proof -
      have "length t - ?m \<le> length t - k"
        using glob_segment_at [OF P(1,2) seg that(2)] P(4) by simp
      then have "k = ?m \<or> ?m = length t" using that(1) P(3) by linarith
      then show ?thesis using that by auto
    qed
    then show ?thesis using False here all globSpec_empty by blast
  qed
qed

lemma globMatch_correct:
  assumes "star \<notin> set t"
  shows "globMatch p t \<longleftrightarrow> globSpec (toLower p) (toLower t)"
proof -
  let ?p = "toLower p" and ?t = "toLower t"
  have lit: "star \<notin> set ?t" using assms
    by (metis imageE list.set_map toLowerByte_eq_glob(1) toLower_def)
  let ?Q = "\<lambda>s. (\<not> gl_fail s \<and> list_all (\<lambda>c. c = star) (drop (gl_pi s) ?p)) \<longleftrightarrow> globSpec ?p ?t"
  have "?Q (while (globGuard ?t) (globStep ?p ?t) globInit)"
  proof (rule while_rule [where P = "\<lambda>s. globPos ?p ?t s \<and> globSem ?p ?t s" and r = "globRank ?p ?t"])
    show "?Q s" if "globPos ?p ?t s \<and> globSem ?p ?t s" "\<not> globGuard ?t s" for s
      using that globSem_end by blast
  qed (auto intro: globPos_init globSem_init globPos_step globSem_step [OF _ _ _ lit]
         globRank_step wf_globRank)
  then show ?thesis by (simp add: globMatch_def Let_def)
qed

subsection \<open>Intersection of two patterns\<close>

text \<open>One string matches both patterns, by the first character of the string.\<close>

definition commonMatch :: "string \<Rightarrow> string \<Rightarrow> bool" where
  "commonMatch a b \<longleftrightarrow> (\<exists>s. globSpec a s \<and> globSpec b s)"

lemma commonMatch_sym: "commonMatch a b \<longleftrightarrow> commonMatch b a"
  by (auto simp: commonMatch_def)

lemma commonMatch_Nil: "commonMatch [] b \<longleftrightarrow> list_all (\<lambda>c. c = star) b"
  by (simp add: commonMatch_def globSpec_empty)

lemma commonMatch_char:
  assumes "c \<noteq> star" "d \<noteq> star"
  shows "commonMatch (c # cs) (d # ds) \<longleftrightarrow> (c = quest \<or> d = quest \<or> c = d) \<and> commonMatch cs ds"
proof
  assume "commonMatch (c # cs) (d # ds)"
  then obtain s where "globSpec (c # cs) s" "globSpec (d # ds) s" by (auto simp: commonMatch_def)
  then show "(c = quest \<or> d = quest \<or> c = d) \<and> commonMatch cs ds"
    using assms by (cases s) (auto simp: commonMatch_def)
next
  assume r: "(c = quest \<or> d = quest \<or> c = d) \<and> commonMatch cs ds"
  then obtain s where "globSpec cs s" "globSpec ds s" by (auto simp: commonMatch_def)
  then have "globSpec (c # cs) ((if c = quest then d else c) # s)"
    "globSpec (d # ds) ((if c = quest then d else c) # s)"
    using assms r by auto
  then show "commonMatch (c # cs) (d # ds)" unfolding commonMatch_def by blast
qed

lemma commonMatch_star_char:
  assumes "d \<noteq> star"
  shows "commonMatch (star # cs) (d # ds) \<longleftrightarrow>
    commonMatch cs (d # ds) \<or> commonMatch (star # cs) ds"
proof
  assume "commonMatch (star # cs) (d # ds)"
  then obtain s where s: "globSpec (star # cs) s" "globSpec (d # ds) s" by (auto simp: commonMatch_def)
  then obtain x xs where x: "s = x # xs" "globSpec ds xs" using assms by (cases s) auto
  from s(1) have "globSpec cs s \<or> globSpec (star # cs) xs"
    using globSpec_star_unfold [of cs s] x(1) by blast
  then show "commonMatch cs (d # ds) \<or> commonMatch (star # cs) ds"
    using s(2) x(2) unfolding commonMatch_def by blast
next
  assume "commonMatch cs (d # ds) \<or> commonMatch (star # cs) ds"
  then show "commonMatch (star # cs) (d # ds)"
  proof
    assume "commonMatch cs (d # ds)"
    then show ?thesis unfolding commonMatch_def using globSpec_star_unfold by blast
  next
    assume "commonMatch (star # cs) ds"
    then obtain s where s: "globSpec (star # cs) s" "globSpec ds s" by (auto simp: commonMatch_def)
    have "globSpec (star # cs) (d # s)" using s(1) globSpec_star_unfold by blast
    moreover have "globSpec (d # ds) (d # s)" using s(2) assms by simp
    ultimately show ?thesis unfolding commonMatch_def by blast
  qed
qed

lemma globSpec_suffixes:
  assumes "us @ vs = us' @ vs'" "length us \<le> length us'" "globSpec ds vs'"
  shows "globSpec (star # ds) vs"
proof -
  have "vs = drop (length us) us' @ vs'"
    using assms(1,2) by (metis append_eq_append_conv_if append_eq_conv_conj drop_append)
  then show ?thesis unfolding globSpec_star using assms(3) by blast
qed

lemma commonMatch_stars:
  "commonMatch (star # cs) (star # ds) \<longleftrightarrow>
    commonMatch cs (star # ds) \<or> commonMatch (star # cs) ds"
proof
  assume "commonMatch (star # cs) (star # ds)"
  then obtain us vs us' vs' where
    e: "us @ vs = us' @ vs'" and m: "globSpec cs vs" "globSpec ds vs'"
    unfolding commonMatch_def globSpec_star by blast
  show "commonMatch cs (star # ds) \<or> commonMatch (star # cs) ds"
  proof (cases "length us \<le> length us'")
    case True
    from globSpec_suffixes [OF e this m(2)] m(1) show ?thesis unfolding commonMatch_def by blast
  next
    case False
    then have "length us' \<le> length us" by simp
    from globSpec_suffixes [OF e [symmetric] this m(1)] m(2)
    show ?thesis unfolding commonMatch_def by blast
  qed
next
  assume "commonMatch cs (star # ds) \<or> commonMatch (star # cs) ds"
  then show "commonMatch (star # cs) (star # ds)"
    unfolding commonMatch_def using globSpec_star_unfold by blast
qed

lemma globsIntersectRec_correct: "globsIntersectRec a b \<longleftrightarrow> commonMatch a b"
proof (induction a b rule: globsIntersectRec.induct)
  case (1 a b)
  show ?case
  proof (cases a)
    case Nil
    with 1(1) show ?thesis
      by (subst globsIntersectRec.simps) (auto simp: commonMatch_Nil split: list.splits)
  next
    case (Cons c cs)
    note a = this
    show ?thesis
    proof (cases b)
      case Nil
      have cm: "commonMatch x [] \<longleftrightarrow> list_all (\<lambda>c. c = star) x" for x
        using commonMatch_Nil commonMatch_sym by blast
      from a Nil 1(2) [OF a] show ?thesis
        by (subst globsIntersectRec.simps) (simp add: cm)
    next
      case (Cons d ds)
      show ?thesis
      proof (cases "c = star")
        case True
        with a Cons 1(2,3) have "globsIntersectRec a b \<longleftrightarrow> commonMatch cs b \<or> commonMatch a ds"
          by (subst globsIntersectRec.simps) simp
        then show ?thesis using True a Cons commonMatch_stars commonMatch_star_char
          by (cases "d = star") simp_all
      next
        case c: False
        show ?thesis
        proof (cases "d = star")
          case True
          with a Cons c 1(4,5) have "globsIntersectRec a b \<longleftrightarrow> commonMatch a ds \<or> commonMatch cs b"
            by (subst globsIntersectRec.simps) simp
          then show ?thesis
            using True a Cons c commonMatch_star_char [of c ds cs] commonMatch_sym by blast
        next
          case False
          with a Cons c 1(6) show ?thesis
            by (subst globsIntersectRec.simps) (simp add: commonMatch_char)
        qed
      qed
    qed
  qed
qed

lemma globSpec_toLower_text:
  "globSpec (toLower p) s \<Longrightarrow> globSpec (toLower p) (toLower s)"
proof (induction p arbitrary: s)
  case Nil
  then show ?case by (simp add: toLower_def)
next
  case (Cons c cs)
  show ?case
  proof (cases "toLowerByte c = star")
    case True
    then have tl: "toLower (c # cs) = star # toLower cs" by (simp add: toLower_def)
    with Cons.prems obtain us vs where "s = us @ vs" "globSpec (toLower cs) vs"
      unfolding tl globSpec_star by blast
    then show ?thesis unfolding tl globSpec_star using Cons.IH [of vs]
      by (metis map_append toLower_def)
  next
    case False
    then show ?thesis using Cons by (cases s) (auto simp: toLower_def)
  qed
qed

subsection \<open>What a statement grants\<close>

text \<open>
  An action is a namespace and an action name. A pattern matches it when it consists of
  stars only, or when its two parts match the two parts of the action.
\<close>

definition actionMatches :: "string \<Rightarrow> string \<Rightarrow> string \<Rightarrow> bool" where
  "actionMatches p ns act \<longleftrightarrow>
     allStars p \<or> (case SplitAction p of
                     None \<Rightarrow> False
                   | Some (pns, pact) \<Rightarrow>
                       globSpec (toLower pns) (toLower ns) \<and> globSpec (toLower pact) (toLower act))"

definition allowsAction :: "statement \<Rightarrow> string \<Rightarrow> string \<Rightarrow> bool" where
  "allowsAction st ns act \<longleftrightarrow>
     st_Effect st = EffectAllow \<and>
     (if st_IsNotAction st then \<not> list_ex (\<lambda>p. actionMatches p ns act) (st_NotAction st)
      else list_ex (\<lambda>p. actionMatches p ns act) (st_Action st))"

lemma allStars_toLower [simp]: "allStars (toLower p) = allStars p"
  by (simp add: allStars_def toLower_def list_all_iff)

text \<open>The contract of a matcher on texts without a star, and what the namespace tests need of it.\<close>

locale glob_matcher =
  fixes m :: "string \<Rightarrow> string \<Rightarrow> bool"
  assumes matches_literal: "star \<notin> set t \<Longrightarrow> m p t \<longleftrightarrow> globSpec (toLower p) (toLower t)"
begin

definition covers :: "string \<Rightarrow> string \<Rightarrow> bool" where
  "covers p ns \<longleftrightarrow> allStars p \<or> (\<exists>pns act. SplitAction p = Some (pns, act) \<and> m pns ns)"

definition coversAll :: "string \<Rightarrow> string \<Rightarrow> bool" where
  "coversAll p ns \<longleftrightarrow>
     allStars p \<or> (\<exists>pns act. SplitAction p = Some (pns, act) \<and> allStars act \<and> m pns ns)"

lemma covers_some:
  assumes "star \<notin> set ns"
  shows "covers p ns \<longleftrightarrow> (\<exists>act. actionMatches p ns act)"
proof (cases "SplitAction p")
  case None
  then show ?thesis by (simp add: covers_def actionMatches_def)
next
  case (Some q)
  obtain pns pact where q: "q = (pns, pact)" by (cases q)
  have "\<exists>act. globSpec (toLower pact) (toLower act)"
    using globSpec_ex globSpec_toLower_text by blast
  then show ?thesis
    using Some q matches_literal [OF assms] by (auto simp: covers_def actionMatches_def)
qed

lemma coversAll_all:
  assumes "star \<notin> set ns"
  shows "coversAll p ns \<longleftrightarrow> (\<forall>act. actionMatches p ns act)"
proof (cases "SplitAction p")
  case None
  then show ?thesis by (simp add: coversAll_def actionMatches_def)
next
  case (Some q)
  obtain pns pact where q: "q = (pns, pact)" by (cases q)
  have "(\<forall>act. globSpec (toLower pact) (toLower act)) \<longleftrightarrow> allStars pact"
  proof
    assume all: "\<forall>act. globSpec (toLower pact) (toLower act)"
    have "globSpec (toLower pact) (toLower [])" "globSpec (toLower pact) (toLower ''x'')"
      using all by blast+
    then show "allStars pact"
      by (cases pact) (auto simp: allStars_def toLower_def globSpec_empty list_all_iff)
  next
    assume "allStars pact"
    then show "\<forall>act. globSpec (toLower pact) (toLower act)"
      using globSpec_all [of "toLower pact"] by simp
  qed
  then show ?thesis
    using Some q matches_literal [OF assms] by (auto simp: coversAll_def actionMatches_def)
qed

end

interpretation gm: glob_matcher globMatch
  by unfold_locales (rule globMatch_correct)

lemma PatternCoversNamespace_covers: "PatternCoversNamespace p ns \<longleftrightarrow> gm.covers p ns"
  by (auto simp: PatternCoversNamespace_def gm.covers_def split: option.splits)

lemma patternCoversWholeNamespace_covers: "patternCoversWholeNamespace p ns \<longleftrightarrow> gm.coversAll p ns"
  by (auto simp: patternCoversWholeNamespace_def gm.coversAll_def split: option.splits)

lemma GrantsNamespace_complete:
  assumes "star \<notin> set ns" "allowsAction st ns act"
  shows "GrantsNamespace st ns"
  using assms
  by (auto simp: GrantsNamespace_def allowsAction_def list_ex_iff PatternCoversNamespace_covers
    patternCoversWholeNamespace_covers gm.covers_some gm.coversAll_all split: if_splits)

lemma GrantsNamespace_exact:
  assumes "star \<notin> set ns" "\<not> st_IsNotAction st"
  shows "GrantsNamespace st ns \<longleftrightarrow> (\<exists>act. allowsAction st ns act)"
  using assms
  by (auto simp: GrantsNamespace_def allowsAction_def list_ex_iff PatternCoversNamespace_covers
    gm.covers_some)

subsection \<open>Properties\<close>



text \<open>
  C13. \<open>globsIntersect\<close> holds of two patterns exactly when one string matches both, so an
  action pattern that could overlap a protected one is never missed.
\<close>

theorem globs_intersect_iff:
  "globsIntersect a b \<longleftrightarrow>
     (\<exists>s. globSpec (toLower a) (toLower s) \<and> globSpec (toLower b) (toLower s))"
  unfolding globsIntersect_def globsIntersectRec_correct commonMatch_def
  using globSpec_toLower_text by blast

text \<open>
  C14. A statement that allows some action of a namespace is reported by
  \<open>GrantsNamespace\<close>; for a statement with \<^verbatim>\<open>Action\<close> the report is exact.
\<close>

theorem grants_namespace_sound:
  assumes "star \<notin> set ns"
  shows "(allowsAction st ns act \<longrightarrow> GrantsNamespace st ns) \<and>
    (GrantsNamespace st ns \<and> \<not> st_IsNotAction st \<longrightarrow> (\<exists>a. allowsAction st ns a))"
  using assms GrantsNamespace_complete GrantsNamespace_exact by blast

definition exampleStatement :: statement where
  "exampleStatement = \<lparr>st_Sid = '''', st_Effect = EffectAllow, st_Action = [''s3:Get*'', ''sqs:*''],
     st_NotAction = [], st_IsNotAction = False, st_Resource = Some [''*''], st_NotResource = None,
     st_Principal = None, st_NotPrincipal = None, st_Conditions = [], st_Raw = '''', st_Unknown = []\<rparr>"

theorem grants_namespace_sound_witness:
  "GrantsNamespace exampleStatement ''sqs'' \<and> (\<exists>a. allowsAction exampleStatement ''sqs'' a)"
proof -
  have "allowsAction exampleStatement ''sqs'' ''SendMessage''"
    by code_simp
  then show ?thesis
    using grants_namespace_sound [of "''sqs''" exampleStatement "''SendMessage''"]
    by (simp add: exampleStatement_def)
qed

text \<open>
  C15. \<open>patternCoversWholeNamespace\<close> holds exactly when every action of the namespace is
  matched, and \<open>PatternCoversNamespace\<close> exactly when some action is.
\<close>

theorem namespace_patterns_exact:
  assumes "star \<notin> set ns"
  shows "(patternCoversWholeNamespace p ns \<longleftrightarrow> (\<forall>act. actionMatches p ns act)) \<and>
    (PatternCoversNamespace p ns \<longleftrightarrow> (\<exists>act. actionMatches p ns act))"
  using assms gm.covers_some gm.coversAll_all PatternCoversNamespace_covers
    patternCoversWholeNamespace_covers by simp

theorem namespace_patterns_exact_witness:
  "(\<forall>act. actionMatches ''sq*:**'' ''sqs'' act) \<and> (\<exists>act. actionMatches ''sqs:Get?*'' ''sqs'' act)"
proof -
  have "patternCoversWholeNamespace ''sq*:**'' ''sqs''" "PatternCoversNamespace ''sqs:Get?*'' ''sqs''"
    by code_simp+
  then show ?thesis
    using namespace_patterns_exact [of "''sqs''" "''sq*:**''"]
      namespace_patterns_exact [of "''sqs''" "''sqs:Get?*''"] by simp
qed

text \<open>
  A text that itself begins with a star is the one place where the loop departs from the
  meaning of the pattern: the literal comparison comes first and consumes the star of the
  pattern, so no later backtracking is possible.
\<close>

lemma glob_match_star_text:
  "\<not> globMatch ''*'' ''*a'' \<and> globSpec (toLower ''*'') (toLower ''*a'')"
  by code_simp

end
