(* ===== verification/Catalog.thy ===== *)
theory Catalog
  imports PolicyDoc
begin

section \<open>The versioned catalogues (internal/igagov/catalog.go)\<close>

text \<open>
  The tables of \<^verbatim>\<open>catalog.go\<close> as data, and the lookups on them: which services a
  workload context needs, since when a service is tracked in a set of Regions, which resource
  forms carry policies, and which escalations a statement grants.
\<close>

subsection \<open>Dependencies\<close>

definition CatalogVersion :: int where [go_consts]: "CatalogVersion = 1"

definition CatalogLabel :: string where
  "CatalogLabel = ''catalog@'' @ itoa CatalogVersion"

definition CtxLambdaExecution :: string where [go_consts]: "CtxLambdaExecution = ''lambda-execution''"
definition CtxECSTaskExecution :: string where [go_consts]: "CtxECSTaskExecution = ''ecs-task-execution''"
definition CtxECSTaskRole :: string where [go_consts]: "CtxECSTaskRole = ''ecs-task-role''"
definition CtxEC2InstanceRole :: string where [go_consts]: "CtxEC2InstanceRole = ''ec2-instance-profile''"
definition CtxBedrockAgent :: string where [go_consts]: "CtxBedrockAgent = ''bedrock-agent''"
definition CtxAgentCoreRuntime :: string where [go_consts]: "CtxAgentCoreRuntime = ''agentcore-runtime''"
definition CtxKMSViaService :: string where [go_consts]: "CtxKMSViaService = ''kms-via-service''"

definition RelExecutesAs :: string where [go_consts]: "RelExecutesAs = ''executes_as''"
definition RelTaskExecutionRole :: string where
  [go_consts]: "RelTaskExecutionRole = ''task_execution_role''"

record dependencyContext =
  dc_Context :: string
  dc_TracingActive :: bool
  dc_ReferencesSecrets :: bool

record dependency =
  dep_Service :: string
  dep_Catalog :: string
  dep_Reason :: string

record depRule =
  dr_always :: "string list"
  dr_tracing :: "string list"
  dr_secrets :: "string list"
  dr_description :: string

definition dependencyCatalog :: "(string \<times> depRule) list" where
  "dependencyCatalog =
    [(CtxLambdaExecution, \<lparr>dr_always = [''logs''], dr_tracing = [''xray''], dr_secrets = [],
        dr_description = ''Lambda execution role''\<rparr>),
     (CtxECSTaskExecution, \<lparr>dr_always = [''ecr'', ''logs''], dr_tracing = [],
        dr_secrets = [''kms'', ''secretsmanager'', ''ssm''],
        dr_description = ''ECS task execution role''\<rparr>),
     (CtxECSTaskRole, \<lparr>dr_always = [], dr_tracing = [], dr_secrets = [],
        dr_description = ''ECS task role''\<rparr>),
     (CtxEC2InstanceRole, \<lparr>dr_always = [], dr_tracing = [], dr_secrets = [],
        dr_description = ''EC2 instance profile role''\<rparr>),
     (CtxBedrockAgent, \<lparr>dr_always = [''bedrock'', ''bedrock-agentcore'', ''logs''], dr_tracing = [],
        dr_secrets = [], dr_description = ''Bedrock agent role''\<rparr>),
     (CtxAgentCoreRuntime, \<lparr>dr_always = [''bedrock'', ''bedrock-agentcore'', ''logs''], dr_tracing = [],
        dr_secrets = [], dr_description = ''AgentCore runtime role''\<rparr>),
     (CtxKMSViaService, \<lparr>dr_always = [''kms''], dr_tracing = [], dr_secrets = [],
        dr_description = ''statement using kms:ViaService''\<rparr>)]"

definition DependencyContextFor :: "string \<Rightarrow> string \<Rightarrow> string option" where
  "DependencyContextFor runtimeKind relationship =
    (if runtimeKind = ''lambda_function'' \<and> relationship = RelExecutesAs then Some CtxLambdaExecution
     else if runtimeKind = ''ecs_task_definition'' \<and> relationship = RelTaskExecutionRole then
       Some CtxECSTaskExecution
     else if runtimeKind = ''ecs_task_definition'' \<and> relationship = RelExecutesAs then Some CtxECSTaskRole
     else if runtimeKind = ''ec2_instance'' \<and> relationship = RelExecutesAs then Some CtxEC2InstanceRole
     else if runtimeKind = ''bedrock_agent'' \<and> relationship = RelExecutesAs then Some CtxBedrockAgent
     else if (runtimeKind = ''bedrock_agentcore_runtime'' \<or> runtimeKind = ''bedrock_agentcore_gateway'')
       \<and> relationship = RelExecutesAs then Some CtxAgentCoreRuntime
     else None)"

definition DependencyRef :: "string \<Rightarrow> string" where
  "DependencyRef ctx = ctx @ ''@'' @ itoa CatalogVersion"

datatype depRefError = NotContextAtVersion string | UnknownCatalogVersion string | UnknownContext string

definition ParseDependencyRef :: "string \<Rightarrow> depRefError + (string \<times> int)" where
  "ParseDependencyRef ref =
    (case lastIndexByte ref (CHR ''@'') of
       None \<Rightarrow> Inl (NotContextAtVersion ref)
     | Some i \<Rightarrow>
         if i = 0 then Inl (NotContextAtVersion ref)
         else let ctx = take i ref in
           case atoi (drop (i + 1) ref) of
             None \<Rightarrow> Inl (UnknownCatalogVersion ref)
           | Some version \<Rightarrow>
               if version < 1 \<or> version > CatalogVersion then Inl (UnknownCatalogVersion ref)
               else if map_of dependencyCatalog ctx = None then Inl (UnknownContext ref)
               else Inr (ctx, version))"

text \<open>The calls of the closure \<^verbatim>\<open>add\<close> for one context, in order, as (context, service, reason).\<close>

definition contextAdds :: "dependencyContext \<Rightarrow> (string \<times> string \<times> string) list" where
  "contextAdds c =
    (case map_of dependencyCatalog (dc_Context c) of
       None \<Rightarrow> []
     | Some rule \<Rightarrow>
         map (\<lambda>s. (dc_Context c, s, dr_description rule)) (dr_always rule) @
         (if dc_TracingActive c
          then map (\<lambda>s. (dc_Context c, s, dr_description rule @ '' with active tracing'')) (dr_tracing rule)
          else []) @
         (if dc_ReferencesSecrets c
          then map (\<lambda>s. (dc_Context c, s, dr_description rule @ '' referencing secrets'')) (dr_secrets rule)
          else []))"

definition addDependency :: "dependency list \<Rightarrow> string \<times> string \<times> string \<Rightarrow> dependency list" where
  "addDependency out a =
    (case a of (ctx, svc, why) \<Rightarrow>
       if svc \<in> dep_Service ` set out then out
       else out @ [\<lparr>dep_Service = svc, dep_Catalog = DependencyRef ctx, dep_Reason = why\<rparr>])"

definition Dependencies :: "dependencyContext list \<Rightarrow> dependency list" where
  "Dependencies ctxs =
    sort_key dep_Service
      (foldl (\<lambda>out c. foldl addDependency out (contextAdds c)) [] (sort_key dc_Context ctxs))"

definition IsDependency :: "string \<Rightarrow> dependencyContext list \<Rightarrow> dependency option" where
  "IsDependency service ctxs = find (\<lambda>d. dep_Service d = service) (Dependencies ctxs)"

subsection \<open>Tracking\<close>

text \<open>
  \<^verbatim>\<open>time.Date\<close> at midnight UTC, in nanoseconds since 1970-01-01, and the zero
  \<^verbatim>\<open>time.Time\<close>, 0001-01-01.
\<close>

definition daysFromCivil :: "int \<Rightarrow> int \<Rightarrow> int \<Rightarrow> int" where
  "daysFromCivil y m d =
    (let y' = (if m \<le> 2 then y - 1 else y);
         era = y' div 400;
         yoe = y' mod 400;
         doy = (153 * (if m > 2 then m - 3 else m + 9) + 2) div 5 + d - 1;
         doe = yoe * 365 + yoe div 4 - yoe div 100 + doy
     in era * 146097 + doe - 719468)"

definition day :: "int \<Rightarrow> int \<Rightarrow> int \<Rightarrow> gotime" where
  "day y m d = daysFromCivil y m d * 86400 * 10 ^ 9"

definition zeroTime :: gotime where
  "zeroTime = - 62135596800 * 10 ^ 9"

lemma zeroTime_day: "zeroTime = day 1 1 1"
  by (simp add: zeroTime_def day_def daysFromCivil_def Let_def)

definition TrackingDocumentedAt :: gotime where "TrackingDocumentedAt = day 2026 10 7"

definition regionTrackingStart :: "(string \<times> gotime) list" where
  "regionTrackingStart =
    [(''us-east-2'', day 2017 10 27), (''us-east-1'', day 2015 10 1), (''us-west-1'', day 2015 10 1),
     (''us-west-2'', day 2015 10 1), (''af-south-1'', day 2020 4 22), (''ap-east-1'', day 2019 4 24),
     (''ap-south-2'', day 2022 11 22), (''ap-southeast-3'', day 2021 12 13),
     (''ap-southeast-4'', day 2023 1 23), (''ap-south-1'', day 2016 6 27),
     (''ap-northeast-3'', day 2018 2 11), (''ap-northeast-2'', day 2016 1 6),
     (''ap-southeast-1'', day 2015 10 1), (''ap-southeast-2'', day 2015 10 1),
     (''ap-northeast-1'', day 2015 10 1), (''ca-central-1'', day 2017 10 28),
     (''eu-central-1'', day 2015 10 1), (''eu-west-1'', day 2015 10 1), (''eu-west-2'', day 2017 10 28),
     (''eu-south-1'', day 2020 4 28), (''eu-west-3'', day 2017 12 18), (''eu-south-2'', day 2022 11 15),
     (''eu-north-1'', day 2018 12 12), (''eu-central-2'', day 2022 11 8), (''il-central-1'', day 2023 8 1),
     (''me-south-1'', day 2019 7 29), (''me-central-1'', day 2022 8 30), (''sa-east-1'', day 2015 12 11),
     (''us-gov-east-1'', day 2023 7 1), (''us-gov-west-1'', day 2023 7 1)]"

definition trackedServices :: "(string \<times> gotime) list" where
  "trackedServices = map (\<lambda>s. (s, zeroTime))
    [''acm'', ''apigateway'', ''athena'', ''autoscaling'', ''backup'',
     ''bedrock'', ''cloudformation'', ''cloudfront'', ''cloudtrail'',
     ''cloudwatch'', ''codebuild'', ''codecommit'', ''codedeploy'',
     ''codepipeline'', ''cognito-idp'', ''dynamodb'', ''ec2'', ''ecr'',
     ''ecs'', ''eks'', ''elasticache'', ''elasticfilesystem'',
     ''elasticloadbalancing'', ''es'', ''events'', ''firehose'', ''glue'',
     ''iam'', ''kinesis'', ''kms'', ''lambda'', ''logs'', ''rds'',
     ''redshift'', ''route53'', ''s3'', ''sagemaker'', ''secretsmanager'',
     ''ses'', ''sns'', ''sqs'', ''ssm'', ''states'', ''sts'',
     ''xray'']"

fun trackRegions :: "gotime \<Rightarrow> string list \<Rightarrow> gotime \<times> bool \<times> string" where
  "trackRegions start [] = (start, True, [])"
| "trackRegions start (r # rs) =
    (case map_of regionTrackingStart r of
       None \<Rightarrow> (zeroTime, False, ''region_not_tracked:'' @ r)
     | Some t \<Rightarrow> trackRegions (if start < t then t else start) rs)"

definition TrackingStart :: "string \<Rightarrow> string list \<Rightarrow> gotime \<times> bool \<times> string" where
  "TrackingStart service regions =
    (case map_of trackedServices service of
       None \<Rightarrow> (zeroTime, False, ''service_not_in_tracking_catalog'')
     | Some svcStart \<Rightarrow>
         if regions = [] then (zeroTime, False, ''no_enabled_regions'')
         else trackRegions svcStart (sortedUnique regions))"

subsection \<open>Policy-bearing forms\<close>

definition FormCollected :: string where [go_consts]: "FormCollected = ''collected''"
definition FormUncollected :: string where [go_consts]: "FormUncollected = ''uncollected''"
definition ScopeRegion :: string where [go_consts]: "ScopeRegion = ''region''"
definition ScopeAccount :: string where [go_consts]: "ScopeAccount = ''account''"

record policyBearingForm =
  pf_Name :: string
  pf_Namespace :: string
  pf_State :: string
  pf_Scope :: string

definition FormsDocumentedAt :: gotime where "FormsDocumentedAt = day 2026 10 7"

definition policyBearingForms :: "policyBearingForm list" where
  "policyBearingForms = map (\<lambda>(n, ns, st, sc). \<lparr>pf_Name = n, pf_Namespace = ns, pf_State = st, pf_Scope = sc\<rparr>)
    [(''s3_bucket'', ''s3'', FormCollected, ScopeAccount),
     (''s3_directory_bucket'', ''s3express'', FormCollected, ScopeRegion),
     (''s3_access_point'', ''s3'', FormCollected, ScopeRegion),
     (''s3_multi_region_access_point'', ''s3'', FormCollected, ScopeAccount),
     (''s3_object_lambda_access_point'', ''s3-object-lambda'', FormCollected, ScopeRegion),
     (''kms_key'', ''kms'', FormCollected, ScopeRegion),
     (''sqs_queue'', ''sqs'', FormCollected, ScopeRegion),
     (''sns_topic'', ''sns'', FormCollected, ScopeRegion),
     (''lambda_function'', ''lambda'', FormCollected, ScopeRegion),
     (''lambda_function_version'', ''lambda'', FormCollected, ScopeRegion),
     (''lambda_alias'', ''lambda'', FormCollected, ScopeRegion),
     (''lambda_layer_version'', ''lambda'', FormCollected, ScopeRegion),
     (''secretsmanager_secret'', ''secretsmanager'', FormCollected, ScopeRegion),
     (''ecr_repository'', ''ecr'', FormUncollected, ScopeRegion),
     (''ecr_registry'', ''ecr'', FormUncollected, ScopeRegion),
     (''events_event_bus'', ''events'', FormUncollected, ScopeRegion),
     (''apigateway_rest_api'', ''execute-api'', FormUncollected, ScopeRegion),
     (''glue_data_catalog'', ''glue'', FormUncollected, ScopeRegion),
     (''backup_vault'', ''backup'', FormUncollected, ScopeRegion),
     (''opensearch_domain'', ''es'', FormUncollected, ScopeRegion),
     (''logs_resource_policy'', ''logs'', FormUncollected, ScopeRegion),
     (''logs_destination'', ''logs'', FormUncollected, ScopeRegion),
     (''dynamodb_table'', ''dynamodb'', FormUncollected, ScopeRegion),
     (''dynamodb_stream'', ''dynamodb'', FormUncollected, ScopeRegion),
     (''kinesis_stream'', ''kinesis'', FormUncollected, ScopeRegion),
     (''efs_file_system'', ''elasticfilesystem'', FormUncollected, ScopeRegion),
     (''glacier_vault'', ''glacier'', FormUncollected, ScopeRegion),
     (''codeartifact_domain'', ''codeartifact'', FormUncollected, ScopeRegion),
     (''codeartifact_repository'', ''codeartifact'', FormUncollected, ScopeRegion),
     (''ses_identity'', ''ses'', FormUncollected, ScopeRegion),
     (''serverlessrepo_application'', ''serverlessrepo'', FormUncollected, ScopeRegion)]"

definition FormsForNamespace :: "string \<Rightarrow> policyBearingForm list" where
  "FormsForNamespace ns = sort_key pf_Name (filter (\<lambda>f. pf_Namespace f = ns) policyBearingForms)"

definition LookupForm :: "string \<Rightarrow> policyBearingForm option" where
  "LookupForm name = find (\<lambda>f. pf_Name f = name) policyBearingForms"

definition AllForms :: "policyBearingForm list" where
  "AllForms = sort_key pf_Name policyBearingForms"

subsection \<open>Escalations\<close>

record escalationAction =
  ea_Pattern :: string
  ea_OnWildcardResource :: bool

definition escalationCatalog :: "escalationAction list" where
  "escalationCatalog = map (\<lambda>(p, w). \<lparr>ea_Pattern = p, ea_OnWildcardResource = w\<rparr>)
    [(''iam:PassRole'', True), (''iam:Create*'', False), (''iam:Attach*'', False),
     (''iam:Put*Policy'', False), (''iam:UpdateAssumeRolePolicy'', False),
     (''sts:AssumeRole'', True), (''lambda:UpdateFunctionCode'', True)]"

definition EscalationActions :: "escalationAction list" where
  "EscalationActions = escalationCatalog"

definition escalationGranted :: "statement \<Rightarrow> escalationAction \<Rightarrow> bool" where
  "escalationGranted st e =
    (if st_IsNotAction st then
       let ens = (case SplitAction (ea_Pattern e) of Some (ns, act) \<Rightarrow> ns | None \<Rightarrow> [])
       in \<not> list_ex (\<lambda>n. equalFold n (ea_Pattern e) \<or> patternCoversWholeNamespace n ens) (st_NotAction st)
     else list_ex (\<lambda>p. globsIntersect p (ea_Pattern e)) (st_Action st))"

definition EscalationsGranted :: "statement \<Rightarrow> string list" where
  "EscalationsGranted st =
    (if st_Effect st \<noteq> EffectAllow then []
     else sort (map ea_Pattern
       (filter (\<lambda>e. \<not> (ea_OnWildcardResource e \<and> \<not> ResourceIsWildcard st) \<and> escalationGranted st e)
         escalationCatalog)))"

subsection \<open>Lemmas on dependencies\<close>

text \<open>What a context retains, and with which reason.\<close>

definition retains :: "dependencyContext \<Rightarrow> string \<Rightarrow> string \<Rightarrow> bool" where
  "retains c svc why \<longleftrightarrow> (dc_Context c, svc, why) \<in> set (contextAdds c)"

lemma addDependency_fold:
  "d \<in> set (foldl addDependency out as) \<longleftrightarrow>
     d \<in> set out \<or>
     (dep_Service d \<notin> dep_Service ` set out \<and>
      (\<exists>ctx. find (\<lambda>a. fst (snd a) = dep_Service d) as = Some (ctx, dep_Service d, dep_Reason d) \<and>
             dep_Catalog d = DependencyRef ctx))"
proof (induction as arbitrary: out)
  case Nil
  show ?case by simp
next
  case (Cons a as)
  obtain ctx svc why where a: "a = (ctx, svc, why)" by (metis prod_cases3)
  show ?case
    unfolding foldl_Cons Cons.IH
    by (cases d; cases "svc \<in> dep_Service ` set out"; cases "svc = dep_Service d")
       (auto simp: a addDependency_def)
qed

lemma addDependency_distinct:
  "distinct (map dep_Service out) \<Longrightarrow> distinct (map dep_Service (foldl addDependency out as))"
  by (induction as arbitrary: out) (auto simp: addDependency_def split: prod.split)

lemma foldl_concat: "foldl (\<lambda>out c. foldl f out (g c)) out cs = foldl f out (concat (map g cs))"
  by (induction cs arbitrary: out) simp_all

abbreviation allAdds :: "dependencyContext list \<Rightarrow> (string \<times> string \<times> string) list" where
  "allAdds ctxs \<equiv> concat (map contextAdds (sort_key dc_Context ctxs))"

lemma Dependencies_alt: "Dependencies ctxs = sort_key dep_Service (foldl addDependency [] (allAdds ctxs))"
  by (simp add: Dependencies_def foldl_concat)

lemma contextAdds_ctx: "a \<in> set (contextAdds c) \<Longrightarrow> fst a = dc_Context c"
  by (auto simp: contextAdds_def split: option.splits if_splits)

lemma sorted_concat_adds:
  "sorted (map dc_Context cs) \<Longrightarrow> sorted (map fst (concat (map contextAdds cs)))"
proof (induction cs)
  case Nil
  show ?case by simp
next
  case (Cons c cs)
  have "map fst (contextAdds c) = replicate (length (contextAdds c)) (dc_Context c)"
    by (rule nth_equalityI) (simp_all add: contextAdds_ctx)
  then show ?case using Cons by (auto simp: sorted_append sorted_replicate dest: contextAdds_ctx)
qed

lemma find_sorted_least:
  "sorted (map f xs) \<Longrightarrow> find P xs = Some x \<Longrightarrow> y \<in> set xs \<Longrightarrow> P y \<Longrightarrow> f x \<le> f y"
  by (induction xs) (auto split: if_splits)

lemma find_None_set: "find P xs = None \<longleftrightarrow> (\<forall>x \<in> set xs. \<not> P x)"
  by (auto simp: find_None_iff)

lemma find_SomeD: "find P xs = Some x \<Longrightarrow> x \<in> set xs \<and> P x"
  by (auto simp: find_Some_iff)

lemma allAdds_retains:
  "(ctx, svc, why) \<in> set (allAdds ctxs) \<longleftrightarrow> (\<exists>c \<in> set ctxs. dc_Context c = ctx \<and> retains c svc why)"
proof
  assume "(ctx, svc, why) \<in> set (allAdds ctxs)"
  then obtain c where "c \<in> set ctxs" "(ctx, svc, why) \<in> set (contextAdds c)" by auto
  then show "\<exists>c \<in> set ctxs. dc_Context c = ctx \<and> retains c svc why"
    using contextAdds_ctx [of "(ctx, svc, why)" c] by (auto simp: retains_def)
qed (auto simp: retains_def)

text \<open>Within one rule a service has one reason.\<close>

lemma depRules_disjoint:
  "list_all (\<lambda>(ctx, r). distinct (dr_always r @ dr_tracing r @ dr_secrets r)) dependencyCatalog"
  by code_simp

lemma retains_functional:
  assumes "retains c svc why" "retains c' svc why'" "dc_Context c = dc_Context c'"
  shows "why = why'"
proof -
  obtain r where r: "map_of dependencyCatalog (dc_Context c) = Some r"
    using assms(1) by (cases "map_of dependencyCatalog (dc_Context c)") (auto simp: retains_def contextAdds_def)
  have "distinct (dr_always r @ dr_tracing r @ dr_secrets r)"
    using depRules_disjoint map_of_SomeD [OF r] by (auto simp: list_all_iff)
  with assms r show ?thesis
    by (auto simp: retains_def contextAdds_def split: if_splits)
qed

text \<open>The entry of a service: cited under the least context that retains it.\<close>

definition dependencyOf :: "dependencyContext list \<Rightarrow> dependency \<Rightarrow> bool" where
  "dependencyOf ctxs d \<longleftrightarrow>
     (\<exists>c \<in> set ctxs. retains c (dep_Service d) (dep_Reason d) \<and>
        dep_Catalog d = DependencyRef (dc_Context c) \<and>
        (\<forall>c' \<in> set ctxs. \<forall>why. retains c' (dep_Service d) why \<longrightarrow> dc_Context c \<le> dc_Context c'))"

lemma Dependencies_iff: "d \<in> set (Dependencies ctxs) \<longleftrightarrow> dependencyOf ctxs d"
proof -
  let ?as = "allAdds ctxs" and ?P = "\<lambda>a. fst (snd a) = dep_Service d"
  have so: "sorted (map fst ?as)" by (rule sorted_concat_adds) simp
  have "d \<in> set (Dependencies ctxs) \<longleftrightarrow>
    (\<exists>ctx. find ?P ?as = Some (ctx, dep_Service d, dep_Reason d) \<and> dep_Catalog d = DependencyRef ctx)"
    by (simp add: Dependencies_alt addDependency_fold)
  also have "\<dots> \<longleftrightarrow> dependencyOf ctxs d"
  proof
    assume "\<exists>ctx. find ?P ?as = Some (ctx, dep_Service d, dep_Reason d) \<and> dep_Catalog d = DependencyRef ctx"
    then obtain ctx where f: "find ?P ?as = Some (ctx, dep_Service d, dep_Reason d)"
      and cat: "dep_Catalog d = DependencyRef ctx" by blast
    from find_SomeD [OF f] obtain c where c: "c \<in> set ctxs" "dc_Context c = ctx"
      "retains c (dep_Service d) (dep_Reason d)" unfolding allAdds_retains by blast
    have "ctx \<le> dc_Context c'" if "c' \<in> set ctxs" "retains c' (dep_Service d) why" for c' why
      using find_sorted_least [OF so f, of "(dc_Context c', dep_Service d, why)"] that
      by (auto simp: allAdds_retains simp del: set_concat)
    then show "dependencyOf ctxs d" unfolding dependencyOf_def using c cat by blast
  next
    assume "dependencyOf ctxs d"
    then obtain c where c: "c \<in> set ctxs" "retains c (dep_Service d) (dep_Reason d)"
      and cat: "dep_Catalog d = DependencyRef (dc_Context c)"
      and least: "\<And>c' why. c' \<in> set ctxs \<Longrightarrow> retains c' (dep_Service d) why \<Longrightarrow> dc_Context c \<le> dc_Context c'"
      unfolding dependencyOf_def by blast
    have m: "(dc_Context c, dep_Service d, dep_Reason d) \<in> set ?as" using c allAdds_retains by blast
    then obtain x where f: "find ?P ?as = Some x"
      by (cases "find ?P ?as") (auto simp: find_None_set simp del: set_concat)
    obtain ctx' why' where x: "x = (ctx', dep_Service d, why')"
      using find_SomeD [OF f] by (metis prod.collapse)
    obtain c' where c': "c' \<in> set ctxs" "dc_Context c' = ctx'" "retains c' (dep_Service d) why'"
      using find_SomeD [OF f] x allAdds_retains by blast
    have "dc_Context c = ctx'"
      using least [OF c'(1,3)] c'(2) find_sorted_least [OF so f m] x by auto
    then have "why' = dep_Reason d" using retains_functional [OF c'(3) c(2)] c'(2) by simp
    then show "\<exists>ctx. find ?P ?as = Some (ctx, dep_Service d, dep_Reason d) \<and> dep_Catalog d = DependencyRef ctx"
      using f x cat \<open>dc_Context c = ctx'\<close> by blast
  qed
  finally show ?thesis .
qed

lemma Dependencies_distinct: "distinct (map dep_Service (Dependencies ctxs))"
proof -
  have "distinct (map dep_Service (foldl addDependency [] (allAdds ctxs)))"
    by (rule addDependency_distinct) simp
  then show ?thesis unfolding Dependencies_alt
    by (metis distinct_map distinct_sort set_sort)
qed

lemma Dependencies_sorted: "sorted (map dep_Service (Dependencies ctxs))"
  by (simp add: Dependencies_def)

lemma sorted_key_unique:
  assumes "sorted (map f xs)" "sorted (map f ys)" "distinct (map f xs)" "distinct (map f ys)"
    and "set xs = set ys"
  shows "xs = ys"
proof (rule map_inj_on)
  show "map f xs = map f ys" using assms by (intro sorted_distinct_set_unique) auto
  show "inj_on f (set xs \<union> set ys)" using assms by (simp add: distinct_map)
qed

lemma retains_ex:
  assumes "c \<in> set ctxs" "retains c svc why"
  shows "\<exists>d. dependencyOf ctxs d \<and> dep_Service d = svc"
proof -
  have "(dc_Context c, svc, why) \<in> set (allAdds ctxs)"
    unfolding allAdds_retains using assms by blast
  moreover have "fst (snd (dc_Context c, svc, why)) = svc" by simp
  ultimately have "find (\<lambda>a. fst (snd a) = svc) (allAdds ctxs) \<noteq> None"
    unfolding find_None_set by blast
  then obtain x where f: "find (\<lambda>a. fst (snd a) = svc) (allAdds ctxs) = Some x" by blast
  obtain ctx why' where x: "x = (ctx, svc, why')" using find_SomeD [OF f] by (metis prod.collapse)
  let ?d = "\<lparr>dep_Service = svc, dep_Catalog = DependencyRef ctx, dep_Reason = why'\<rparr>"
  have "?d \<in> set (Dependencies ctxs)" using f x by (simp add: Dependencies_alt addDependency_fold)
  then show ?thesis unfolding Dependencies_iff by (intro exI [of _ ?d]) simp
qed

lemma find_key:
  "distinct (map f xs) \<Longrightarrow> find (\<lambda>x. f x = k) xs = Some d \<longleftrightarrow> d \<in> set xs \<and> f d = k"
  by (induction xs) auto

lemma IsDependency_iff:
  "IsDependency svc ctxs = Some d \<longleftrightarrow> dependencyOf ctxs d \<and> dep_Service d = svc"
  unfolding IsDependency_def find_key [OF Dependencies_distinct] Dependencies_iff ..

subsection \<open>Lemmas on references, tracking and escalations\<close>

lemma lastIndexByte_last: "c \<notin> set vs \<Longrightarrow> lastIndexByte (us @ c # vs) c = Some (length us)"
  by (simp add: lastIndexByte_def indexByte_first)

lemma ParseDependencyRef_ref:
  assumes "ctx \<noteq> []"
  shows "ParseDependencyRef (DependencyRef ctx) =
     (if map_of dependencyCatalog ctx = None then Inl (UnknownContext (DependencyRef ctx))
      else Inr (ctx, CatalogVersion))"
proof -
  have v: "itoa CatalogVersion = ''1''" by code_simp
  have ref: "DependencyRef ctx = ctx @ CHR ''@'' # ''1''"
    by (simp add: DependencyRef_def v)
  have "atoi ''1'' = Some 1" by code_simp
  moreover have "lastIndexByte (ctx @ CHR ''@'' # ''1'') (CHR ''@'') = Some (length ctx)"
    by (rule lastIndexByte_last) simp
  ultimately show ?thesis
    using assms by (simp add: ParseDependencyRef_def ref Let_def CatalogVersion_def)
qed

lemma trackRegions_ok:
  "trackRegions s rs = (t, True, w) \<longleftrightarrow>
     w = [] \<and> set rs \<subseteq> dom (map_of regionTrackingStart) \<and>
     t = foldl max s (map (\<lambda>r. the (map_of regionTrackingStart r)) rs)"
proof (induction rs arbitrary: s)
  case (Cons r rs)
  show ?case by (cases "map_of regionTrackingStart r") (auto simp: Cons.IH max_def)
qed auto

lemma trackRegions_fail:
  "trackRegions s rs = (t, False, w) \<longleftrightarrow>
     t = zeroTime \<and> (\<exists>r. find (\<lambda>r. map_of regionTrackingStart r = None) rs = Some r \<and>
       w = ''region_not_tracked:'' @ r)"
proof (induction rs arbitrary: s)
  case (Cons r rs)
  show ?case by (cases "map_of regionTrackingStart r") (auto simp: Cons.IH)
qed simp

lemma foldl_max_eq: "foldl max (s :: int) xs = Max (insert s (set xs))"
proof (induction xs arbitrary: s)
  case (Cons x xs)
  then show ?case by (cases "xs = []") (simp_all add: max.assoc)
qed simp

text \<open>A matched action, written out as one string, is matched by the pattern as one glob.\<close>

lemma globSpec_append: "globSpec p s \<Longrightarrow> globSpec q t \<Longrightarrow> globSpec (p @ q) (s @ t)"
proof (induction p arbitrary: s)
  case Nil
  then show ?case by simp
next
  case (Cons c cs)
  show ?case
  proof (cases "c = star")
    case True
    with Cons.prems(1) obtain us vs where s: "s = us @ vs" "globSpec cs vs"
      unfolding True globSpec_star by blast
    from Cons.IH [OF s(2) Cons.prems(2)] show ?thesis
      unfolding True append_Cons globSpec_star s(1) by (metis append.assoc)
  next
    case False
    then show ?thesis using Cons by (cases s) auto
  qed
qed

lemma SplitAction_Some:
  assumes "SplitAction p = Some (pns, pact)"
  shows "p = pns @ CHR '':'' # pact"
proof -
  obtain i where i: "indexByte p (CHR '':'') = Some i" "pns = take i p" "pact = drop (Suc i) p"
    using assms by (auto simp: SplitAction_def split: option.splits if_splits)
  then have "i < length p" "p ! i = CHR '':''" using indexByte_Some by blast+
  then show ?thesis using i id_take_nth_drop by metis
qed

lemma actionMatches_glob:
  assumes "actionMatches p ns act"
  shows "globSpec (toLower p) (toLower (ns @ CHR '':'' # act))"
proof (cases "allStars p")
  case True
  then show ?thesis using globSpec_all [of "toLower p"] by simp
next
  case False
  with assms obtain pns pact where sp: "SplitAction p = Some (pns, pact)"
    and m: "globSpec (toLower pns) (toLower ns)" "globSpec (toLower pact) (toLower act)"
    by (auto simp: actionMatches_def split: option.splits)
  have "globSpec (CHR '':'' # toLower pact) (CHR '':'' # toLower act)" using m(2) by simp
  from globSpec_append [OF m(1) this] show ?thesis
    by (simp add: SplitAction_Some [OF sp])
qed

text \<open>Every escalation pattern names its namespace literally.\<close>

lemma escalation_namespaces:
  "list_all (\<lambda>e. case SplitAction (ea_Pattern e) of
      None \<Rightarrow> False | Some (ns, act) \<Rightarrow> \<not> containsWild ns \<and> \<not> allStars (ea_Pattern e)) escalationCatalog"
  by code_simp

lemma globSpec_literal: "\<not> containsWild p \<Longrightarrow> globSpec p t \<longleftrightarrow> p = t"
  by (induction p arbitrary: t) (auto simp: containsWild_def split: list.splits)

lemma containsWild_toLower [simp]: "containsWild (toLower p) = containsWild p"
proof -
  have "star \<in> set (toLower p) \<longleftrightarrow> star \<in> set p" "quest \<in> set (toLower p) \<longleftrightarrow> quest \<in> set p"
    by (metis (no_types, lifting) image_iff list.set_map toLowerByte_eq_glob toLower_def)+
  then show ?thesis by (simp add: containsWild_def)
qed

lemma escalation_excluded:
  assumes e: "e \<in> set escalationCatalog" and m: "actionMatches (ea_Pattern e) ns act"
    and n: "equalFold n (ea_Pattern e) \<or>
      patternCoversWholeNamespace n (case SplitAction (ea_Pattern e) of Some (ns, act) \<Rightarrow> ns | None \<Rightarrow> [])"
  shows "globSpec (toLower n) (toLower (ns @ CHR '':'' # act))"
  using n
proof
  assume "equalFold n (ea_Pattern e)"
  then show ?thesis using actionMatches_glob [OF m] by (simp add: equalFold_def)
next
  assume cov: "patternCoversWholeNamespace n (case SplitAction (ea_Pattern e) of Some (ns, act) \<Rightarrow> ns | None \<Rightarrow> [])"
  obtain ens eact where sp: "SplitAction (ea_Pattern e) = Some (ens, eact)" "\<not> containsWild ens"
    and nst: "\<not> allStars (ea_Pattern e)"
    using escalation_namespaces e by (fastforce simp: list_all_iff split: option.splits)
  have "globSpec (toLower ens) (toLower ns)" using m sp nst by (simp add: actionMatches_def)
  then have ens: "toLower ns = toLower ens" using globSpec_literal sp(2) by (metis containsWild_toLower)
  have "star \<notin> set ens" using sp(2) by (simp add: containsWild_def)
  then have "\<forall>a. actionMatches n ens a"
    using cov sp by (simp add: patternCoversWholeNamespace_covers gm.coversAll_all)
  then have "globSpec (toLower n) (toLower (ens @ CHR '':'' # act))" using actionMatches_glob by blast
  then show ?thesis using ens by simp
qed

text \<open>What a statement allows, with an action written as one string.\<close>

definition allowsString :: "statement \<Rightarrow> string \<Rightarrow> bool" where
  "allowsString st a \<longleftrightarrow>
     st_Effect st = EffectAllow \<and>
     (if st_IsNotAction st then \<not> list_ex (\<lambda>p. globSpec (toLower p) (toLower a)) (st_NotAction st)
      else list_ex (\<lambda>p. globSpec (toLower p) (toLower a)) (st_Action st))"

lemma set_EscalationsGranted:
  "p \<in> set (EscalationsGranted st) \<longleftrightarrow>
     st_Effect st = EffectAllow \<and>
     (\<exists>e \<in> set escalationCatalog. p = ea_Pattern e \<and>
        (ea_OnWildcardResource e \<longrightarrow> ResourceIsWildcard st) \<and> escalationGranted st e)"
  by (auto simp: EscalationsGranted_def)

lemma escalationGranted_complete:
  assumes e: "e \<in> set escalationCatalog" and m: "actionMatches (ea_Pattern e) ns act"
    and a: "allowsString st (ns @ CHR '':'' # act)"
  shows "escalationGranted st e"
proof (cases "st_IsNotAction st")
  case True
  then show ?thesis using escalation_excluded [OF e m] a
    by (fastforce simp: escalationGranted_def allowsString_def list_ex_iff Let_def)
next
  case False
  then obtain p where "p \<in> set (st_Action st)" "globSpec (toLower p) (toLower (ns @ CHR '':'' # act))"
    using a by (auto simp: allowsString_def list_ex_iff)
  then have "globsIntersect p (ea_Pattern e)"
    using actionMatches_glob [OF m] unfolding globsIntersect_def globsIntersectRec_correct commonMatch_def
    by blast
  then show ?thesis using False \<open>p \<in> set (st_Action st)\<close> by (auto simp: escalationGranted_def list_ex_iff)
qed

subsection \<open>Properties\<close>


text \<open>
  The dependency list depends only on which contexts the role has, not on the order or
  the multiplicity in which the graph lists them.
\<close>

theorem dependencies_order_independent:
  assumes "set ctxs = set ctxs'"
  shows "Dependencies ctxs = Dependencies ctxs'"
proof (rule sorted_key_unique [where f = dep_Service])
  have "dependencyOf ctxs = dependencyOf ctxs'" using assms by (intro ext) (simp add: dependencyOf_def)
  then show "set (Dependencies ctxs) = set (Dependencies ctxs')"
    using Dependencies_iff by (metis subsetI subset_antisym)
qed (rule Dependencies_sorted Dependencies_distinct)+

text \<open>
  C17. A rendered catalogue reference is accepted exactly when its context is in the
  catalogue, and then gives back the context and the catalogue version.
\<close>

theorem dependency_ref_roundtrip:
  "ParseDependencyRef (DependencyRef ctx) = Inr (c, v) \<longleftrightarrow>
     map_of dependencyCatalog ctx \<noteq> None \<and> c = ctx \<and> v = CatalogVersion"
proof (cases "ctx = []")
  case True
  have "ParseDependencyRef (DependencyRef []) = Inl (NotContextAtVersion (DependencyRef []))"
    "map_of dependencyCatalog [] = None" by code_simp+
  then show ?thesis using True by simp
next
  case False
  then show ?thesis by (auto simp: ParseDependencyRef_ref)
qed

text \<open>
  C18. Tracking: a start is given exactly for a tracked service and a non-empty set of Regions
  that all provide last accessed information, and it is then the latest of the service's and
  the Regions' starts, so no attempt after it can be invisible in any of the Regions.
\<close>

theorem tracking_start_exact:
  "TrackingStart service regions = (t, True, w) \<longleftrightarrow>
     w = [] \<and> regions \<noteq> [] \<and> set regions \<subseteq> dom (map_of regionTrackingStart) \<and>
     (\<exists>svcStart. map_of trackedServices service = Some svcStart \<and>
        t = Max (insert svcStart ((\<lambda>r. the (map_of regionTrackingStart r)) ` set regions)))"
  by (cases "map_of trackedServices service")
     (auto simp: TrackingStart_def trackRegions_ok foldl_max_eq)


definition escalatingStatement :: statement where
  "escalatingStatement = exampleStatement\<lparr>st_Action := [''iam:C*'']\<rparr>"


end
