(* ===== verification/Routes.thy ===== *)
theory Routes
  imports Catalog
begin

section \<open>Resource-policy routes (internal/igagov/routes.go)\<close>

text \<open>
  Which resource policies grant a namespace to a role, from one scan's observations and
  coverage. The analysis must never say "no route" where something was not analysed.
\<close>

subsection \<open>Vocabulary\<close>

definition RouteUsageNoneObserved :: string where [go_consts]: "RouteUsageNoneObserved = ''none_observed''"
definition RouteUsageConfirmRequired :: string where
  [go_consts]: "RouteUsageConfirmRequired = ''confirm_required''"

definition RouteStateNoneObserved :: string where [go_consts]: "RouteStateNoneObserved = ''none_observed''"
definition RouteStateBypassKnown :: string where [go_consts]: "RouteStateBypassKnown = ''bypass_known''"
definition RouteStateEffectUnknown :: string where [go_consts]: "RouteStateEffectUnknown = ''effect_unknown''"
definition RouteStateNotAnalysed :: string where [go_consts]: "RouteStateNotAnalysed = ''not_analysed''"

definition PrincipalRoleARN :: string where [go_consts]: "PrincipalRoleARN = ''role_arn''"
definition PrincipalRoleSession :: string where [go_consts]: "PrincipalRoleSession = ''role_session''"
definition PrincipalWildcard :: string where [go_consts]: "PrincipalWildcard = ''wildcard''"

definition RouteEffectLimited :: string where [go_consts]: "RouteEffectLimited = ''limited''"
definition RouteEffectBypassKnown :: string where [go_consts]: "RouteEffectBypassKnown = ''bypass_known''"
definition RouteEffectEffectUnknown :: string where
  [go_consts]: "RouteEffectEffectUnknown = ''effect_unknown''"
definition RouteEffectNotAnalysed :: string where [go_consts]: "RouteEffectNotAnalysed = ''not_analysed''"

definition CoverageComplete :: string where [go_consts]: "CoverageComplete = ''complete''"
definition CoveragePartial :: string where [go_consts]: "CoveragePartial = ''partial''"
definition CoverageDenied :: string where [go_consts]: "CoverageDenied = ''denied''"
definition CoverageNotCollected :: string where [go_consts]: "CoverageNotCollected = ''not_collected''"
definition ParseParsed :: string where [go_consts]: "ParseParsed = ''parsed''"
definition ParseUnparseable :: string where [go_consts]: "ParseUnparseable = ''unparseable''"

definition ReasonEnabledRegionsUnknown :: string where
  [go_consts]: "ReasonEnabledRegionsUnknown = ''enabled_regions_unknown''"

record route =
  rt_Service :: string
  rt_Form :: string
  rt_Region :: string
  rt_Resource :: string
  rt_Principal :: string
  rt_Effect :: string
  rt_Reason :: string

definition routeKey :: "route \<Rightarrow> string \<times> string \<times> string \<times> string \<times> string \<times> string \<times> string" where
  "routeKey r = (rt_Service r, rt_Resource r, rt_Form r, rt_Region r, rt_Principal r, rt_Effect r, rt_Reason r)"

definition SortRoutes :: "route list \<Rightarrow> route list" where
  "SortRoutes rs = sort_key routeKey rs"

record coverageRow =
  cr_Form :: string
  cr_Region :: string
  cr_State :: string
  cr_Reason :: string

record resourcePolicyObservation =
  ob_Form :: string
  ob_Region :: string
  ob_ResourceARN :: string
  ob_PolicyPresent :: bool
  ob_DocumentHash :: string
  ob_ParseState :: string
  ob_Document :: "policyDocument option"

record resourcePolicyEvidence =
  ev_Coverage :: "coverageRow list"
  ev_Observations :: "resourcePolicyObservation list"
  ev_EnabledRegionsUnknown :: bool

definition coverageOnly :: "resourcePolicyEvidence \<Rightarrow> resourcePolicyEvidence" where
  "coverageOnly ev = ev\<lparr>ev_Observations := []\<rparr>"

record roleRef =
  rr_RoleID :: string
  rr_ARN :: string
  rr_Name :: string
  rr_AccountID :: string
  rr_Partition :: string

record routeAnalysis =
  ra_Service :: string
  ra_Usage :: string
  ra_State :: string
  ra_Routes :: "route list"

definition RemainingRoutes :: "routeAnalysis \<Rightarrow> route list" where
  "RemainingRoutes ra = filter (\<lambda>r. rt_Effect r \<noteq> RouteEffectLimited) (ra_Routes ra)"

definition partition_name :: "roleRef \<Rightarrow> string" where
  "partition_name r = (if rr_Partition r = [] then ''aws'' else rr_Partition r)"

subsection \<open>Principals\<close>

definition arnAccount :: "string \<Rightarrow> string" where
  "arnAccount arn = (let parts = splitN arn (CHR '':'') 6 in if length parts < 6 then [] else parts ! 4)"

definition classifyAWSPrincipal :: "string \<Rightarrow> roleRef \<Rightarrow> string" where
  "classifyAWSPrincipal v role =
    (if v = ''*'' then PrincipalWildcard
     else if v = rr_ARN role \<or> (rr_RoleID role \<noteq> [] \<and> v = rr_RoleID role) then PrincipalRoleARN
     else if rr_Name role \<noteq> [] \<and>
       hasPrefix v (''arn:'' @ partition_name role @ '':sts::'' @ rr_AccountID role @ '':assumed-role/'' @
         rr_Name role @ ''/'') then PrincipalRoleSession
     else [])"

definition principalLists :: "principal option \<Rightarrow> roleRef \<Rightarrow> bool" where
  "principalLists p role =
    (case p of
       None \<Rightarrow> False
     | Some p \<Rightarrow> list_ex (\<lambda>v. (classifyAWSPrincipal v role \<noteq> [] \<and> v \<noteq> ''*'') \<or>
           v = rr_AccountID role \<or>
           v = ''arn:'' @ partition_name role @ '':iam::'' @ rr_AccountID role @ '':root'') (awsValues p))"

definition statementRoutes :: "statement \<Rightarrow> string \<Rightarrow> roleRef \<Rightarrow> string list" where
  "statementRoutes st ns role =
    (if st_Effect st \<noteq> EffectAllow \<or> \<not> GrantsNamespace st ns then []
     else if st_NotPrincipal st \<noteq> None then
       (if principalLists (st_NotPrincipal st) role then [] else [PrincipalWildcard])
     else case st_Principal st of
            None \<Rightarrow> []
          | Some p \<Rightarrow>
              if pr_Wildcard p then [PrincipalWildcard]
              else sortedUnique (filter (\<lambda>k. k \<noteq> []) (map (\<lambda>v. classifyAWSPrincipal v role) (awsValues p))))"

definition effectFor :: "string \<Rightarrow> string" where
  "effectFor p =
    (if p = PrincipalRoleARN then RouteEffectLimited
     else if p = PrincipalRoleSession then RouteEffectBypassKnown
     else RouteEffectEffectUnknown)"

subsection \<open>The analysis\<close>

definition notAnalysed :: "string \<Rightarrow> string \<Rightarrow> string \<Rightarrow> string \<Rightarrow> string \<Rightarrow> route" where
  "notAnalysed service form region resource reason =
    \<lparr>rt_Service = service, rt_Form = form, rt_Region = region, rt_Resource = resource, rt_Principal = [],
     rt_Effect = RouteEffectNotAnalysed, rt_Reason = reason\<rparr>"

text \<open>The map \<^verbatim>\<open>rows\<close> of a form: the last coverage row of each Region.\<close>

definition formRows :: "resourcePolicyEvidence \<Rightarrow> string \<Rightarrow> (string \<times> coverageRow) list" where
  "formRows ev form = rev (map (\<lambda>c. (cr_Region c, c)) (filter (\<lambda>c. cr_Form c = form) (ev_Coverage ev)))"

definition sortedKeys :: "(string \<times> 'a) list \<Rightarrow> string list" where
  "sortedKeys m = sortedUnique (map fst m)"

definition formRoutes ::
  "string \<Rightarrow> resourcePolicyEvidence \<Rightarrow> string list \<Rightarrow> policyBearingForm \<Rightarrow> route list" where
  "formRoutes service ev enabledRegions f =
    (if pf_State f = FormUncollected then [notAnalysed service (pf_Name f) [] [] ''form_not_collected'']
     else let rows = formRows ev (pf_Name f) in
       if pf_Scope f = ScopeAccount then
         (if rows = [] then [notAnalysed service (pf_Name f) [] [] CoverageNotCollected] else []) @
         List.map_filter (\<lambda>region. case map_of rows region of
             Some c \<Rightarrow> if cr_State c \<noteq> CoverageComplete
                       then Some (notAnalysed service (pf_Name f) region [] (cr_State c)) else None
           | None \<Rightarrow> None) (sortedKeys rows)
       else
         (if ev_EnabledRegionsUnknown ev
          then [notAnalysed service (pf_Name f) [] [] ReasonEnabledRegionsUnknown] else []) @
         List.map_filter (\<lambda>region. case map_of rows region of
             None \<Rightarrow> Some (notAnalysed service (pf_Name f) region [] CoverageNotCollected)
           | Some c \<Rightarrow> if cr_State c \<noteq> CoverageComplete
                       then Some (notAnalysed service (pf_Name f) region [] (cr_State c)) else None)
           (sortedUnique (enabledRegions @ sortedKeys rows)))"

text \<open>The principals of a document: each once, in the order of its statements.\<close>

definition documentPrincipals :: "policyDocument \<Rightarrow> string \<Rightarrow> roleRef \<Rightarrow> string list" where
  "documentPrincipals doc service role =
    foldl (\<lambda>seen p. if p \<in> set seen then seen else seen @ [p]) []
      (concat (map (\<lambda>st. statementRoutes st service role) (pd_Statements doc)))"

definition observationRoutes ::
  "string \<Rightarrow> roleRef \<Rightarrow> string list \<Rightarrow> resourcePolicyObservation \<Rightarrow> route list" where
  "observationRoutes service role formNames ob =
    (if ob_Form ob \<notin> set formNames \<or> \<not> ob_PolicyPresent ob then []
     else let acct = arnAccount (ob_ResourceARN ob) in
       if acct \<noteq> [] \<and> rr_AccountID role \<noteq> [] \<and> acct \<noteq> rr_AccountID role then []
       else if ob_ParseState ob = ParseUnparseable then
         [notAnalysed service (ob_Form ob) (ob_Region ob) (ob_ResourceARN ob) ''policy_unparseable'']
       else case ob_Document ob of
              None \<Rightarrow> [notAnalysed service (ob_Form ob) (ob_Region ob) (ob_ResourceARN ob) ''policy_unparseable'']
            | Some doc \<Rightarrow>
                map (\<lambda>p. \<lparr>rt_Service = service, rt_Form = ob_Form ob, rt_Region = ob_Region ob,
                         rt_Resource = ob_ResourceARN ob, rt_Principal = p, rt_Effect = effectFor p,
                         rt_Reason = []\<rparr>)
                  (documentPrincipals doc service role))"

definition finish :: "string \<Rightarrow> route list \<Rightarrow> routeAnalysis" where
  "finish service routes =
    (let rs = SortRoutes routes; has = (\<lambda>e. e \<in> rt_Effect ` set rs)
     in \<lparr>ra_Service = service,
         ra_Usage = (if rs = [] then RouteUsageNoneObserved else RouteUsageConfirmRequired),
         ra_State =
           (if has RouteEffectBypassKnown then RouteStateBypassKnown
            else if has RouteEffectEffectUnknown then RouteStateEffectUnknown
            else if has RouteEffectNotAnalysed then RouteStateNotAnalysed
            else RouteStateNoneObserved),
         ra_Routes = rs\<rparr>)"

definition AnalyzeRoutes ::
  "string \<Rightarrow> roleRef \<Rightarrow> resourcePolicyEvidence option \<Rightarrow> string list \<Rightarrow> routeAnalysis" where
  "AnalyzeRoutes service role evidence enabledRegions =
    (case evidence of
       None \<Rightarrow> finish service [notAnalysed service [] [] [] ''no_resource_policy_coverage'']
     | Some ev \<Rightarrow>
         let forms = FormsForNamespace service
         in finish service
              (concat (map (formRoutes service ev enabledRegions) forms) @
               concat (map (observationRoutes service role (map pf_Name forms)) (ev_Observations ev))))"

subsection \<open>Lemmas\<close>

lemma routeKey_inject: "routeKey x = routeKey y \<Longrightarrow> x = y"
  by (cases x; cases y) (simp add: routeKey_def)

interpretation rk: total_key routeKey
  by unfold_locales (rule routeKey_inject)

lemmas route_effect_consts = RouteEffectLimited_def RouteEffectBypassKnown_def
  RouteEffectEffectUnknown_def RouteEffectNotAnalysed_def

lemmas route_state_consts = RouteStateNoneObserved_def RouteStateBypassKnown_def
  RouteStateEffectUnknown_def RouteStateNotAnalysed_def

lemma usages_distinct [simp]: "RouteUsageConfirmRequired \<noteq> RouteUsageNoneObserved"
  by (simp add: RouteUsageConfirmRequired_def RouteUsageNoneObserved_def)

definition routeEffects :: "string set" where
  "routeEffects = {RouteEffectLimited, RouteEffectBypassKnown, RouteEffectEffectUnknown, RouteEffectNotAnalysed}"

lemma effectFor_effects [simp]: "effectFor p \<in> routeEffects"
  by (simp add: effectFor_def routeEffects_def)

lemma notAnalysed_effect [simp]: "rt_Effect (notAnalysed s f r a w) = RouteEffectNotAnalysed"
  by (simp add: notAnalysed_def)

lemma set_map_filter: "set (List.map_filter f xs) = {y. \<exists>x \<in> set xs. f x = Some y}"
  by (force simp: List.map_filter_def image_iff)

lemma formRoutes_effect: "r \<in> set (formRoutes service ev er f) \<Longrightarrow> rt_Effect r = RouteEffectNotAnalysed"
  by (auto simp: formRoutes_def Let_def set_map_filter split: if_splits option.splits)

lemma observationRoutes_effect:
  "r \<in> set (observationRoutes service role fn ob) \<Longrightarrow> rt_Effect r \<in> routeEffects"
  by (auto simp: observationRoutes_def Let_def routeEffects_def split: if_splits option.splits)
     (auto simp: effectFor_def)

lemma set_SortRoutes [simp]: "set (SortRoutes rs) = set rs"
  by (simp add: SortRoutes_def)

lemma SortRoutes_Nil [simp]: "SortRoutes rs = [] \<longleftrightarrow> rs = []"
  by (metis set_SortRoutes set_empty)

lemma effects_apart:
  "RouteEffectBypassKnown \<noteq> RouteEffectLimited" "RouteEffectEffectUnknown \<noteq> RouteEffectLimited"
  "RouteEffectNotAnalysed \<noteq> RouteEffectLimited"
  by (simp_all add: route_effect_consts)

lemma finish_state:
  assumes eff: "\<And>r. r \<in> set rs \<Longrightarrow> rt_Effect r \<in> routeEffects"
  shows "ra_State (finish s rs) = RouteStateNoneObserved \<longleftrightarrow> RemainingRoutes (finish s rs) = []"
proof -
  have "RemainingRoutes (finish s rs) = [] \<longleftrightarrow> (\<forall>r \<in> set rs. rt_Effect r = RouteEffectLimited)"
    by (simp add: RemainingRoutes_def finish_def Let_def filter_empty_conv)
  moreover have "ra_State (finish s rs) = RouteStateNoneObserved \<longleftrightarrow>
      (\<forall>r \<in> set rs. rt_Effect r \<notin> {RouteEffectBypassKnown, RouteEffectEffectUnknown, RouteEffectNotAnalysed})"
    by (simp add: finish_def Let_def route_state_consts image_iff) metis
  moreover have "rt_Effect r = RouteEffectLimited \<longleftrightarrow>
      rt_Effect r \<notin> {RouteEffectBypassKnown, RouteEffectEffectUnknown, RouteEffectNotAnalysed}"
    if "r \<in> set rs" for r
    using eff [OF that] effects_apart by (auto simp: routeEffects_def)
  ultimately show ?thesis by simp
qed

text \<open>The effect of a route list on the strongest remaining effect.\<close>

lemma AnalyzeRoutes_finish:
  "\<exists>rs. AnalyzeRoutes service role evd er = finish service rs \<and>
     (\<forall>r \<in> set rs. rt_Effect r \<in> routeEffects)"
proof (cases evd)
  case None
  then show ?thesis
    by (intro exI [of _ "[notAnalysed service [] [] [] ''no_resource_policy_coverage'']"])
       (simp add: AnalyzeRoutes_def routeEffects_def)
next
  case (Some ev)
  have "rt_Effect r \<in> routeEffects" if "r \<in> set (formRoutes service ev er f)" for r f
    using formRoutes_effect [OF that] by (simp add: routeEffects_def)
  then show ?thesis using Some observationRoutes_effect
    by (intro exI [of _ "concat (map (formRoutes service ev er) (FormsForNamespace service)) @
      concat (map (observationRoutes service role (map pf_Name (FormsForNamespace service))) (ev_Observations ev))"])
       (auto simp: AnalyzeRoutes_def Let_def)
qed

text \<open>A statement's principal element reaches the role.\<close>

definition reachesRole :: "statement \<Rightarrow> roleRef \<Rightarrow> bool" where
  "reachesRole st role \<longleftrightarrow>
    (if st_NotPrincipal st \<noteq> None then \<not> principalLists (st_NotPrincipal st) role
     else case st_Principal st of
            None \<Rightarrow> False
          | Some p \<Rightarrow> pr_Wildcard p \<or> (\<exists>v \<in> set (awsValues p). classifyAWSPrincipal v role \<noteq> []))"

lemma statementRoutes_empty:
  "statementRoutes st ns role = [] \<longleftrightarrow>
     \<not> (st_Effect st = EffectAllow \<and> GrantsNamespace st ns \<and> reachesRole st role)"
  by (auto simp: statementRoutes_def reachesRole_def filter_empty_conv split: option.splits)

lemma foldl_once_set:
  "set (foldl (\<lambda>seen p. if p \<in> set seen then seen else seen @ [p]) acc xs) = set acc \<union> set xs"
proof (induction xs arbitrary: acc)
  case (Cons x xs)
  show ?case by (simp add: Cons.IH insert_absorb)
qed simp

lemma foldl_once_empty:
  "foldl (\<lambda>seen p. if p \<in> set seen then seen else seen @ [p]) [] xs = [] \<longleftrightarrow> xs = []"
proof -
  let ?l = "foldl (\<lambda>seen p. if p \<in> set seen then seen else seen @ [p]) [] xs"
  have "set ?l = set xs" unfolding foldl_once_set by simp
  then have "set ?l = {} \<longleftrightarrow> set xs = {}" by (rule arg_cong)
  then show ?thesis unfolding set_empty .
qed

lemma documentPrincipals_empty:
  "documentPrincipals doc ns role = [] \<longleftrightarrow> (\<forall>st \<in> set (pd_Statements doc). statementRoutes st ns role = [])"
  unfolding documentPrincipals_def foldl_once_empty by simp

definition inAccount :: "roleRef \<Rightarrow> resourcePolicyObservation \<Rightarrow> bool" where
  "inAccount role ob \<longleftrightarrow>
     arnAccount (ob_ResourceARN ob) \<in> {[], rr_AccountID role} \<or> rr_AccountID role = []"

text \<open>What has to have been collected for one form.\<close>

definition regionComplete :: "resourcePolicyEvidence \<Rightarrow> string \<Rightarrow> string \<Rightarrow> bool" where
  "regionComplete ev form region \<longleftrightarrow>
     (\<exists>c. map_of (formRows ev form) region = Some c \<and> cr_State c = CoverageComplete)"

definition formComplete :: "resourcePolicyEvidence \<Rightarrow> string list \<Rightarrow> policyBearingForm \<Rightarrow> bool" where
  "formComplete ev er f \<longleftrightarrow>
     pf_State f \<noteq> FormUncollected \<and>
     (\<forall>region \<in> fst ` set (formRows ev (pf_Name f)). regionComplete ev (pf_Name f) region) \<and>
     (if pf_Scope f = ScopeAccount then formRows ev (pf_Name f) \<noteq> []
      else \<not> ev_EnabledRegionsUnknown ev \<and> (\<forall>region \<in> set er. regionComplete ev (pf_Name f) region))"

lemma set_sortedKeys [simp]: "set (sortedKeys m) = fst ` set m"
  by (simp add: sortedKeys_def)

lemma map_filter_Nil: "List.map_filter f xs = [] \<longleftrightarrow> (\<forall>x \<in> set xs. f x = None)"
  by (induction xs) (auto simp: List.map_filter_simps split: option.splits)

lemma complete_row:
  "(case map_of rows region of
      None \<Rightarrow> Some g
    | Some c \<Rightarrow> if cr_State c \<noteq> CoverageComplete then Some (h c) else None) = None \<longleftrightarrow>
   (\<exists>c. map_of rows region = Some c \<and> cr_State c = CoverageComplete)"
  by (cases "map_of rows region") auto

lemma complete_known_row:
  assumes "region \<in> set (sortedKeys rows)"
  shows "(case map_of rows region of
      Some c \<Rightarrow> if cr_State c \<noteq> CoverageComplete then Some (h c) else None
    | None \<Rightarrow> None) = None \<longleftrightarrow>
   (\<exists>c. map_of rows region = Some c \<and> cr_State c = CoverageComplete)"
  using assms by (cases "map_of rows region") (auto simp: map_of_eq_None_iff)

lemma formRoutes_empty: "formRoutes service ev er f = [] \<longleftrightarrow> formComplete ev er f"
proof -
  let ?rows = "formRows ev (pf_Name f)"
  have rc: "regionComplete ev (pf_Name f) = (\<lambda>region. \<exists>c. map_of ?rows region = Some c \<and> cr_State c = CoverageComplete)"
    by (simp add: regionComplete_def fun_eq_iff)
  show ?thesis
  proof (cases "pf_State f = FormUncollected")
    case True
    then show ?thesis by (simp add: formRoutes_def formComplete_def)
  next
    case st: False
    show ?thesis
    proof (cases "pf_Scope f = ScopeAccount")
      case True
      have "formRoutes service ev er f = [] \<longleftrightarrow>
        ?rows \<noteq> [] \<and> (\<forall>region \<in> set (sortedKeys ?rows). regionComplete ev (pf_Name f) region)"
        using st True
        by (simp add: formRoutes_def map_filter_Nil rc Let_def complete_known_row del: set_sortedKeys)
      then show ?thesis using st True by (auto simp: formComplete_def)
    next
      case False
      have "formRoutes service ev er f = [] \<longleftrightarrow>
        \<not> ev_EnabledRegionsUnknown ev \<and>
        (\<forall>region \<in> set er \<union> fst ` set ?rows. regionComplete ev (pf_Name f) region)"
        using st False by (simp add: formRoutes_def map_filter_Nil rc Let_def complete_row ball_Un)
      then show ?thesis using st False by (auto simp: formComplete_def ball_Un)
    qed
  qed
qed

text \<open>A policy that was read and grants the role nothing in the namespace.\<close>

definition policySilent :: "string \<Rightarrow> roleRef \<Rightarrow> resourcePolicyObservation \<Rightarrow> bool" where
  "policySilent service role ob \<longleftrightarrow>
     ob_ParseState ob \<noteq> ParseUnparseable \<and>
     (\<exists>doc. ob_Document ob = Some doc \<and>
        (\<forall>st \<in> set (pd_Statements doc).
           \<not> (st_Effect st = EffectAllow \<and> GrantsNamespace st service \<and> reachesRole st role)))"

lemma observationRoutes_empty:
  "observationRoutes service role fn ob = [] \<longleftrightarrow>
     (ob_Form ob \<in> set fn \<and> ob_PolicyPresent ob \<and> inAccount role ob \<longrightarrow> policySilent service role ob)"
  by (cases "ob_Document ob")
     (auto simp: observationRoutes_def Let_def inAccount_def policySilent_def documentPrincipals_empty
       statementRoutes_empty)

lemma finish_usage: "ra_Usage (finish s rs) = RouteUsageNoneObserved \<longleftrightarrow> rs = []"
  by (simp add: finish_def Let_def)

lemma no_route_iff:
  "ra_Usage (AnalyzeRoutes service role evd er) = RouteUsageNoneObserved \<longleftrightarrow>
    (\<exists>ev. evd = Some ev \<and>
      (\<forall>f \<in> set (FormsForNamespace service). formComplete ev er f) \<and>
      (\<forall>ob \<in> set (ev_Observations ev).
         ob_Form ob \<in> pf_Name ` set (FormsForNamespace service) \<and> ob_PolicyPresent ob \<and> inAccount role ob \<longrightarrow>
         policySilent service role ob))"
  by (cases evd) (simp_all add: AnalyzeRoutes_def finish_usage Let_def formRoutes_empty observationRoutes_empty)


lemma policySilent_sound:
  assumes "star \<notin> set service" "policySilent service role ob" "ob_Document ob = Some doc"
    and "st \<in> set (pd_Statements doc)" "allowsAction st service act"
  shows "\<not> reachesRole st role"
proof -
  have "GrantsNamespace st service" by (rule GrantsNamespace_complete [OF assms(1,5)])
  moreover have "st_Effect st = EffectAllow" using assms(5) by (simp add: allowsAction_def)
  ultimately show ?thesis using assms(2-4) by (auto simp: policySilent_def)
qed

lemma mset_concat_map: "mset (concat (map f xs)) = sum_mset (image_mset (\<lambda>x. mset (f x)) (mset xs))"
  by (induction xs) simp_all

lemma concat_map_mset: "mset xs = mset ys \<Longrightarrow> mset (concat (map f xs)) = mset (concat (map f ys))"
  unfolding mset_concat_map by simp

subsection \<open>Properties\<close>

text \<open>
  C20. "None observed" is never said over missing evidence: it holds exactly when there is
  evidence for the run, every policy-bearing form of the namespace was collected completely
  (every enabled Region, every Region with a row, and the enabled Regions known), and every
  policy present in the role's account was parsed and has no Allow statement that allows an
  action of the namespace to a principal reaching the role.
\<close>

theorem no_route_sound:
  assumes "star \<notin> set service"
    and "ra_Usage (AnalyzeRoutes service role evd er) = RouteUsageNoneObserved"
  shows "\<exists>ev. evd = Some ev \<and>
    (\<forall>f \<in> set (FormsForNamespace service). formComplete ev er f) \<and>
    (\<forall>ob \<in> set (ev_Observations ev).
       ob_Form ob \<in> pf_Name ` set (FormsForNamespace service) \<and> ob_PolicyPresent ob \<and> inAccount role ob \<longrightarrow>
       (\<exists>doc. ob_Document ob = Some doc \<and>
          (\<forall>st \<in> set (pd_Statements doc). \<forall>act. allowsAction st service act \<longrightarrow> \<not> reachesRole st role)))"
proof -
  from assms(2) [unfolded no_route_iff] obtain ev where ev: "evd = Some ev"
    "\<forall>f \<in> set (FormsForNamespace service). formComplete ev er f"
    and obs: "\<forall>ob \<in> set (ev_Observations ev).
         ob_Form ob \<in> pf_Name ` set (FormsForNamespace service) \<and> ob_PolicyPresent ob \<and> inAccount role ob \<longrightarrow>
         policySilent service role ob"
    by (elim exE conjE)
  show ?thesis
  proof (rule exI [of _ ev], intro conjI ev, intro ballI impI)
    fix ob
    assume ob: "ob \<in> set (ev_Observations ev)"
      "ob_Form ob \<in> pf_Name ` set (FormsForNamespace service) \<and> ob_PolicyPresent ob \<and> inAccount role ob"
    have s: "policySilent service role ob" by (rule bspec [OF obs ob(1), THEN mp, OF ob(2)])
    then obtain doc where doc: "ob_Document ob = Some doc" by (auto simp: policySilent_def)
    then show "\<exists>doc. ob_Document ob = Some doc \<and>
          (\<forall>st \<in> set (pd_Statements doc). \<forall>act. allowsAction st service act \<longrightarrow> \<not> reachesRole st role)"
      using policySilent_sound [OF assms(1) s doc] by blast
  qed
qed

definition exampleRole :: roleRef where
  "exampleRole = \<lparr>rr_RoleID = ''AROAX'', rr_ARN = ''arn:aws:iam::123456789012:role/app'', rr_Name = ''app'',
     rr_AccountID = ''123456789012'', rr_Partition = []\<rparr>"

definition exampleEvidence :: resourcePolicyEvidence where
  "exampleEvidence = \<lparr>ev_Coverage = [\<lparr>cr_Form = ''sqs_queue'', cr_Region = ''us-east-1'',
       cr_State = CoverageComplete, cr_Reason = []\<rparr>],
     ev_Observations = [\<lparr>ob_Form = ''sqs_queue'', ob_Region = ''us-east-1'',
       ob_ResourceARN = ''arn:aws:sqs:us-east-1:123456789012:q'', ob_PolicyPresent = True,
       ob_DocumentHash = [], ob_ParseState = ParseParsed,
       ob_Document = Some \<lparr>pd_Version = [], pd_ID = [], pd_Statements =
         [exampleStatement\<lparr>st_Principal := Some \<lparr>pr_Wildcard = False,
            pr_Values = [(''AWS'', [''arn:aws:iam::999999999999:role/other''])]\<rparr>\<rparr>]\<rparr>\<rparr>],
     ev_EnabledRegionsUnknown = False\<rparr>"

theorem no_route_sound_witness:
  "ra_Usage (AnalyzeRoutes ''sqs'' exampleRole (Some exampleEvidence) [''us-east-1'']) = RouteUsageNoneObserved \<and>
   (\<exists>ev. Some exampleEvidence = Some ev \<and>
      (\<forall>f \<in> set (FormsForNamespace ''sqs''). formComplete ev [''us-east-1''] f))"
proof -
  have u: "ra_Usage (AnalyzeRoutes ''sqs'' exampleRole (Some exampleEvidence) [''us-east-1'']) = RouteUsageNoneObserved"
    by code_simp
  have "star \<notin> set ''sqs''" by simp
  from no_route_sound [OF this u] u show ?thesis by blast
qed

text \<open>
  The two conclusions agree with the listed routes: usage needs no confirmation exactly
  with no route at all, the state is "none observed" exactly when no route remains beside those
  the boundary limits, and otherwise it is the strongest effect among the routes.
\<close>

theorem route_state_exact:
  fixes service role evd er
  defines "ra \<equiv> AnalyzeRoutes service role evd er"
  shows "(ra_Usage ra = RouteUsageNoneObserved \<longleftrightarrow> ra_Routes ra = []) \<and>
    (ra_State ra = RouteStateNoneObserved \<longleftrightarrow> RemainingRoutes ra = []) \<and>
    (ra_State ra = RouteStateBypassKnown \<longleftrightarrow> RouteEffectBypassKnown \<in> rt_Effect ` set (ra_Routes ra)) \<and>
    (ra_State ra = RouteStateEffectUnknown \<longleftrightarrow>
       RouteEffectEffectUnknown \<in> rt_Effect ` set (ra_Routes ra) \<and>
       RouteEffectBypassKnown \<notin> rt_Effect ` set (ra_Routes ra))"
proof -
  obtain rs where rs: "ra = finish service rs" "\<forall>r \<in> set rs. rt_Effect r \<in> routeEffects"
    using AnalyzeRoutes_finish unfolding ra_def by blast
  have "ra_State ra = RouteStateNoneObserved \<longleftrightarrow> RemainingRoutes ra = []"
    unfolding rs(1) by (rule finish_state) (use rs(2) in blast)
  then show ?thesis unfolding rs(1)
    by (simp add: finish_usage) (simp add: finish_def Let_def route_state_consts)
qed

text \<open>The analysis does not depend on the order in which the scan lists its observations.\<close>

theorem analyze_routes_order_independent:
  assumes "mset (ev_Observations ev) = mset obs"
  shows "AnalyzeRoutes service role (Some (ev\<lparr>ev_Observations := obs\<rparr>)) er =
    AnalyzeRoutes service role (Some ev) er"
proof -
  have f: "formRoutes service (ev\<lparr>ev_Observations := obs\<rparr>) er = formRoutes service ev er"
    by (simp add: fun_eq_iff formRoutes_def formRows_def)
  have "SortRoutes (A @ concat (map g obs)) = SortRoutes (A @ concat (map g (ev_Observations ev)))" for A g
    unfolding SortRoutes_def rk.sort_key_mset using concat_map_mset [OF assms, of g] by simp
  then show ?thesis
    unfolding AnalyzeRoutes_def option.case Let_def finish_def f by simp
qed

end
