(* ===== verification/Intent.thy ===== *)
theory Intent
  imports Routes Qualify
begin

section \<open>Intents and their validation (internal/igagov/intent.go)\<close>

text \<open>
  A reviewed intent names the roles it targets, the services it retains and those it removes.
  \<open>ValidateIntent\<close> collects every problem that needs no evidence; \<open>ForSubject\<close> is the
  intent as one role sees it. An error is kept with its field and its code; the English
  message is not modelled.
\<close>

subsection \<open>Vocabulary\<close>

definition IntentRightSizeServices :: string where [go_consts]: "IntentRightSizeServices = ''right_size_services''"
definition IntentRemoveControl :: string where [go_consts]: "IntentRemoveControl = ''remove_control''"
definition IntentDedicatedIdentity :: string where [go_consts]: "IntentDedicatedIdentity = ''dedicated_identity''"

definition RetainObserved :: string where [go_consts]: "RetainObserved = ''observed''"
definition RetainDependency :: string where [go_consts]: "RetainDependency = ''dependency''"
definition RetainOwner :: string where [go_consts]: "RetainOwner = ''owner''"
definition RetainUnreviewed :: string where [go_consts]: "RetainUnreviewed = ''unreviewed''"
definition RemoveNoAttempt :: string where [go_consts]: "RemoveNoAttempt = ''no_attempt''"

definition DeliveryDirect :: string where [go_consts]: "DeliveryDirect = ''direct''"
definition DeliveryIaCPR :: string where [go_consts]: "DeliveryIaCPR = ''iac_pr''"
definition DeliveryExport :: string where [go_consts]: "DeliveryExport = ''export''"

definition BindingECSTaskRole :: string where [go_consts]: "BindingECSTaskRole = ''ecs_task_role''"
definition BindingLambdaRole :: string where [go_consts]: "BindingLambdaRole = ''lambda_role''"
definition BindingEC2InstanceProfile :: string where
  [go_consts]: "BindingEC2InstanceProfile = ''ec2_instance_profile''"

definition MinObservationDays :: int where [go_consts]: "MinObservationDays = 1"
definition MaxObservationDays :: int where [go_consts]: "MaxObservationDays = 90"
definition MinCanaryHours :: int where [go_consts]: "MinCanaryHours = 1"
definition MaxCanaryHours :: int where [go_consts]: "MaxCanaryHours = 336"

record subject =
  su_IdentityAccountID :: string
  su_RoleID :: string
  su_AccountID :: string

record retainEntry =
  re_Service :: string
  re_Basis :: string
  re_LastAttempt :: string
  re_Catalog :: string
  re_Reason :: string
  re_ReviewBy :: string
  re_Subjects :: "string list"

record intentRoute =
  ir_Resource :: string
  ir_Principal :: string
  ir_Form :: string

record removeEntry =
  rm_Service :: string
  rm_Basis :: string
  rm_QualifiedDays :: int
  rm_GrantAgeBasis :: string
  rm_RouteUsage :: string
  rm_RouteState :: string
  rm_Routes :: "intentRoute list"

record rolloutIntent =
  ro_CanaryTarget :: string
  ro_CanaryHours :: int

record rightSizeIntent =
  rs_Kind :: string
  rs_Subjects :: "subject list"
  rs_Retain :: "retainEntry list"
  rs_Remove :: "removeEntry list"
  rs_ObservationDays :: int
  rs_Rollout :: "rolloutIntent option"
  rs_Delivery :: string
  rs_FindingIDs :: "string list"
  rs_EvidenceRev :: int

record removeControlIntent =
  rc_Kind :: string
  rc_ControlIDs :: "string list"
  rc_Reason :: string

record dedicatedWorkload =
  dw_WorkloadID :: string
  dw_BindingKind :: string
  dw_BindingRef :: string

record inlinePolicyRef =
  ip_Name :: string
  ip_DocumentHash :: string

record newRole =
  nr_Name :: string
  nr_Path :: string
  nr_TrustPolicyHash :: string
  nr_ManagedPolicyARNs :: "string list"
  nr_InlinePolicies :: "inlinePolicyRef list"
  nr_BoundaryARN :: string

record dedicatedIdentityIntent =
  di_Kind :: string
  di_Source :: subject
  di_Workload :: dedicatedWorkload
  di_NewRole :: newRole
  di_Delivery :: string

record intent =
  in_Kind :: string
  in_RightSize :: "rightSizeIntent option"
  in_RemoveControl :: "removeControlIntent option"
  in_DedicatedIdentity :: "dedicatedIdentityIntent option"

record intentError =
  ie_Field :: string
  ie_Code :: string

subsection \<open>The intent of one subject\<close>

definition AppliesTo :: "retainEntry \<Rightarrow> string \<Rightarrow> bool" where
  "AppliesTo e identityAccountID =
    (if re_Subjects e = [] then True else list_ex (\<lambda>s. s = identityAccountID) (re_Subjects e))"

definition ForSubject :: "rightSizeIntent \<Rightarrow> string \<Rightarrow> rightSizeIntent" where
  "ForSubject r identityAccountID =
    (let applying = filter (\<lambda>e. AppliesTo e identityAccountID) (rs_Retain r);
         kept = map re_Service (filter (\<lambda>e. re_Subjects e \<noteq> []) applying)
     in r\<lparr>rs_Retain := sort_key re_Service (map (\<lambda>e. e\<lparr>re_Subjects := []\<rparr>) applying),
          rs_Remove := filter (\<lambda>e. rm_Service e \<notin> set kept) (rs_Remove r)\<rparr>)"

subsection \<open>Patterns of identifiers\<close>

definition inRange :: "nat \<Rightarrow> nat \<Rightarrow> char \<Rightarrow> bool" where
  "inRange a b c \<longleftrightarrow> a \<le> of_char c \<and> of_char c \<le> b"

definition isLowerAlpha :: "char \<Rightarrow> bool" where "isLowerAlpha = inRange 97 122"
definition isUpperAlpha :: "char \<Rightarrow> bool" where "isUpperAlpha = inRange 65 90"
definition isLowerHex :: "char \<Rightarrow> bool" where "isLowerHex c \<longleftrightarrow> isDigit c \<or> inRange 97 102 c"
definition isHex :: "char \<Rightarrow> bool" where "isHex c \<longleftrightarrow> isLowerHex c \<or> inRange 65 70 c"
definition isServiceChar :: "char \<Rightarrow> bool" where
  "isServiceChar c \<longleftrightarrow> isLowerAlpha c \<or> isDigit c \<or> c = CHR ''-''"
definition isNameChar :: "char \<Rightarrow> bool" where
  "isNameChar c \<longleftrightarrow> isLowerAlpha c \<or> isUpperAlpha c \<or> isDigit c \<or> c \<in> set ''_+=,.@-''"

fun matchGroups :: "nat list \<Rightarrow> string \<Rightarrow> bool" where
  "matchGroups [] s = (s = [])"
| "matchGroups [n] s = (length s = n \<and> list_all isHex s)"
| "matchGroups (n # ns) s =
    (n < length s \<and> list_all isHex (take n s) \<and> s ! n = CHR ''-'' \<and> matchGroups ns (drop (n + 1) s))"

definition reUUID :: "string \<Rightarrow> bool" where "reUUID s = matchGroups [8, 4, 4, 4, 12] s"
definition reAccount :: "string \<Rightarrow> bool" where "reAccount s \<longleftrightarrow> length s = 12 \<and> list_all isDigit s"
definition reRoleID :: "string \<Rightarrow> bool" where
  "reRoleID s \<longleftrightarrow> hasPrefix s ''AROA'' \<and>
     (let t = drop 4 s in 8 \<le> length t \<and> length t \<le> 124 \<and> list_all (\<lambda>c. isUpperAlpha c \<or> isDigit c) t)"
definition reService :: "string \<Rightarrow> bool" where "reService s \<longleftrightarrow> s \<noteq> [] \<and> list_all isServiceChar s"
definition reHash :: "string \<Rightarrow> bool" where
  "reHash s \<longleftrightarrow> hasPrefix s ''sha256:'' \<and> (let t = drop 7 s in length t = 64 \<and> list_all isLowerHex t)"
definition reRoleName :: "string \<Rightarrow> bool" where
  "reRoleName s \<longleftrightarrow> 1 \<le> length s \<and> length s \<le> 64 \<and> list_all isNameChar s"
definition reRolePath :: "string \<Rightarrow> bool" where
  "reRolePath s \<longleftrightarrow> s = ''/'' \<or>
     (2 \<le> length s \<and> length s \<le> 512 \<and> hd s = CHR ''/'' \<and> last s = CHR ''/'' \<and>
      list_all (inRange 33 126) (butlast (tl s)))"
definition reARN :: "string \<Rightarrow> bool" where
  "reARN s \<longleftrightarrow> (case splitN s (CHR '':'') 6 of
      [a, p, svc, region, acct, res] \<Rightarrow>
        a = ''arn'' \<and> p \<noteq> [] \<and> list_all isServiceChar p \<and> list_all isServiceChar svc \<and>
        list_all isServiceChar region \<and> list_all isDigit acct \<and> res \<noteq> [] \<and> CHR 0x0A \<notin> set res
    | _ \<Rightarrow> False)"
definition reInlineNm :: "string \<Rightarrow> bool" where
  "reInlineNm s \<longleftrightarrow> 1 \<le> length s \<and> length s \<le> 128 \<and> list_all isNameChar s"

subsection \<open>Dates\<close>

text \<open>
  \<^verbatim>\<open>time.Parse\<close> with the layouts "2006-01-02" and RFC 3339: numbers of one or two
  digits, ranges of the fields, an optional fraction of a second, and the zone.
\<close>

definition num2 :: "string \<Rightarrow> (nat \<times> string) option" where
  "num2 s = (case s of
      a # b # rest \<Rightarrow> if isDigit a \<and> isDigit b then Some (digitsVal 0 [a, b], rest) else None
    | _ \<Rightarrow> None)"

definition num12 :: "string \<Rightarrow> (nat \<times> string) option" where
  "num12 s = (case s of
      [] \<Rightarrow> None
    | a # rest \<Rightarrow>
        if \<not> isDigit a then None
        else (case rest of
                b # rest' \<Rightarrow> if isDigit b then Some (digitsVal 0 [a, b], rest') else Some (digitsVal 0 [a], rest)
              | [] \<Rightarrow> Some (digitsVal 0 [a], rest)))"

definition skipByte :: "char \<Rightarrow> string \<Rightarrow> string option" where
  "skipByte c s = (case s of d # rest \<Rightarrow> if c = d then Some rest else None | [] \<Rightarrow> None)"

definition isLeap :: "nat \<Rightarrow> bool" where
  "isLeap y \<longleftrightarrow> y mod 4 = 0 \<and> (y mod 100 \<noteq> 0 \<or> y mod 400 = 0)"

definition daysIn :: "nat \<Rightarrow> nat \<Rightarrow> nat" where
  "daysIn m y = (if m = 2 then (if isLeap y then 29 else 28) else if m \<in> {4, 6, 9, 11} then 30 else 31)"

definition parseDatePart :: "string \<Rightarrow> string option" where
  "parseDatePart s =
    (if length s < 4 \<or> \<not> list_all isDigit (take 4 s) then None
     else let y = digitsVal 0 (take 4 s) in
       Option.bind (skipByte (CHR ''-'') (drop 4 s)) (\<lambda>s.
       Option.bind (num2 s) (\<lambda>(m, s).
       if m < 1 \<or> 12 < m then None else
       Option.bind (skipByte (CHR ''-'') s) (\<lambda>s.
       Option.bind (num2 s) (\<lambda>(d, s).
       if d < 1 \<or> daysIn m y < d then None else Some s)))))"

definition skipFraction :: "string \<Rightarrow> string" where
  "skipFraction s = (case s of
      c # d # rest \<Rightarrow> if (c = CHR ''.'' \<or> c = CHR '','') \<and> isDigit d then dropWhile isDigit rest else s
    | _ \<Rightarrow> s)"

definition parseZone :: "string \<Rightarrow> string option" where
  "parseZone s = (case s of
      c # rest \<Rightarrow>
        if c = CHR ''Z'' then Some rest
        else Option.bind (num2 rest) (\<lambda>(hh, s).
             Option.bind (skipByte (CHR '':'') s) (\<lambda>s.
             Option.bind (num2 s) (\<lambda>(mm, s).
             if hh \<le> 24 \<and> mm \<le> 60 \<and> (c = CHR ''+'' \<or> c = CHR ''-'') then Some s else None)))
    | [] \<Rightarrow> None)"

definition parseClockPart :: "string \<Rightarrow> string option" where
  "parseClockPart s =
    Option.bind (skipByte (CHR ''T'') s) (\<lambda>s.
    Option.bind (num12 s) (\<lambda>(h, s).
    if 24 \<le> h then None else
    Option.bind (skipByte (CHR '':'') s) (\<lambda>s.
    Option.bind (num2 s) (\<lambda>(m, s).
    if 60 \<le> m then None else
    Option.bind (skipByte (CHR '':'') s) (\<lambda>s.
    Option.bind (num2 s) (\<lambda>(sec, s).
    if 60 \<le> sec then None else parseZone (skipFraction s)))))))"

definition validDate :: "string \<Rightarrow> bool" where
  "validDate s \<longleftrightarrow> parseDatePart s = Some [] \<or> Option.bind (parseDatePart s) parseClockPart = Some []"

subsection \<open>Validation\<close>

definition err :: "bool \<Rightarrow> string \<Rightarrow> string \<Rightarrow> intentError list" where
  "err b field code = (if b then [\<lparr>ie_Field = field, ie_Code = code\<rparr>] else [])"

definition indexed :: "string \<Rightarrow> nat \<Rightarrow> string" where
  "indexed f i = f @ ''['' @ itoa (int i) @ '']''"

definition collectorResult :: "intentError list \<Rightarrow> intentError list" where
  "collectorResult errs = sort_key ie_Field errs"

definition validateSubject :: "string \<Rightarrow> subject \<Rightarrow> intentError list" where
  "validateSubject field s =
    err (\<not> reUUID (su_IdentityAccountID s)) (field @ ''.identity_account_id'') ''invalid'' @
    err (\<not> reRoleID (su_RoleID s)) (field @ ''.role_id'') ''invalid'' @
    err (\<not> reAccount (su_AccountID s)) (field @ ''.account_id'') ''invalid''"

fun validateSubjects :: "nat \<Rightarrow> string list \<Rightarrow> subject list \<Rightarrow> intentError list" where
  "validateSubjects i roles [] = []"
| "validateSubjects i roles (s # ss) =
    validateSubject (indexed ''subjects'' i) s @
    err (su_RoleID s \<in> set roles) (indexed ''subjects'' i @ ''.role_id'') ''duplicate'' @
    validateSubjects (i + 1) (su_RoleID s # roles) ss"

text \<open>The inner loop over the subjects of a scoped retain; \<open>seen\<close> holds (service, subject) pairs.\<close>

fun validateScoped ::
  "string \<Rightarrow> string list \<Rightarrow> string \<Rightarrow> nat \<Rightarrow> (string \<times> string) list \<Rightarrow> string list \<Rightarrow> intentError list" where
  "validateScoped f ids svc j seen [] = []"
| "validateScoped f ids svc j seen (s # ss) =
    err (s \<notin> set ids) (indexed (f @ ''.subjects'') j) ''invalid'' @
    err ((svc, s) \<in> set seen) (indexed (f @ ''.subjects'') j) ''duplicate'' @
    validateScoped f ids svc (j + 1) ((svc, s) # seen) ss"

definition validateBasis :: "string \<Rightarrow> retainEntry \<Rightarrow> intentError list" where
  "validateBasis f e =
    (if re_Basis e = RetainObserved then
       err (re_LastAttempt e = [] \<or> \<not> validDate (re_LastAttempt e)) (f @ ''.last_attempt'') ''required''
     else if re_Basis e = RetainDependency then
       err (case ParseDependencyRef (re_Catalog e) of Inl x \<Rightarrow> True | Inr y \<Rightarrow> False) (f @ ''.catalog'') ''invalid''
     else if re_Basis e = RetainOwner then
       err (trimSpace (re_Reason e) = []) (f @ ''.reason'') ''required'' @
       err (re_ReviewBy e = [] \<or> \<not> validDate (re_ReviewBy e)) (f @ ''.review_by'') ''required''
     else if re_Basis e = RetainUnreviewed then []
     else err True (f @ ''.basis'') ''invalid'')"

fun validateRetains ::
  "string list \<Rightarrow> nat \<Rightarrow> string list \<Rightarrow> (string \<times> string) list \<Rightarrow> retainEntry list \<Rightarrow> intentError list" where
  "validateRetains ids i retained scoped [] = []"
| "validateRetains ids i retained scoped (e # es) =
    (let f = indexed ''retain'' i in
     err (\<not> reService (re_Service e)) (f @ ''.service'') ''invalid'' @
     (if re_Subjects e \<noteq> [] then
        err (re_Basis e \<noteq> RetainOwner) (f @ ''.subjects'') ''invalid'' @
        validateScoped f ids (re_Service e) 0 scoped (re_Subjects e)
      else err (re_Service e \<in> set retained) (f @ ''.service'') ''duplicate'') @
     validateBasis f e @
     (if re_Subjects e \<noteq> [] then
        validateRetains ids (i + 1) retained (map (\<lambda>s. (re_Service e, s)) (re_Subjects e) @ scoped) es
      else validateRetains ids (i + 1) (re_Service e # retained) scoped es))"

definition unscopedServices :: "rightSizeIntent \<Rightarrow> string list" where
  "unscopedServices r = map re_Service (filter (\<lambda>e. re_Subjects e = []) (rs_Retain r))"

definition scopedServices :: "rightSizeIntent \<Rightarrow> string list" where
  "scopedServices r = remdups (map re_Service (filter (\<lambda>e. re_Subjects e \<noteq> []) (rs_Retain r)))"

definition validateRoute :: "string \<Rightarrow> intentRoute \<Rightarrow> intentError list" where
  "validateRoute rf rt =
    err (ir_Resource rt = [] \<and> ir_Form rt = []) rf ''required'' @
    err (ir_Resource rt \<noteq> [] \<and> \<not> hasPrefix (ir_Resource rt) ''arn:'') (rf @ ''.resource'') ''invalid'' @
    err (ir_Principal rt \<notin> {[], PrincipalRoleARN, PrincipalRoleSession, PrincipalWildcard})
      (rf @ ''.principal'') ''invalid''"

fun validateRoutes :: "string \<Rightarrow> nat \<Rightarrow> intentRoute list \<Rightarrow> intentError list" where
  "validateRoutes f j [] = []"
| "validateRoutes f j (rt # rts) = validateRoute (indexed (f @ ''.routes'') j) rt @ validateRoutes f (j + 1) rts"

definition validateRemoveRoutes :: "string \<Rightarrow> removeEntry \<Rightarrow> intentError list" where
  "validateRemoveRoutes f e =
    err (rm_RouteUsage e \<notin> {[], RouteUsageNoneObserved, RouteUsageConfirmRequired}) (f @ ''.route_usage'') ''invalid'' @
    err (rm_RouteState e \<notin> {[], RouteStateNoneObserved, RouteStateBypassKnown, RouteStateEffectUnknown,
      RouteStateNotAnalysed}) (f @ ''.route_state'') ''invalid'' @
    err (rm_RouteUsage e = RouteUsageNoneObserved \<and> rm_RouteState e \<noteq> [] \<and>
      rm_RouteState e \<noteq> RouteStateNoneObserved) (f @ ''.route_state'') ''conflict'' @
    err (rm_RouteUsage e = RouteUsageNoneObserved \<and> rm_Routes e \<noteq> []) (f @ ''.routes'') ''conflict'' @
    err (rm_RouteState e \<noteq> [] \<and> rm_RouteState e \<noteq> RouteStateNoneObserved \<and> rm_Routes e = [])
      (f @ ''.routes'') ''required'' @
    validateRoutes f 0 (rm_Routes e)"

fun validateRemoves :: "string list \<Rightarrow> nat \<Rightarrow> string list \<Rightarrow> removeEntry list \<Rightarrow> intentError list" where
  "validateRemoves retained i removed [] = []"
| "validateRemoves retained i removed (e # es) =
    (let f = indexed ''remove'' i in
     err (\<not> reService (rm_Service e)) (f @ ''.service'') ''invalid'' @
     err (rm_Service e \<in> set removed) (f @ ''.service'') ''duplicate'' @
     err (rm_Service e \<in> set retained) (f @ ''.service'') ''conflict'' @
     err (rm_Basis e \<noteq> RemoveNoAttempt) (f @ ''.basis'') ''invalid'' @
     err (rm_QualifiedDays e < MinQualifiedDays) (f @ ''.qualified_days'') ''not_qualified'' @
     err (rm_GrantAgeBasis e \<noteq> GrantAgeObservedSinceChange \<and> rm_GrantAgeBasis e \<noteq> GrantAgePredatesObservation)
       (f @ ''.grant_age_basis'') ''invalid'' @
     validateRemoveRoutes f e @
     validateRemoves retained (i + 1) (rm_Service e # removed) es)"

fun validateNothingToRemove :: "rightSizeIntent \<Rightarrow> nat \<Rightarrow> subject list \<Rightarrow> intentError list" where
  "validateNothingToRemove r i [] = []"
| "validateNothingToRemove r i (s # ss) =
    err (rs_Remove r \<noteq> [] \<and> rs_Remove (ForSubject r (su_IdentityAccountID s)) = [])
      (indexed ''subjects'' i) ''nothing_to_remove'' @
    validateNothingToRemove r (i + 1) ss"

text \<open>Identifiers listed once: the loops over finding and control ids.\<close>

fun validateIDs :: "string \<Rightarrow> nat \<Rightarrow> string list \<Rightarrow> string list \<Rightarrow> intentError list" where
  "validateIDs f i seen [] = []"
| "validateIDs f i seen (x # xs) =
    err (\<not> reUUID x) (indexed f i) ''invalid'' @
    err (x \<in> set seen) (indexed f i) ''duplicate'' @
    validateIDs f (i + 1) (x # seen) xs"

definition validateRollout :: "string list \<Rightarrow> rolloutIntent option \<Rightarrow> intentError list" where
  "validateRollout roles rollout =
    (case rollout of
       None \<Rightarrow> []
     | Some ro \<Rightarrow>
         err (ro_CanaryTarget ro \<noteq> [] \<and> ro_CanaryTarget ro \<notin> set roles) ''rollout.canary_target'' ''invalid'' @
         err (ro_CanaryHours ro \<noteq> 0 \<and> (ro_CanaryHours ro < MinCanaryHours \<or> ro_CanaryHours ro > MaxCanaryHours))
           ''rollout.canary_hours'' ''out_of_range'')"

text \<open>
  The loop over the map \<^verbatim>\<open>scoped\<close> has no order in Go; it is written in the order of the
  first scoped entries. It only orders errors of one field among themselves.
\<close>

definition validateRightSize :: "rightSizeIntent \<Rightarrow> intentError list" where
  "validateRightSize r =
    err (rs_Kind r \<noteq> IntentRightSizeServices) ''kind'' ''invalid'' @
    err (rs_Subjects r = []) ''subjects'' ''required'' @
    validateSubjects 0 [] (rs_Subjects r) @
    validateRetains (map su_IdentityAccountID (rs_Subjects r)) 0 [] [] (rs_Retain r) @
    concat (map (\<lambda>svc. err (svc \<in> set (unscopedServices r)) ''retain'' ''duplicate'') (scopedServices r)) @
    err (rs_Remove r = []) ''remove'' ''required'' @
    validateNothingToRemove r 0 (rs_Subjects r) @
    validateRemoves (unscopedServices r) 0 [] (rs_Remove r) @
    err (rs_ObservationDays r < MinObservationDays \<or> rs_ObservationDays r > MaxObservationDays)
      ''observation_days'' ''out_of_range'' @
    validateRollout (map su_RoleID (rs_Subjects r)) (rs_Rollout r) @
    err (rs_Delivery r \<notin> {DeliveryDirect, DeliveryIaCPR, DeliveryExport}) ''delivery'' ''invalid'' @
    validateIDs ''finding_ids'' 0 [] (rs_FindingIDs r) @
    err (rs_EvidenceRev r \<le> 0) ''evidence_rev'' ''required''"

definition validateRemoveControl :: "removeControlIntent \<Rightarrow> intentError list" where
  "validateRemoveControl r =
    err (rc_Kind r \<noteq> IntentRemoveControl) ''kind'' ''invalid'' @
    err (rc_ControlIDs r = []) ''control_ids'' ''required'' @
    validateIDs ''control_ids'' 0 [] (rc_ControlIDs r) @
    err (trimSpace (rc_Reason r) = []) ''reason'' ''required''"

fun validateARNs :: "nat \<Rightarrow> string list \<Rightarrow> string list \<Rightarrow> intentError list" where
  "validateARNs i seen [] = []"
| "validateARNs i seen (a # as) =
    err (\<not> reARN a) (indexed ''new_role.managed_policy_arns'' i) ''invalid'' @
    err (a \<in> set seen) (indexed ''new_role.managed_policy_arns'' i) ''duplicate'' @
    validateARNs (i + 1) (a # seen) as"

fun validateInline :: "nat \<Rightarrow> string list \<Rightarrow> inlinePolicyRef list \<Rightarrow> intentError list" where
  "validateInline i names [] = []"
| "validateInline i names (p # ps) =
    (let f = indexed ''new_role.inline_policies'' i in
     err (\<not> reInlineNm (ip_Name p)) (f @ ''.name'') ''invalid'' @
     err (ip_Name p \<in> set names) (f @ ''.name'') ''duplicate'' @
     err (\<not> reHash (ip_DocumentHash p)) (f @ ''.document_hash'') ''invalid'' @
     validateInline (i + 1) (ip_Name p # names) ps)"

definition validateDedicated :: "dedicatedIdentityIntent \<Rightarrow> intentError list" where
  "validateDedicated d =
    (let w = di_Workload d; nr = di_NewRole d in
     err (di_Kind d \<noteq> IntentDedicatedIdentity) ''kind'' ''invalid'' @
     validateSubject ''source'' (di_Source d) @
     err (\<not> reUUID (dw_WorkloadID w)) ''workload.workload_id'' ''invalid'' @
     err (dw_BindingKind w \<notin> {BindingECSTaskRole, BindingLambdaRole, BindingEC2InstanceProfile})
       ''workload.binding_kind'' ''invalid'' @
     err (\<not> reARN (dw_BindingRef w)) ''workload.binding_ref'' ''invalid'' @
     err (\<not> reRoleName (nr_Name nr)) ''new_role.name'' ''invalid'' @
     err (\<not> reRolePath (nr_Path nr)) ''new_role.path'' ''invalid'' @
     err (\<not> reHash (nr_TrustPolicyHash nr)) ''new_role.trust_policy_hash'' ''invalid'' @
     validateARNs 0 [] (nr_ManagedPolicyARNs nr) @
     validateInline 0 [] (nr_InlinePolicies nr) @
     err (nr_BoundaryARN nr \<noteq> [] \<and> \<not> reARN (nr_BoundaryARN nr)) ''new_role.boundary_arn'' ''invalid'' @
     err (di_Delivery d \<noteq> DeliveryIaCPR \<and> di_Delivery d \<noteq> DeliveryExport) ''delivery'' ''invalid'')"

definition ValidateIntent :: "intent \<Rightarrow> intentError list" where
  "ValidateIntent i = collectorResult
    (if in_Kind i = IntentRightSizeServices then
       (case in_RightSize i of None \<Rightarrow> err True ''kind'' ''shape'' | Some r \<Rightarrow> validateRightSize r)
     else if in_Kind i = IntentRemoveControl then
       (case in_RemoveControl i of None \<Rightarrow> err True ''kind'' ''shape'' | Some r \<Rightarrow> validateRemoveControl r)
     else if in_Kind i = IntentDedicatedIdentity then
       (case in_DedicatedIdentity i of None \<Rightarrow> err True ''kind'' ''shape'' | Some d \<Rightarrow> validateDedicated d)
     else err True ''kind'' ''unknown_kind'')"


subsection \<open>The declarative rules\<close>

definition validSubject :: "subject \<Rightarrow> bool" where
  "validSubject s \<longleftrightarrow> reUUID (su_IdentityAccountID s) \<and> reRoleID (su_RoleID s) \<and> reAccount (su_AccountID s)"

definition validBasis :: "retainEntry \<Rightarrow> bool" where
  "validBasis e \<longleftrightarrow>
     (re_Basis e = RetainObserved \<and> validDate (re_LastAttempt e)) \<or>
     (re_Basis e = RetainDependency \<and> (\<exists>ctx v. ParseDependencyRef (re_Catalog e) = Inr (ctx, v))) \<or>
     (re_Basis e = RetainOwner \<and> trimSpace (re_Reason e) \<noteq> [] \<and> validDate (re_ReviewBy e)) \<or>
     re_Basis e = RetainUnreviewed"

definition validRetain :: "string list \<Rightarrow> retainEntry \<Rightarrow> bool" where
  "validRetain ids e \<longleftrightarrow>
     reService (re_Service e) \<and> validBasis e \<and>
     (re_Subjects e \<noteq> [] \<longrightarrow> re_Basis e = RetainOwner) \<and> set (re_Subjects e) \<subseteq> set ids"

definition validRoute :: "intentRoute \<Rightarrow> bool" where
  "validRoute rt \<longleftrightarrow>
     (ir_Resource rt \<noteq> [] \<or> ir_Form rt \<noteq> []) \<and>
     (ir_Resource rt \<noteq> [] \<longrightarrow> hasPrefix (ir_Resource rt) ''arn:'') \<and>
     ir_Principal rt \<in> {[], PrincipalRoleARN, PrincipalRoleSession, PrincipalWildcard}"

definition validRemove :: "removeEntry \<Rightarrow> bool" where
  "validRemove e \<longleftrightarrow>
     reService (rm_Service e) \<and> rm_Basis e = RemoveNoAttempt \<and> MinQualifiedDays \<le> rm_QualifiedDays e \<and>
     rm_GrantAgeBasis e \<in> {GrantAgeObservedSinceChange, GrantAgePredatesObservation} \<and>
     rm_RouteUsage e \<in> {[], RouteUsageNoneObserved, RouteUsageConfirmRequired} \<and>
     rm_RouteState e \<in> {[], RouteStateNoneObserved, RouteStateBypassKnown, RouteStateEffectUnknown,
       RouteStateNotAnalysed} \<and>
     (rm_RouteUsage e = RouteUsageNoneObserved \<longrightarrow>
        rm_RouteState e \<in> {[], RouteStateNoneObserved} \<and> rm_Routes e = []) \<and>
     (rm_RouteState e \<notin> {[], RouteStateNoneObserved} \<longrightarrow> rm_Routes e \<noteq> []) \<and>
     (\<forall>rt \<in> set (rm_Routes e). validRoute rt)"

definition unscoped :: "retainEntry list \<Rightarrow> string list" where
  "unscoped es = map re_Service (filter (\<lambda>e. re_Subjects e = []) es)"

definition scopedPairs :: "retainEntry list \<Rightarrow> (string \<times> string) list" where
  "scopedPairs es = concat (map (\<lambda>e. map (Pair (re_Service e)) (re_Subjects e)) es)"

definition validRollout :: "string list \<Rightarrow> rolloutIntent option \<Rightarrow> bool" where
  "validRollout roles rollout \<longleftrightarrow>
     (case rollout of
        None \<Rightarrow> True
      | Some ro \<Rightarrow> ro_CanaryTarget ro \<in> insert [] (set roles) \<and>
          (ro_CanaryHours ro = 0 \<or> (MinCanaryHours \<le> ro_CanaryHours ro \<and> ro_CanaryHours ro \<le> MaxCanaryHours)))"

definition validRightSize :: "rightSizeIntent \<Rightarrow> bool" where
  "validRightSize r \<longleftrightarrow>
     rs_Kind r = IntentRightSizeServices \<and>
     rs_Subjects r \<noteq> [] \<and> (\<forall>s \<in> set (rs_Subjects r). validSubject s) \<and> distinct (map su_RoleID (rs_Subjects r)) \<and>
     (\<forall>e \<in> set (rs_Retain r). validRetain (map su_IdentityAccountID (rs_Subjects r)) e) \<and>
     distinct (unscoped (rs_Retain r)) \<and> distinct (scopedPairs (rs_Retain r)) \<and>
     fst ` set (scopedPairs (rs_Retain r)) \<inter> set (unscoped (rs_Retain r)) = {} \<and>
     rs_Remove r \<noteq> [] \<and> (\<forall>e \<in> set (rs_Remove r). validRemove e) \<and> distinct (map rm_Service (rs_Remove r)) \<and>
     set (map rm_Service (rs_Remove r)) \<inter> set (unscoped (rs_Retain r)) = {} \<and>
     (\<forall>s \<in> set (rs_Subjects r). rs_Remove (ForSubject r (su_IdentityAccountID s)) \<noteq> []) \<and>
     MinObservationDays \<le> rs_ObservationDays r \<and> rs_ObservationDays r \<le> MaxObservationDays \<and>
     validRollout (map su_RoleID (rs_Subjects r)) (rs_Rollout r) \<and>
     rs_Delivery r \<in> {DeliveryDirect, DeliveryIaCPR, DeliveryExport} \<and>
     (\<forall>x \<in> set (rs_FindingIDs r). reUUID x) \<and> distinct (rs_FindingIDs r) \<and>
     0 < rs_EvidenceRev r"

subsection \<open>Lemmas\<close>

lemma err_Nil [simp]: "err b f c = [] \<longleftrightarrow> \<not> b"
  by (simp add: err_def)

lemma validateSubject_Nil [simp]: "validateSubject f s = [] \<longleftrightarrow> validSubject s"
  by (simp add: validateSubject_def validSubject_def)

lemma validateSubjects_Nil:
  "validateSubjects i roles ss = [] \<longleftrightarrow>
     (\<forall>s \<in> set ss. validSubject s) \<and> distinct (map su_RoleID ss) \<and> su_RoleID ` set ss \<inter> set roles = {}"
  by (induction ss arbitrary: i roles) auto

lemma validateScoped_Nil:
  "validateScoped f ids svc j seen ss = [] \<longleftrightarrow>
     set ss \<subseteq> set ids \<and> distinct ss \<and> Pair svc ` set ss \<inter> set seen = {}"
  by (induction ss arbitrary: j seen) auto

lemma validDate_nonempty: "validDate s \<Longrightarrow> s \<noteq> []"
  by (auto simp: validDate_def parseDatePart_def)

lemma bases_distinct [simp]:
  "RetainObserved \<noteq> RetainDependency" "RetainObserved \<noteq> RetainOwner" "RetainObserved \<noteq> RetainUnreviewed"
  "RetainDependency \<noteq> RetainOwner" "RetainDependency \<noteq> RetainUnreviewed" "RetainOwner \<noteq> RetainUnreviewed"
  "RetainDependency \<noteq> RetainObserved" "RetainOwner \<noteq> RetainObserved" "RetainUnreviewed \<noteq> RetainObserved"
  "RetainOwner \<noteq> RetainDependency" "RetainUnreviewed \<noteq> RetainDependency" "RetainUnreviewed \<noteq> RetainOwner"
  by (simp_all add: RetainObserved_def RetainDependency_def RetainOwner_def RetainUnreviewed_def)

lemma validateBasis_Nil [simp]: "validateBasis f e = [] \<longleftrightarrow> validBasis e"
proof -
  have d: "\<not> (s = [] \<or> \<not> validDate s) \<longleftrightarrow> validDate s" for s using validDate_nonempty by blast
  have p: "\<not> (case ParseDependencyRef c of Inl x \<Rightarrow> True | Inr y \<Rightarrow> False) \<longleftrightarrow>
    (\<exists>ctx v. ParseDependencyRef c = Inr (ctx, v))" for c
    by (cases "ParseDependencyRef c") auto
  show ?thesis
    by (cases "re_Basis e = RetainObserved"; cases "re_Basis e = RetainDependency";
        cases "re_Basis e = RetainOwner"; cases "re_Basis e = RetainUnreviewed")
       (simp_all add: validateBasis_def validBasis_def d [simplified] p)
qed

lemma distinct_map_Pair [simp]: "distinct (map (Pair a) xs) = distinct xs"
  by (simp add: distinct_map inj_on_def)

lemma validateRetains_Nil:
  "validateRetains ids i retained scoped es = [] \<longleftrightarrow>
     (\<forall>e \<in> set es. validRetain ids e) \<and>
     distinct (unscoped es) \<and> set (unscoped es) \<inter> set retained = {} \<and>
     distinct (scopedPairs es) \<and> set (scopedPairs es) \<inter> set scoped = {}"
proof (induction es arbitrary: i retained scoped)
  case Nil
  show ?case by (simp add: unscoped_def scopedPairs_def)
next
  case (Cons e es)
  show ?case
  proof (cases "re_Subjects e = []")
    case True
    have c: "unscoped (e # es) = re_Service e # unscoped es" "scopedPairs (e # es) = scopedPairs es"
      using True by (simp_all add: unscoped_def scopedPairs_def)
    have "validateRetains ids i retained scoped (e # es) = [] \<longleftrightarrow>
      validRetain ids e \<and> re_Service e \<notin> set retained \<and>
      validateRetains ids (i + 1) (re_Service e # retained) scoped es = []"
      using True by (simp add: Let_def validRetain_def) blast
    then show ?thesis unfolding c Cons.IH by auto
  next
    case False
    have c: "unscoped (e # es) = unscoped es"
      "scopedPairs (e # es) = map (Pair (re_Service e)) (re_Subjects e) @ scopedPairs es"
      using False by (simp_all add: unscoped_def scopedPairs_def)
    let ?new = "map (Pair (re_Service e)) (re_Subjects e)"
    have "validateRetains ids i retained scoped (e # es) = [] \<longleftrightarrow>
      validRetain ids e \<and> distinct (re_Subjects e) \<and> set ?new \<inter> set scoped = {} \<and>
      validateRetains ids (i + 1) retained (?new @ scoped) es = []"
      using False by (simp add: Let_def validRetain_def validateScoped_Nil) blast
    moreover have "set ?new \<inter> set scoped = {} \<and> set (scopedPairs es) \<inter> set (?new @ scoped) = {} \<longleftrightarrow>
      set (?new @ scopedPairs es) \<inter> set scoped = {} \<and> set ?new \<inter> set (scopedPairs es) = {}"
      unfolding set_append by blast
    moreover have "(\<forall>x \<in> set (e # es). validRetain ids x) \<longleftrightarrow> validRetain ids e \<and> (\<forall>x \<in> set es. validRetain ids x)"
      by simp
    ultimately show ?thesis unfolding c Cons.IH distinct_append distinct_map_Pair by argo
  qed
qed

lemma validateRoutes_Nil: "validateRoutes f j rts = [] \<longleftrightarrow> (\<forall>rt \<in> set rts. validRoute rt)"
  by (induction rts arbitrary: j) (auto simp: validateRoute_def validRoute_def)

lemma validateIDs_Nil:
  "validateIDs f i seen xs = [] \<longleftrightarrow> (\<forall>x \<in> set xs. reUUID x) \<and> distinct xs \<and> set xs \<inter> set seen = {}"
  by (induction xs arbitrary: i seen) auto

lemma validateNothingToRemove_Nil:
  "rs_Remove r \<noteq> [] \<Longrightarrow> validateNothingToRemove r i ss = [] \<longleftrightarrow>
     (\<forall>s \<in> set ss. rs_Remove (ForSubject r (su_IdentityAccountID s)) \<noteq> [])"
  by (induction ss arbitrary: i) auto

lemma validRemove_errs:
  "\<not> \<not> reService (rm_Service e) \<and> \<not> rm_Basis e \<noteq> RemoveNoAttempt \<and> \<not> rm_QualifiedDays e < MinQualifiedDays \<and>
   \<not> (rm_GrantAgeBasis e \<noteq> GrantAgeObservedSinceChange \<and> rm_GrantAgeBasis e \<noteq> GrantAgePredatesObservation) \<and>
   validateRemoveRoutes f e = [] \<longleftrightarrow> validRemove e"
  by (simp add: validRemove_def validateRemoveRoutes_def validateRoutes_Nil not_less
    cong: conj_cong) (cases "rm_RouteUsage e = RouteUsageNoneObserved"; auto)

lemma validateRemoves_Nil:
  "validateRemoves retained i removed es = [] \<longleftrightarrow>
     (\<forall>e \<in> set es. validRemove e) \<and> distinct (map rm_Service es) \<and>
     rm_Service ` set es \<inter> set removed = {} \<and> rm_Service ` set es \<inter> set retained = {}"
proof (induction es arbitrary: i removed)
  case Nil
  show ?case by simp
next
  case (Cons e es)
  have "validateRemoves retained i removed (e # es) = [] \<longleftrightarrow>
    validRemove e \<and> rm_Service e \<notin> set removed \<and> rm_Service e \<notin> set retained \<and>
    validateRemoves retained (i + 1) (rm_Service e # removed) es = []"
    by (simp add: Let_def validRemove_errs [symmetric, of e "indexed ''remove'' i"]) blast
  then show ?case unfolding Cons.IH by auto
qed

lemma validateRollout_Nil: "validateRollout roles ro = [] \<longleftrightarrow> validRollout roles ro"
  by (cases ro) (auto simp: validateRollout_def validRollout_def)

lemma unscopedServices_eq: "unscopedServices r = unscoped (rs_Retain r)"
  by (simp add: unscopedServices_def unscoped_def)

lemma set_scopedServices: "set (scopedServices r) = fst ` set (scopedPairs (rs_Retain r))"
proof -
  have "fst ` set (scopedPairs es) = re_Service ` {e \<in> set es. re_Subjects e \<noteq> []}" for es
  proof (induction es)
    case (Cons e es)
    have "fst ` set (scopedPairs (e # es)) =
      (if re_Subjects e = [] then {} else {re_Service e}) \<union> fst ` set (scopedPairs es)"
      by (auto simp: scopedPairs_def image_iff neq_Nil_conv)
    then show ?case unfolding Cons.IH by auto
  qed (simp add: scopedPairs_def)
  then show ?thesis by (simp add: scopedServices_def)
qed

lemma scoped_errors_Nil:
  "concat (map (\<lambda>svc. err (svc \<in> set (unscoped (rs_Retain r))) ''retain'' ''duplicate'') (scopedServices r)) = [] \<longleftrightarrow>
   fst ` set (scopedPairs (rs_Retain r)) \<inter> set (unscoped (rs_Retain r)) = {}"
  unfolding set_scopedServices [symmetric] by auto

lemma validateRightSize_Nil: "validateRightSize r = [] \<longleftrightarrow> validRightSize r"
proof (cases "rs_Remove r = []")
  case True
  then show ?thesis by (simp add: validateRightSize_def validRightSize_def)
next
  case False
  have i: "A \<inter> set [] = {}" for A :: "'a set" by simp
  have range: "\<not> (a < b \<or> c < a) \<longleftrightarrow> b \<le> a \<and> a \<le> c" for a b c :: int by linarith
  have pos: "\<not> a \<le> 0 \<longleftrightarrow> 0 < a" for a :: int by linarith
  show ?thesis
    unfolding validateRightSize_def validRightSize_def append_is_Nil_conv err_Nil validateSubjects_Nil
      validateRetains_Nil scoped_errors_Nil validateNothingToRemove_Nil [OF False] validateRemoves_Nil
      validateRollout_Nil validateIDs_Nil unscopedServices_eq i range pos not_not set_map
    by argo
qed

lemma collectorResult_Nil [simp]: "collectorResult errs = [] \<longleftrightarrow> errs = []"
  by (metis collectorResult_def length_0_conv length_sort)

lemma AppliesTo_iff: "AppliesTo e s \<longleftrightarrow> re_Subjects e = [] \<or> s \<in> set (re_Subjects e)"
  by (simp add: AppliesTo_def list_ex_iff)

lemma ForSubject_Remove:
  "rs_Remove (ForSubject r s) =
     filter (\<lambda>x. \<not> (\<exists>e \<in> set (rs_Retain r). re_Service e = rm_Service x \<and> s \<in> set (re_Subjects e))) (rs_Remove r)"
proof -
  have "svc \<in> set (map re_Service (filter (\<lambda>e. re_Subjects e \<noteq> []) (filter (\<lambda>e. AppliesTo e s) (rs_Retain r)))) \<longleftrightarrow>
    (\<exists>e \<in> set (rs_Retain r). re_Service e = svc \<and> s \<in> set (re_Subjects e))" for svc
    by (force simp: AppliesTo_iff)
  then show ?thesis by (simp add: ForSubject_def Let_def del: set_map set_filter)
qed

lemma ForSubject_Retain:
  "rs_Retain (ForSubject r s) =
     sort_key re_Service (map (\<lambda>e. e\<lparr>re_Subjects := []\<rparr>) (filter (\<lambda>e. AppliesTo e s) (rs_Retain r)))"
  by (simp add: ForSubject_def Let_def)

lemma ForSubject_retained:
  "re_Service ` set (rs_Retain (ForSubject r s)) = re_Service ` {e \<in> set (rs_Retain r). AppliesTo e s}"
  by (auto simp: ForSubject_Retain image_iff)

lemma scopedPairs_mem:
  "(svc, s) \<in> set (scopedPairs es) \<longleftrightarrow> (\<exists>e \<in> set es. re_Service e = svc \<and> s \<in> set (re_Subjects e))"
  by (auto simp: scopedPairs_def)

lemma unscoped_mem: "svc \<in> set (unscoped es) \<longleftrightarrow> (\<exists>e \<in> set es. re_Service e = svc \<and> re_Subjects e = [])"
  by (auto simp: unscoped_def)

lemma applying_distinct:
  assumes "distinct (unscoped es)" "distinct (scopedPairs es)"
    and "fst ` set (scopedPairs es) \<inter> set (unscoped es) = {}"
  shows "distinct (map re_Service (filter (\<lambda>e. AppliesTo e s) es))"
  using assms
proof (induction es)
  case Nil
  show ?case by simp
next
  case (Cons e es)
  have "set (scopedPairs es) \<subseteq> set (scopedPairs (e # es))" "set (unscoped es) \<subseteq> set (unscoped (e # es))"
    by (auto simp: scopedPairs_def unscoped_def)
  then have sub: "fst ` set (scopedPairs es) \<inter> set (unscoped es) = {}" using Cons.prems(3) by blast
  have "distinct (unscoped es)" "distinct (scopedPairs es)"
    using Cons.prems(1,2) by (simp_all add: unscoped_def scopedPairs_def split: if_splits)
  note sub = this sub
  have "re_Service e \<noteq> re_Service e'" if "AppliesTo e s" "e' \<in> set es" "AppliesTo e' s" for e'
  proof
    assume same: "re_Service e = re_Service e'"
    have mem: "e' \<in> set (e # es)" "e \<in> set (e # es)" using that(2) by simp_all
    show False
    proof (cases "re_Subjects e = []")
      case True
      show False
      proof (cases "re_Subjects e' = []")
        case e': True
        have "re_Service e' \<in> set (unscoped es)" using that(2) e' unscoped_mem by blast
        then show False using Cons.prems(1) True same by (simp add: unscoped_def)
      next
        case False
        then have "s \<in> set (re_Subjects e')" using that(3) AppliesTo_iff by blast
        then have "(re_Service e', s) \<in> set (scopedPairs (e # es))" using mem(1) scopedPairs_mem by blast
        moreover have "re_Service e \<in> set (unscoped (e # es))" using True mem(2) unscoped_mem by blast
        ultimately show False using Cons.prems(3) same by force
      qed
    next
      case False
      then have s: "s \<in> set (re_Subjects e)" using that(1) AppliesTo_iff by blast
      show False
      proof (cases "re_Subjects e' = []")
        case True
        have "(re_Service e, s) \<in> set (scopedPairs (e # es))" using s mem(2) scopedPairs_mem by blast
        moreover have "re_Service e' \<in> set (unscoped (e # es))" using True mem(1) unscoped_mem by blast
        ultimately show False using Cons.prems(3) same by force
      next
        case False
        then have "s \<in> set (re_Subjects e')" using that(3) AppliesTo_iff by blast
        then have "(re_Service e, s) \<in> set (scopedPairs es)" using that(2) same scopedPairs_mem by metis
        moreover have "distinct (map (Pair (re_Service e)) (re_Subjects e) @ scopedPairs es)"
          using Cons.prems(2) by (simp add: scopedPairs_def)
        ultimately show False using s by auto
      qed
    qed
  qed
  then show ?case using Cons.IH [OF sub] by auto
qed

definition validRemoveControl :: "removeControlIntent \<Rightarrow> bool" where
  "validRemoveControl r \<longleftrightarrow>
     rc_Kind r = IntentRemoveControl \<and> rc_ControlIDs r \<noteq> [] \<and> (\<forall>x \<in> set (rc_ControlIDs r). reUUID x) \<and>
     distinct (rc_ControlIDs r) \<and> trimSpace (rc_Reason r) \<noteq> []"

definition validNewRole :: "newRole \<Rightarrow> bool" where
  "validNewRole nr \<longleftrightarrow>
     reRoleName (nr_Name nr) \<and> reRolePath (nr_Path nr) \<and> reHash (nr_TrustPolicyHash nr) \<and>
     (\<forall>a \<in> set (nr_ManagedPolicyARNs nr). reARN a) \<and> distinct (nr_ManagedPolicyARNs nr) \<and>
     (\<forall>p \<in> set (nr_InlinePolicies nr). reInlineNm (ip_Name p) \<and> reHash (ip_DocumentHash p)) \<and>
     distinct (map ip_Name (nr_InlinePolicies nr)) \<and>
     (nr_BoundaryARN nr = [] \<or> reARN (nr_BoundaryARN nr))"

definition validDedicated :: "dedicatedIdentityIntent \<Rightarrow> bool" where
  "validDedicated d \<longleftrightarrow>
     di_Kind d = IntentDedicatedIdentity \<and> validSubject (di_Source d) \<and> reUUID (dw_WorkloadID (di_Workload d)) \<and>
     dw_BindingKind (di_Workload d) \<in> {BindingECSTaskRole, BindingLambdaRole, BindingEC2InstanceProfile} \<and>
     reARN (dw_BindingRef (di_Workload d)) \<and> validNewRole (di_NewRole d) \<and>
     di_Delivery d \<in> {DeliveryIaCPR, DeliveryExport}"

lemma validateRemoveControl_Nil: "validateRemoveControl r = [] \<longleftrightarrow> validRemoveControl r"
  by (simp add: validateRemoveControl_def validRemoveControl_def validateIDs_Nil)

lemma validateARNs_Nil:
  "validateARNs i seen as = [] \<longleftrightarrow> (\<forall>a \<in> set as. reARN a) \<and> distinct as \<and> set as \<inter> set seen = {}"
  by (induction as arbitrary: i seen) auto

lemma validateInline_Nil:
  "validateInline i names ps = [] \<longleftrightarrow>
     (\<forall>p \<in> set ps. reInlineNm (ip_Name p) \<and> reHash (ip_DocumentHash p)) \<and>
     distinct (map ip_Name ps) \<and> ip_Name ` set ps \<inter> set names = {}"
  by (induction ps arbitrary: i names) (auto simp: Let_def)

lemma validateDedicated_Nil: "validateDedicated d = [] \<longleftrightarrow> validDedicated d"
  by (simp add: validateDedicated_def validDedicated_def validNewRole_def Let_def validateARNs_Nil
    validateInline_Nil)

lemma intent_kinds_distinct:
  "IntentRemoveControl \<noteq> IntentRightSizeServices" "IntentDedicatedIdentity \<noteq> IntentRightSizeServices"
  "IntentDedicatedIdentity \<noteq> IntentRemoveControl"
  by (simp_all add: IntentRemoveControl_def IntentRightSizeServices_def IntentDedicatedIdentity_def)

text \<open>An intent is valid when the member its kind names is present and valid.\<close>

definition validIntent :: "intent \<Rightarrow> bool" where
  "validIntent i \<longleftrightarrow>
     (in_Kind i = IntentRightSizeServices \<and> (\<exists>r. in_RightSize i = Some r \<and> validRightSize r)) \<or>
     (in_Kind i = IntentRemoveControl \<and> (\<exists>r. in_RemoveControl i = Some r \<and> validRemoveControl r)) \<or>
     (in_Kind i = IntentDedicatedIdentity \<and> (\<exists>d. in_DedicatedIdentity i = Some d \<and> validDedicated d))"

lemma ValidateIntent_Nil: "ValidateIntent i = [] \<longleftrightarrow> validIntent i"
  using intent_kinds_distinct
  by (cases "in_RightSize i"; cases "in_RemoveControl i"; cases "in_DedicatedIdentity i")
     (simp_all add: ValidateIntent_def validIntent_def validateRightSize_Nil validateRemoveControl_Nil
       validateDedicated_Nil)

lemma ForSubject_disjoint:
  assumes "validRightSize r"
  shows "rm_Service ` set (rs_Remove (ForSubject r s)) \<inter> re_Service ` set (rs_Retain (ForSubject r s)) = {}"
proof -
  have "False" if x: "x \<in> set (rs_Remove (ForSubject r s))" and e: "e \<in> set (rs_Retain r)" "AppliesTo e s"
    and same: "rm_Service x = re_Service e" for x e
  proof (cases "re_Subjects e = []")
    case True
    then have "re_Service e \<in> set (unscoped (rs_Retain r))" using e(1) unscoped_mem by blast
    moreover have "rm_Service x \<in> set (map rm_Service (rs_Remove r))" using x by (auto simp: ForSubject_Remove)
    ultimately show False using assms same unfolding validRightSize_def by (metis IntI emptyE)
  next
    case False
    then have "s \<in> set (re_Subjects e)" using e(2) AppliesTo_iff by blast
    then show False using x e(1) same by (auto simp: ForSubject_Remove)
  qed
  then show ?thesis unfolding ForSubject_retained by auto
qed

lemma ForSubject_Retain_distinct:
  assumes "validRightSize r"
  shows "distinct (map re_Service (rs_Retain (ForSubject r s)))"
proof -
  let ?as = "filter (\<lambda>e. AppliesTo e s) (rs_Retain r)"
  have "distinct (map re_Service ?as)"
    by (rule applying_distinct) (use assms in \<open>unfold validRightSize_def, blast\<close>)+
  then have "distinct (map re_Service (map (\<lambda>e. e\<lparr>re_Subjects := []\<rparr>) ?as))" by (simp add: comp_def)
  then show ?thesis unfolding ForSubject_Retain by (metis distinct_map distinct_sort set_sort)
qed

subsection \<open>Properties\<close>

text \<open>
  C21. \<open>ValidateIntent\<close> reports no error exactly for the intents that satisfy the
  declarative rules: among them that a removal has at least 30 qualified days and a known grant
  age, that no service is removed and retained for everyone, that roles, services, scoped
  retains and ids are listed once, and that every subject still loses something.
\<close>

theorem validate_intent_exact: "ValidateIntent i = [] \<longleftrightarrow> validIntent i"
  by (rule ValidateIntent_Nil)

text \<open>
  C22. What one role of a valid intent sees is consistent: it removes at least one service, each
  once, with a qualified basis; it retains each service once, sorted and no longer scoped; and
  it neither retains what it removes nor removes anything the intent does not remove.
\<close>

theorem for_subject_consistent:
  assumes "validRightSize r" and "s \<in> set (rs_Subjects r)"
  defines "r' \<equiv> ForSubject r (su_IdentityAccountID s)"
  shows "rs_Remove r' \<noteq> [] \<and> distinct (map rm_Service (rs_Remove r')) \<and>
    set (rs_Remove r') \<subseteq> {e \<in> set (rs_Remove r). validRemove e} \<and>
    distinct (map re_Service (rs_Retain r')) \<and> sorted (map re_Service (rs_Retain r')) \<and>
    re_Subjects ` set (rs_Retain r') \<subseteq> {[]} \<and>
    rm_Service ` set (rs_Remove r') \<inter> re_Service ` set (rs_Retain r') = {}"
proof (intro conjI)
  show "rs_Remove r' \<noteq> []" using assms unfolding validRightSize_def by blast
  have "distinct (map rm_Service (rs_Remove r))" using assms(1) unfolding validRightSize_def by blast
  then show "distinct (map rm_Service (rs_Remove r'))"
    unfolding r'_def ForSubject_Remove by (rule distinct_map_filter)
  have "\<forall>e \<in> set (rs_Remove r). validRemove e" using assms(1) unfolding validRightSize_def by blast
  then show "set (rs_Remove r') \<subseteq> {e \<in> set (rs_Remove r). validRemove e}"
    unfolding r'_def ForSubject_Remove by auto
  show "distinct (map re_Service (rs_Retain r'))"
    unfolding r'_def by (rule ForSubject_Retain_distinct [OF assms(1)])
  show "sorted (map re_Service (rs_Retain r'))" unfolding r'_def ForSubject_Retain by simp
  show "re_Subjects ` set (rs_Retain r') \<subseteq> {[]}" unfolding r'_def ForSubject_Retain by auto
  show "rm_Service ` set (rs_Remove r') \<inter> re_Service ` set (rs_Retain r') = {}"
    unfolding r'_def by (rule ForSubject_disjoint [OF assms(1)])
qed

definition exampleSubject :: "char \<Rightarrow> subject" where
  "exampleSubject c = \<lparr>su_IdentityAccountID = ''0000000'' @ [c] @ ''-0000-0000-0000-000000000000'',
     su_RoleID = ''AROAEXAMPLE'' @ [c], su_AccountID = ''123456789012''\<rparr>"

definition exampleIntent :: rightSizeIntent where
  "exampleIntent = \<lparr>rs_Kind = IntentRightSizeServices,
     rs_Subjects = [exampleSubject (CHR ''1''), exampleSubject (CHR ''2'')],
     rs_Retain =
       [\<lparr>re_Service = ''s3'', re_Basis = RetainObserved, re_LastAttempt = ''2026-02-28'', re_Catalog = [],
         re_Reason = [], re_ReviewBy = [], re_Subjects = []\<rparr>,
        \<lparr>re_Service = ''sqs'', re_Basis = RetainOwner, re_LastAttempt = [], re_Catalog = [],
         re_Reason = ''batch'', re_ReviewBy = ''2027-01-01T00:00:00Z'',
         re_Subjects = [su_IdentityAccountID (exampleSubject (CHR ''1''))]\<rparr>],
     rs_Remove = map (\<lambda>svc. \<lparr>rm_Service = svc, rm_Basis = RemoveNoAttempt, rm_QualifiedDays = 90,
         rm_GrantAgeBasis = GrantAgePredatesObservation, rm_RouteUsage = [], rm_RouteState = [],
         rm_Routes = []\<rparr>) [''sqs'', ''sns''],
     rs_ObservationDays = 7, rs_Rollout = None, rs_Delivery = DeliveryDirect, rs_FindingIDs = [],
     rs_EvidenceRev = 3\<rparr>"

theorem for_subject_consistent_witness:
  "validRightSize exampleIntent \<and>
   rs_Remove (ForSubject exampleIntent (su_IdentityAccountID (exampleSubject (CHR ''1'')))) \<noteq> []"
proof -
  have "validateRightSize exampleIntent = []" by code_simp
  then have v: "validRightSize exampleIntent" by (simp add: validateRightSize_Nil)
  have "exampleSubject (CHR ''1'') \<in> set (rs_Subjects exampleIntent)" by (simp add: exampleIntent_def)
  from for_subject_consistent [OF v this] v show ?thesis by blast
qed



end
