(* ===== verification/Double.thy ===== *)
theory Double
  imports GoPrelude Complex_Main
begin

section \<open>Numbers of JSON texts: float64, its parsing and its shortest form\<close>

text \<open>
  A finite \<^verbatim>\<open>float64\<close> is its sign, mantissa and binary exponent; \<open>doubleOfRat\<close> rounds a
  non-negative rational to the nearest one, ties to even, as \<^verbatim>\<open>strconv.ParseFloat\<close> does.
  \<open>shortestDecimal\<close> is the shortest decimal that reads back as the same number, as
  \<^verbatim>\<open>strconv.FormatFloat\<close> with precision -1 prints it, and \<open>FormatNumberES6\<close> lays it out
  (internal/igagov/canonical.go).
\<close>

subsection \<open>Rounding\<close>

type_synonym double = "bool \<times> int \<times> int"

definition pow :: "rat \<Rightarrow> int \<Rightarrow> rat" where
  "pow b e = (if 0 \<le> e then b ^ nat e else 1 / b ^ nat (- e))"

definition magnitude :: "double \<Rightarrow> rat" where
  "magnitude f = (case f of (neg, m, e) \<Rightarrow> of_int m * pow 2 e)"

text \<open>A mantissa of 53 bits, or a smaller one at the least exponent.\<close>

definition canonicalDouble :: "double \<Rightarrow> bool" where
  "canonicalDouble f \<longleftrightarrow> (case f of (neg, m, e) \<Rightarrow>
     (2 ^ 52 \<le> m \<and> m < 2 ^ 53 \<and> - 1074 \<le> e \<and> e \<le> 971) \<or> (0 \<le> m \<and> m < 2 ^ 52 \<and> e = - 1074))"

definition roundEven :: "rat \<Rightarrow> int" where
  "roundEven x =
    (let n = \<lfloor>x\<rfloor>; r = x - of_int n
     in if r < 1 / 2 then n else if r > 1 / 2 then n + 1 else if even n then n else n + 1)"

function bitLength :: "int \<Rightarrow> int" where
  "bitLength n = (if n \<le> 0 then 0 else 1 + bitLength (n div 2))"
  by pat_completeness auto
termination
  by (relation "measure nat") auto

declare bitLength.simps [simp del]

definition log2Floor :: "rat \<Rightarrow> int" where
  "log2Floor x =
    (if 1 \<le> x then bitLength \<lfloor>x\<rfloor> - 1 else - bitLength (\<lceil>1 / x\<rceil> - 1))"

definition doubleOfRat :: "bool \<Rightarrow> rat \<Rightarrow> double option" where
  "doubleOfRat neg x =
    (if x = 0 then Some (neg, 0, - 1074)
     else let e = max (- 1074) (log2Floor x - 52);
              m = roundEven (x * pow 2 (- e));
              (m', e') = (if m = 2 ^ 53 then (2 ^ 52, e + 1) else (m, e))
          in if e' > 971 then None else Some (neg, m', e'))"

subsection \<open>Reading and printing\<close>

definition expValue :: "string \<Rightarrow> int" where
  "expValue ds = foldl (\<lambda>e c. if e < 10000 then e * 10 + (int (of_char c) - 48) else e) 0 ds"

text \<open>The value of a scanned literal: sign, integer digits, fraction digits, exponent.\<close>

definition ParseFloat :: "bool \<Rightarrow> string \<Rightarrow> string \<Rightarrow> int \<Rightarrow> double option" where
  "ParseFloat neg ip fp ex =
    doubleOfRat neg (of_nat (digitsVal 0 (ip @ fp)) * pow 10 (ex - int (length fp)))"

definition readsBack :: "double \<Rightarrow> int \<Rightarrow> int \<Rightarrow> bool" where
  "readsBack f d p \<longleftrightarrow> 0 < d \<and> doubleOfRat (fst f) (of_int d * pow 10 p) = Some f"

definition decimalAt :: "double \<Rightarrow> int \<Rightarrow> int option" where
  "decimalAt f p =
    (let q = magnitude f * pow 10 (- p); lo = \<lfloor>q\<rfloor>; hi = lo + 1; r = q - of_int lo
     in if readsBack f lo p \<and> (\<not> readsBack f hi p \<or> r < 1 / 2 \<or> (r = 1 / 2 \<and> even lo)) then Some lo
        else if readsBack f hi p then Some hi else None)"

function shortestFrom :: "double \<Rightarrow> int \<Rightarrow> int \<times> int" where
  "shortestFrom f p =
    (if p < - 1074 then (0, p)
     else case decimalAt f p of Some d \<Rightarrow> (d, p) | None \<Rightarrow> shortestFrom f (p - 1))"
  by pat_completeness auto
termination
  by (relation "measure (\<lambda>(f, p). nat (p + 1075))") auto

declare shortestFrom.simps [simp del]

text \<open>
  The coarsest power of ten at which a multiple reads back. No coarser power than that of the
  number of integer digits can do, and at \<open>10 ^ -1074\<close> every float64 is itself a multiple.
\<close>

definition shortestDecimal :: "double \<Rightarrow> int \<times> int" where
  "shortestDecimal f =
    shortestFrom f (int (length (itoa \<lfloor>magnitude f\<rfloor>)))"

definition FormatNumberES6 :: "double \<Rightarrow> string" where
  "FormatNumberES6 f =
    (if magnitude f = 0 then ''0''
     else let (d, p) = shortestDecimal f;
              digits = itoa d;
              k = int (length digits);
              n = p + k
          in (if fst f then ''-'' else []) @
             (if k \<le> n \<and> n \<le> 21 then digits @ replicate (nat (n - k)) (CHR ''0'')
              else if 0 < n \<and> n \<le> 21 then take (nat n) digits @ ''.'' @ drop (nat n) digits
              else if - 6 < n \<and> n \<le> 0 then ''0.'' @ replicate (nat (- n)) (CHR ''0'') @ digits
              else take 1 digits @ (if k > 1 then ''.'' @ drop 1 digits else []) @ ''e'' @
                (if n - 1 \<ge> 0 then ''+'' else []) @ itoa (n - 1)))"

definition doubleOfInt :: "int \<Rightarrow> double option" where
  "doubleOfInt i = doubleOfRat (i < 0) (of_int \<bar>i\<bar>)"

subsection \<open>Powers, logarithm and rounding\<close>

lemma pow_add: "b \<noteq> 0 \<Longrightarrow> pow b (x + y) = pow b x * pow b y"
proof -
  assume b: "b \<noteq> 0"
  have nat: "pow b x = b powi x" for x
    using b by (auto simp: pow_def power_int_def inverse_eq_divide power_one_over)
  show ?thesis using b by (simp add: nat power_int_add)
qed

lemma pow_0 [simp]: "pow b 0 = 1"
  by (simp add: pow_def)

lemma pow_pos: "0 < b \<Longrightarrow> 0 < pow b e"
  by (simp add: pow_def)

lemma pow_minus: "b \<noteq> 0 \<Longrightarrow> pow b (- e) * pow b e = 1"
  using pow_add [of b "- e" e] by simp

lemma pow_nat: "pow b (int n) = b ^ n"
  by (simp add: pow_def)

lemma pow_less: "x < y \<Longrightarrow> pow 2 x < pow 2 y"
proof -
  assume "x < y"
  then have "1 < (2 :: rat) ^ nat (y - x)" by simp
  then have "1 < pow 2 (y - x)" using \<open>x < y\<close> by (simp add: pow_def)
  then have "pow 2 x * 1 < pow 2 x * pow 2 (y - x)" using pow_pos [of 2 x] by (intro mult_strict_left_mono) simp_all
  then show ?thesis using pow_add [of 2 x "y - x"] by simp
qed

lemma pow_less_iff: "pow 2 x < pow 2 y \<longleftrightarrow> x < y"
  using pow_less [of x y] pow_less [of y x] by (cases "x = y") force+

lemma pow_mono_iff: "pow 2 x \<le> pow 2 y \<longleftrightarrow> x \<le> y"
  using pow_less_iff [of y x] by linarith

lemma bitLength_bounds:
  "0 < n \<Longrightarrow> 0 < bitLength n \<and> 2 ^ nat (bitLength n - 1) \<le> n \<and> n < 2 ^ nat (bitLength n)"
proof (induction n rule: bitLength.induct)
  case (1 n)
  show ?case
  proof (cases "n = 1")
    case True
    have "bitLength 1 = 1" by (simp add: bitLength.simps)
    then show ?thesis using True by simp
  next
    case False
    then have h: "0 < n div 2" using 1(2) by auto
    have b: "bitLength n = 1 + bitLength (n div 2)" using 1(2) by (subst bitLength.simps) simp
    let ?k = "bitLength (n div 2)"
    from 1(1) h have ih: "0 < ?k" "2 ^ nat (?k - 1) \<le> n div 2" "n div 2 < 2 ^ nat ?k" by auto
    have "nat ?k = Suc (nat (?k - 1))" "nat (1 + ?k) = Suc (nat ?k)" using ih(1) by auto
    then have p: "2 * 2 ^ nat (?k - 1) = (2 :: int) ^ nat ?k" "(2 :: int) ^ nat (1 + ?k) = 2 * 2 ^ nat ?k"
      by simp_all
    have "2 ^ nat ?k \<le> 2 * (n div 2)" using ih(2) p(1) by linarith
    moreover have "2 * (n div 2) \<le> n" "n \<le> 2 * (n div 2) + 1" by presburger+
    ultimately show ?thesis using ih p(2) unfolding b by auto
  qed
qed

lemma pow2_int: "0 \<le> k \<Longrightarrow> pow 2 k = of_int (2 ^ nat k)"
  by (simp add: pow_def)

lemma log2Floor_bounds:
  assumes "0 < x"
  shows "pow 2 (log2Floor x) \<le> x \<and> x < pow 2 (log2Floor x + 1)"
proof (cases "1 \<le> x")
  case True
  let ?n = "\<lfloor>x\<rfloor>" and ?k = "bitLength \<lfloor>x\<rfloor>"
  have "0 < ?n" using True by (simp add: le_floor_iff)
  from bitLength_bounds [OF this] have k: "0 < ?k" "2 ^ nat (?k - 1) \<le> ?n" "?n + 1 \<le> 2 ^ nat ?k" by auto
  have "pow 2 (?k - 1) \<le> of_int ?n" using k(1,2) pow2_int [of "?k - 1"] by (simp del: of_int_power)
  moreover have "of_int (?n + 1) \<le> pow 2 ?k"
    using k(1,3) pow2_int [of ?k] by (simp only: of_int_le_iff less_imp_le)
  moreover have "of_int ?n \<le> x" "x < of_int (?n + 1)" by linarith+
  ultimately have "pow 2 (?k - 1) \<le> x" "x < pow 2 ?k" by linarith+
  then show ?thesis using True by (simp add: log2Floor_def)
next
  case False
  let ?n = "\<lceil>1 / x\<rceil> - 1"
  let ?k = "bitLength ?n"
  have y: "1 < 1 / x" using False assms by simp
  then have "0 < ?n" by linarith
  from bitLength_bounds [OF this] have k: "0 < ?k" "2 ^ nat (?k - 1) \<le> ?n" "?n + 1 \<le> 2 ^ nat ?k" by auto
  have "pow 2 (?k - 1) \<le> of_int ?n" using k(1,2) pow2_int [of "?k - 1"] by (simp del: of_int_power)
  moreover have "of_int ?n < 1 / x" by linarith
  ultimately have lo: "pow 2 (?k - 1) < 1 / x" by linarith
  have "1 / x \<le> of_int (?n + 1)" by linarith
  moreover have "of_int (?n + 1) \<le> pow 2 ?k"
    using k(1,3) pow2_int [of ?k] by (simp only: of_int_le_iff less_imp_le)
  ultimately have hi: "1 / x \<le> pow 2 ?k" by linarith
  have inv: "pow 2 (- j) = 1 / pow 2 j" for j
    using pow_minus [of 2 j] pow_pos [of 2 j] by (simp add: field_simps)
  have "pow 2 (- ?k) \<le> x"
    unfolding inv using hi assms pow_pos [of 2 ?k] by (simp add: field_simps)
  moreover have "x < pow 2 (- (?k - 1))"
    unfolding inv using lo assms pow_pos [of 2 "?k - 1"] by (simp add: field_simps)
  then have "x < pow 2 (- ?k + 1)" by simp
  ultimately show ?thesis using False by (simp add: log2Floor_def)
qed

lemma log2Floor_unique:
  assumes "pow 2 k \<le> x" "x < pow 2 (k + 1)"
  shows "log2Floor x = k"
proof -
  have "0 < x" using assms(1) pow_pos [of 2 k] by simp
  note b = log2Floor_bounds [OF this]
  have "pow 2 k < pow 2 (log2Floor x + 1)" "pow 2 (log2Floor x) < pow 2 (k + 1)"
    using assms b by linarith+
  then show ?thesis by (simp add: pow_less_iff)
qed

lemma roundEven_int [simp]: "roundEven (of_int m) = m"
  by (simp add: roundEven_def)

lemma roundEven_bounds: "of_int a \<le> y \<Longrightarrow> y \<le> of_int b \<Longrightarrow> a \<le> roundEven y \<and> roundEven y \<le> b"
proof -
  assume y: "of_int a \<le> y" "y \<le> of_int b"
  have a: "a \<le> \<lfloor>y\<rfloor>" using y(1) by (simp add: le_floor_iff)
  have b: "\<lfloor>y\<rfloor> \<le> b" using y(2) by (simp add: floor_le_iff)
  show ?thesis
  proof (cases "\<lfloor>y\<rfloor> = b")
    case True
    then have "y = of_int b" using y(2) by linarith
    then show ?thesis using a True by simp
  next
    case False
    then show ?thesis using a b by (simp add: roundEven_def Let_def)
  qed
qed


subsection \<open>Rounding is exact on representable numbers and gives representable numbers\<close>

lemma magnitude_scale: "magnitude (neg, m, e) * pow 2 (- e) = of_int m"
  using pow_minus [of 2 e] by (simp add: magnitude_def mult.assoc mult.commute)

lemma magnitude_nonneg: "canonicalDouble f \<Longrightarrow> 0 \<le> magnitude f"
  using pow_pos [of 2 "snd (snd f)"] by (auto simp: magnitude_def canonicalDouble_def)

lemma magnitude_zero: "magnitude (neg, m, e) = 0 \<longleftrightarrow> m = 0"
  using pow_pos [of 2 e] by (simp add: magnitude_def)

lemma of_int_pow2: "of_int m * pow 2 e < pow 2 (int n + e) \<longleftrightarrow> m < 2 ^ n"
  "pow 2 (int n + e) \<le> of_int m * pow 2 e \<longleftrightarrow> 2 ^ n \<le> m"
proof -
  have p: "pow 2 (int n + e) = of_int (2 ^ n) * pow 2 e" by (simp add: pow_add pow_nat)
  show "of_int m * pow 2 e < pow 2 (int n + e) \<longleftrightarrow> m < 2 ^ n"
    unfolding p using pow_pos [of 2 e] by (simp only: mult_less_cancel_right_pos of_int_less_iff)
  show "pow 2 (int n + e) \<le> of_int m * pow 2 e \<longleftrightarrow> 2 ^ n \<le> m"
    unfolding p using pow_pos [of 2 e] by (simp only: mult_le_cancel_right_pos of_int_le_iff)
qed

lemma doubleOfRat_exact:
  assumes "canonicalDouble f"
  shows "doubleOfRat (fst f) (magnitude f) = Some f"
proof -
  obtain neg m e where f: "f = (neg, m, e)" by (metis prod_cases3)
  show ?thesis
  proof (cases "m = 0")
    case True
    then have "e = - 1074" using assms f by (auto simp: canonicalDouble_def)
    then show ?thesis using True f by (simp add: doubleOfRat_def magnitude_def)
  next
    case False
    have m: "0 < m" "m < 2 ^ 53" using False assms f by (auto simp: canonicalDouble_def)
    have x: "magnitude f = of_int m * pow 2 e" using f by (simp add: magnitude_def)
    have pos: "0 < magnitude f" unfolding x using m(1) pow_pos [of 2 e] by simp
    have ex: "max (- 1074) (log2Floor (magnitude f) - 52) = e"
    proof (cases "2 ^ 52 \<le> m")
      case True
      have "pow 2 (52 + e) \<le> magnitude f" "magnitude f < pow 2 (52 + e + 1)"
        unfolding x using of_int_pow2(2) [where n = 52 and m = m and e = e]
          of_int_pow2(1) [where n = 53 and m = m and e = e] True m(2) by (simp_all add: add.commute)
      from log2Floor_unique [OF this] show ?thesis using assms f True by (auto simp: canonicalDouble_def)
    next
      case small: False
      then have e: "e = - 1074" using assms f by (auto simp: canonicalDouble_def)
      have "pow 2 (log2Floor (magnitude f)) \<le> magnitude f" using log2Floor_bounds [OF pos] by simp
      also have "magnitude f < pow 2 (52 + e)"
        unfolding x using of_int_pow2(1) [where n = 52 and m = m and e = e] small by simp
      finally show ?thesis using e by (simp add: pow_less_iff)
    qed
    have r: "roundEven (magnitude f * pow 2 (- e)) = m" unfolding f magnitude_scale by simp
    have "\<not> e > 971" using assms f by (auto simp: canonicalDouble_def)
    then show ?thesis using pos m(2) ex r f by (simp add: doubleOfRat_def Let_def)
  qed
qed

lemma doubleOfRat_canonical:
  assumes "doubleOfRat neg x = Some f" "0 \<le> x"
  shows "canonicalDouble f \<and> fst f = neg"
proof (cases "x = 0")
  case True
  then show ?thesis using assms(1) by (auto simp: doubleOfRat_def canonicalDouble_def)
next
  case False
  then have pos: "0 < x" using assms(2) by simp
  define e where "e = max (- 1074) (log2Floor x - 52)"
  define y where "y = x * pow 2 (- e)"
  define m where "m = roundEven y"
  note b = log2Floor_bounds [OF pos]
  have scale: "pow 2 k * pow 2 (- e) = pow 2 (k - e)" for k using pow_add [of 2 k "- e"] by simp
  have "pow 2 (log2Floor x - e) \<le> y" "y < pow 2 (log2Floor x + 1 - e)"
    unfolding y_def scale [symmetric] using b pow_pos [of 2 "- e"] by (auto intro: mult_right_mono mult_strict_right_mono)
  moreover have "log2Floor x + 1 - e \<le> 53" by (simp add: e_def)
  then have "pow 2 (log2Floor x + 1 - e) \<le> pow 2 53" by (simp only: pow_mono_iff)
  ultimately have y: "0 \<le> y" "y \<le> of_int (2 ^ 53)" "log2Floor x - e \<ge> 52 \<Longrightarrow> of_int (2 ^ 52) \<le> y"
    using pow_pos [of 2 "log2Floor x - e"] pow_mono_iff [of 52 "log2Floor x - e"] by (simp_all add: pow_def)
  have m: "0 \<le> m" "m \<le> 2 ^ 53" using roundEven_bounds [of 0 y "2 ^ 53"] y(1,2) by (simp_all add: m_def)
  have big: "2 ^ 52 \<le> m" if "e \<noteq> - 1074"
  proof -
    have "log2Floor x - e \<ge> 52" using that by (simp add: e_def max_def split: if_splits)
    then show ?thesis using roundEven_bounds [of "2 ^ 52" y "2 ^ 53"] y by (simp add: m_def)
  qed
  have eq: "doubleOfRat neg x = (let (m', e') = (if m = 2 ^ 53 then (2 ^ 52, e + 1) else (m, e))
      in if e' > 971 then None else Some (neg, m', e'))"
    using False by (simp add: doubleOfRat_def Let_def e_def y_def m_def)
  have e: "- 1074 \<le> e" by (simp add: e_def)
  show ?thesis
  proof (cases "m = 2 ^ 53")
    case True
    then show ?thesis using assms(1) e unfolding eq by (auto simp: canonicalDouble_def split: if_splits)
  next
    case ne: False
    then show ?thesis using assms(1) e m big unfolding eq by (auto simp: canonicalDouble_def split: if_splits)
  qed
qed

lemma doubleOfRat_zero: "0 \<le> x \<Longrightarrow> doubleOfRat neg x = Some (neg', m, e) \<Longrightarrow> neg' = neg"
  using doubleOfRat_canonical [of neg x "(neg', m, e)"] by simp


subsection \<open>The shortest decimal reads back\<close>

lemma decimalAt_readsBack: "decimalAt f p = Some d \<Longrightarrow> readsBack f d p"
  by (auto simp: decimalAt_def Let_def split: if_splits)

lemma pow10_integer:
  assumes "- int n \<le> e"
  shows "\<exists>i. of_int m * pow 2 e * pow 10 (int n) = of_int i"
proof -
  have "pow 10 (int n) = pow 2 (int n) * of_int (5 ^ n)"
    using power_mult_distrib [of "2 :: rat" 5 n] by (simp add: pow_nat)
  then have "of_int m * pow 2 e * pow 10 (int n) = of_int m * of_int (5 ^ n) * (pow 2 e * pow 2 (int n))"
    by simp
  also have "pow 2 e * pow 2 (int n) = of_int (2 ^ nat (e + int n))"
    using pow_add [of 2 e "int n"] pow2_int [of "e + int n"] assms by simp
  finally show ?thesis by (metis of_int_mult)
qed

lemma decimalAt_least:
  assumes "canonicalDouble f" "magnitude f \<noteq> 0"
  shows "decimalAt f (- 1074) \<noteq> None"
proof -
  obtain neg m e where f: "f = (neg, m, e)" by (metis prod_cases3)
  have e: "- 1074 \<le> e" using assms(1) f by (auto simp: canonicalDouble_def)
  obtain i where i: "magnitude f * pow 10 1074 = of_int i"
    using pow10_integer [of 1074 e m] e f by (auto simp: magnitude_def)
  have "0 < magnitude f" using magnitude_nonneg [OF assms(1)] assms(2) by simp
  then have "0 < magnitude f * pow 10 1074" by (intro mult_pos_pos pow_pos) simp_all
  then have "0 < i" unfolding i by simp
  moreover have "of_int i * pow 10 (- 1074) = magnitude f"
    unfolding i [symmetric] mult.assoc using pow_minus [of 10 1074] by (simp add: mult.commute)
  ultimately have "readsBack f i (- 1074)"
    unfolding readsBack_def using doubleOfRat_exact [OF assms(1)] by simp
  then show ?thesis by (simp add: decimalAt_def Let_def i)
qed

lemma shortestFrom_readsBack:
  assumes "canonicalDouble f" "magnitude f \<noteq> 0" "- 1074 \<le> p" "shortestFrom f p = (d, q)"
  shows "readsBack f d q"
  using assms(3,4)
proof (induction p rule: int_ge_induct)
  case base
  then show ?case
    using decimalAt_least [OF assms(1,2)] decimalAt_readsBack [of f "- 1074"]
    by (auto simp: shortestFrom.simps [of f "- 1074"])
next
  case (step p)
  show ?case
  proof (cases "decimalAt f (p + 1)")
    case None
    then show ?thesis using step by (simp add: shortestFrom.simps [of f "p + 1"])
  next
    case (Some x)
    then show ?thesis using step decimalAt_readsBack by (simp add: shortestFrom.simps [of f "p + 1"])
  qed
qed

lemma shortestDecimal_readsBack:
  assumes "canonicalDouble f" "magnitude f \<noteq> 0" "shortestDecimal f = (d, p)"
  shows "0 < d \<and> doubleOfRat (fst f) (of_int d * pow 10 p) = Some f"
  using shortestFrom_readsBack [OF assms(1,2) _ assms(3) [unfolded shortestDecimal_def]]
  by (simp add: readsBack_def)

end
