(* ===== verification/Json.thy ===== *)
theory Json
  imports Double
begin

section \<open>Canonical JSON (internal/igagov/canonical.go)\<close>

text \<open>
  The strict JSON reader and the RFC 8785 writer. A reader takes the remaining bytes and
  returns what it read with the bytes left, or the error; the offset and wording of the
  message are not modelled. The mutually recursive readers carry a bound on the recursion
  depth; \<open>parseJSON\<close> supplies one that is always enough (theory \<open>JsonProps\<close>).
\<close>

subsection \<open>Values and errors\<close>

datatype json =
    JNull
  | JBool bool
  | JNumber double
  | JString string
  | JArray "json list"
  | JObject "(string \<times> json) list"

datatype jsonError =
    NestingTooDeep | UnexpectedEnd | UnexpectedCharacter | InvalidLiteral | InvalidNumber
  | InvalidFraction | InvalidExponent | NotADouble | ShortEscape | InvalidHex | UnterminatedString
  | UnterminatedEscape | InvalidEscape | LoneSurrogate | ControlCharacter | InvalidUTF8
  | UnterminatedArray | ExpectedCommaOrBracket | ExpectedMemberName | DuplicateMember | ExpectedColon
  | UnterminatedObject | ExpectedCommaOrBrace | TrailingData | OutOfFuel

definition maxJSONDepth :: nat where [go_consts]: "maxJSONDepth = 512"

subsection \<open>Lexical elements\<close>

definition isWS :: "char \<Rightarrow> bool" where
  "isWS c \<longleftrightarrow> c = CHR '' '' \<or> c = CHR 0x09 \<or> c = CHR 0x0A \<or> c = CHR 0x0D"

definition skipWS :: "string \<Rightarrow> string" where
  "skipWS s = dropWhile isWS s"

definition literal :: "string \<Rightarrow> json \<Rightarrow> string \<Rightarrow> jsonError + (json \<times> string)" where
  "literal word v s = (if hasPrefix s word then Inr (v, drop (length word) s) else Inl InvalidLiteral)"

definition intPart :: "string \<Rightarrow> jsonError + (string \<times> string)" where
  "intPart s = (case s of
      c # r \<Rightarrow> if c = CHR ''0'' then Inr (''0'', r)
               else if takeWhile isDigit s = [] then Inl InvalidNumber
               else Inr (takeWhile isDigit s, dropWhile isDigit s)
    | [] \<Rightarrow> Inl InvalidNumber)"

definition fracPart :: "string \<Rightarrow> jsonError + (string \<times> string)" where
  "fracPart s = (case s of
      c # r \<Rightarrow> if c = CHR ''.'' then
                 (if takeWhile isDigit r = [] then Inl InvalidFraction
                  else Inr (takeWhile isDigit r, dropWhile isDigit r))
               else Inr ([], s)
    | [] \<Rightarrow> Inr ([], s))"

definition expPart :: "string \<Rightarrow> jsonError + (int \<times> string)" where
  "expPart s = (case s of
      c # r \<Rightarrow>
        if c = CHR ''e'' \<or> c = CHR ''E'' then
          (let (neg, r') = (case r of
                 d # r' \<Rightarrow> if d = CHR ''-'' then (True, r') else if d = CHR ''+'' then (False, r') else (False, r)
               | [] \<Rightarrow> (False, r));
               ds = takeWhile isDigit r'
           in if ds = [] then Inl InvalidExponent
              else Inr ((if neg then - expValue ds else expValue ds), dropWhile isDigit r'))
        else Inr (0, s)
    | [] \<Rightarrow> Inr (0, s))"

definition number :: "string \<Rightarrow> jsonError + (json \<times> string)" where
  "number s =
    (let (neg, s) = (case s of c # r \<Rightarrow> if c = CHR ''-'' then (True, r) else (False, s) | [] \<Rightarrow> (False, s))
     in bindR (intPart s) (\<lambda>(ip, s).
        bindR (fracPart s) (\<lambda>(fp, s).
        bindR (expPart s) (\<lambda>(ex, s).
        case ParseFloat neg ip fp ex of
          None \<Rightarrow> Inl NotADouble
        | Some f \<Rightarrow> Inr (JNumber f, s)))))"

subsection \<open>UTF-8 and UTF-16\<close>

definition byte :: "nat \<Rightarrow> char" where "byte n = char_of n"

definition cont :: "char \<Rightarrow> bool" where
  "cont c \<longleftrightarrow> 0x80 \<le> (of_char c :: nat) \<and> (of_char c :: nat) \<le> 0xBF"

definition between :: "nat \<Rightarrow> nat \<Rightarrow> char \<Rightarrow> bool" where
  "between a b c \<longleftrightarrow> a \<le> of_char c \<and> of_char c \<le> b"

text \<open>
  \<^verbatim>\<open>utf8.DecodeRune\<close>: the code point at the front and its width; \<^term>\<open>None\<close> is
  RuneError with a width of at most one byte.
\<close>

definition decodeRune :: "string \<Rightarrow> (nat \<times> nat) option" where
  "decodeRune s =
    (case s of
       [] \<Rightarrow> None
     | a # r \<Rightarrow>
         let b0 = of_char a :: nat in
         if b0 < 0x80 then Some (b0, 1)
         else if 0xC2 \<le> b0 \<and> b0 \<le> 0xDF then
           (case r of b # _ \<Rightarrow> if cont b then Some ((b0 - 0xC0) * 64 + (of_char b - 0x80), 2) else None | [] \<Rightarrow> None)
         else if 0xE0 \<le> b0 \<and> b0 \<le> 0xEF then
           (case r of
              b # c # _ \<Rightarrow>
                if between (if b0 = 0xE0 then 0xA0 else 0x80) (if b0 = 0xED then 0x9F else 0xBF) b \<and> cont c
                then Some ((b0 - 0xE0) * 4096 + (of_char b - 0x80) * 64 + (of_char c - 0x80), 3) else None
            | _ \<Rightarrow> None)
         else if 0xF0 \<le> b0 \<and> b0 \<le> 0xF4 then
           (case r of
              b # c # d # _ \<Rightarrow>
                if between (if b0 = 0xF0 then 0x90 else 0x80) (if b0 = 0xF4 then 0x8F else 0xBF) b \<and> cont c \<and> cont d
                then Some ((b0 - 0xF0) * 262144 + (of_char b - 0x80) * 4096 + (of_char c - 0x80) * 64 +
                       (of_char d - 0x80), 4) else None
            | _ \<Rightarrow> None)
         else None)"

text \<open>\<^verbatim>\<open>WriteRune\<close> of a code point that is not a surrogate.\<close>

definition encodeRune :: "nat \<Rightarrow> string" where
  "encodeRune r =
    (if r < 0x80 then [byte r]
     else if r < 0x800 then [byte (0xC0 + r div 64), byte (0x80 + r mod 64)]
     else if r < 0x10000 then
       [byte (0xE0 + r div 4096), byte (0x80 + r div 64 mod 64), byte (0x80 + r mod 64)]
     else
       [byte (0xF0 + r div 262144), byte (0x80 + r div 4096 mod 64), byte (0x80 + r div 64 mod 64),
        byte (0x80 + r mod 64)])"

text \<open>The conversion to runes: an invalid byte becomes U+FFFD.\<close>

function runes :: "string \<Rightarrow> nat list" where
  "runes s =
    (case s of
       [] \<Rightarrow> []
     | a # r \<Rightarrow>
         (case decodeRune s of None \<Rightarrow> 0xFFFD # runes r | Some (c, w) \<Rightarrow> c # runes (drop (w - 1) r)))"
  by pat_completeness auto
termination
  by (relation "measure length") auto

declare runes.simps [simp del]

definition utf16Units :: "nat \<Rightarrow> nat list" where
  "utf16Units r =
    (if r < 0x10000 then [r]
     else [0xD800 + (r - 0x10000) div 1024, 0xDC00 + (r - 0x10000) mod 1024])"

text \<open>The sequence of code units by which \<^verbatim>\<open>lessUTF16\<close> compares, lexicographically.\<close>

definition utf16 :: "string \<Rightarrow> nat list" where
  "utf16 s = concat (map utf16Units (runes s))"

definition lessUTF16 :: "string \<Rightarrow> string \<Rightarrow> bool" where
  "lessUTF16 a b \<longleftrightarrow> utf16 a < utf16 b"

subsection \<open>Strings\<close>

definition hexVal :: "char \<Rightarrow> nat option" where
  "hexVal c =
    (if between 48 57 c then Some (of_char c - 48)
     else if between 97 102 c then Some (of_char c - 97 + 10)
     else if between 65 70 c then Some (of_char c - 65 + 10)
     else None)"

definition hex4 :: "string \<Rightarrow> jsonError + (nat \<times> string)" where
  "hex4 s = (case s of
      a # b # c # d # r \<Rightarrow>
        (case (hexVal a, hexVal b, hexVal c, hexVal d) of
           (Some w, Some x, Some y, Some z) \<Rightarrow> Inr (((w * 16 + x) * 16 + y) * 16 + z, r)
         | _ \<Rightarrow> Inl InvalidHex)
    | _ \<Rightarrow> Inl ShortEscape)"

definition simpleEscape :: "char \<Rightarrow> char option" where
  "simpleEscape e =
    (if e = CHR 0x22 \<or> e = CHR 0x5C \<or> e = CHR ''/'' then Some e
     else if e = CHR ''b'' then Some (CHR 0x08)
     else if e = CHR ''f'' then Some (CHR 0x0C)
     else if e = CHR ''n'' then Some (CHR 0x0A)
     else if e = CHR ''r'' then Some (CHR 0x0D)
     else if e = CHR ''t'' then Some (CHR 0x09)
     else None)"

text \<open>The escape after \<^verbatim>\<open>\u\<close>: one unit, or a surrogate pair.\<close>

definition unicodeEscape :: "string \<Rightarrow> jsonError + (nat \<times> string)" where
  "unicodeEscape s =
    bindR (hex4 s) (\<lambda>(r, s).
      if 0xD800 \<le> r \<and> r \<le> 0xDFFF then
        (if 0xDC00 \<le> r \<or> \<not> hasPrefix s [CHR 0x5C, CHR ''u''] then Inl LoneSurrogate
         else bindR (hex4 (drop 2 s)) (\<lambda>(r2, s).
           if 0xDC00 \<le> r2 \<and> r2 \<le> 0xDFFF then Inr ((r - 0xD800) * 1024 + (r2 - 0xDC00) + 0x10000, s)
           else Inl LoneSurrogate))
      else Inr (r, s))"

lemma hex4_shrinks: "hex4 s = Inr (r, t) \<Longrightarrow> length t < length s"
  by (auto simp: hex4_def split: list.splits option.splits prod.splits)

lemma unicodeEscape_shrinks: "unicodeEscape s = Inr (r, t) \<Longrightarrow> length t < length s"
  by (auto simp: unicodeEscape_def bindR_Inr_iff split: if_splits dest!: hex4_shrinks)

lemma decodeRune_width: "decodeRune s = Some (c, w) \<Longrightarrow> 0 < w \<and> w \<le> length s"
  by (auto simp: decodeRune_def Let_def split: list.splits if_splits)

text \<open>One turn of the loop of \<open>string\<close>, on a text that does not start with the closing quote.\<close>

definition stringPiece :: "string \<Rightarrow> jsonError + (string \<times> string)" where
  "stringPiece s =
    (case s of
       [] \<Rightarrow> Inl UnterminatedString
     | c # r \<Rightarrow>
         if c = CHR 0x5C then
           (case r of
              [] \<Rightarrow> Inl UnterminatedEscape
            | e # r' \<Rightarrow>
                (case simpleEscape e of
                   Some b \<Rightarrow> Inr ([b], r')
                 | None \<Rightarrow>
                     if e = CHR ''u'' then bindR (unicodeEscape r') (\<lambda>(cp, r''). Inr (encodeRune cp, r''))
                     else Inl InvalidEscape))
         else if (of_char c :: nat) < 0x20 then Inl ControlCharacter
         else if (of_char c :: nat) < 0x80 then Inr ([c], r)
         else (case decodeRune s of
                 None \<Rightarrow> Inl InvalidUTF8
               | Some (cp, w) \<Rightarrow> Inr (take w s, drop w s)))"

lemma stringPiece_shrinks: "stringPiece s = Inr (p, t) \<Longrightarrow> length t < length s"
  by (auto simp: stringPiece_def bindR_Inr_iff split: list.splits option.splits if_splits
    dest!: unicodeEscape_shrinks decodeRune_width)

text \<open>The string after its opening quote; \<open>acc\<close> is the builder.\<close>

function stringBody :: "string \<Rightarrow> string \<Rightarrow> jsonError + (string \<times> string)" where
  "stringBody acc s =
    (if s \<noteq> [] \<and> hd s = CHR 0x22 then Inr (acc, tl s)
     else bindR (stringPiece s) (\<lambda>(p, r). stringBody (acc @ p) r))"
  by pat_completeness auto
termination
  by (relation "measure (\<lambda>(acc, s). length s)") (auto dest: stringPiece_shrinks)

declare stringBody.simps [simp del]

subsection \<open>Values\<close>

fun jvalue :: "nat \<Rightarrow> nat \<Rightarrow> string \<Rightarrow> jsonError + (json \<times> string)"
  and jelements :: "nat \<Rightarrow> nat \<Rightarrow> json list \<Rightarrow> string \<Rightarrow> jsonError + (json \<times> string)"
  and jmembers :: "nat \<Rightarrow> nat \<Rightarrow> (string \<times> json) list \<Rightarrow> string \<Rightarrow> jsonError + (json \<times> string)"
where
  "jvalue 0 depth s = Inl OutOfFuel"
| "jvalue (Suc n) depth s =
    (if depth > maxJSONDepth then Inl NestingTooDeep
     else case s of
       [] \<Rightarrow> Inl UnexpectedEnd
     | c # r \<Rightarrow>
         if c = CHR ''{'' then
           (let r' = skipWS r in
            case r' of
              d # r'' \<Rightarrow> if d = CHR ''}'' then Inr (JObject [], r'') else jmembers n depth [] r'
            | [] \<Rightarrow> jmembers n depth [] r')
         else if c = CHR ''['' then
           (let r' = skipWS r in
            case r' of
              d # r'' \<Rightarrow> if d = CHR '']'' then Inr (JArray [], r'') else jelements n depth [] r'
            | [] \<Rightarrow> jelements n depth [] r')
         else if c = CHR 0x22 then bindR (stringBody [] r) (\<lambda>(str, r). Inr (JString str, r))
         else if c = CHR ''t'' then literal ''true'' (JBool True) s
         else if c = CHR ''f'' then literal ''false'' (JBool False) s
         else if c = CHR ''n'' then literal ''null'' JNull s
         else if c = CHR ''-'' \<or> isDigit c then number s
         else Inl UnexpectedCharacter)"
| "jelements 0 depth vs s = Inl OutOfFuel"
| "jelements (Suc n) depth vs s =
    bindR (jvalue n (depth + 1) (skipWS s)) (\<lambda>(v, s).
      case skipWS s of
        [] \<Rightarrow> Inl UnterminatedArray
      | c # r \<Rightarrow> if c = CHR '','' then jelements n depth (vs @ [v]) r
                 else if c = CHR '']'' then Inr (JArray (vs @ [v]), r)
                 else Inl ExpectedCommaOrBracket)"
| "jmembers 0 depth ms s = Inl OutOfFuel"
| "jmembers (Suc n) depth ms s =
    (case skipWS s of
       [] \<Rightarrow> Inl ExpectedMemberName
     | q # r \<Rightarrow>
         if q \<noteq> CHR 0x22 then Inl ExpectedMemberName
         else bindR (stringBody [] r) (\<lambda>(k, s).
           if k \<in> set (map fst ms) then Inl DuplicateMember
           else case skipWS s of
             [] \<Rightarrow> Inl ExpectedColon
           | c # r \<Rightarrow>
               if c \<noteq> CHR '':'' then Inl ExpectedColon
               else bindR (jvalue n (depth + 1) (skipWS r)) (\<lambda>(v, s).
                 case skipWS s of
                   [] \<Rightarrow> Inl UnterminatedObject
                 | c # r \<Rightarrow> if c = CHR '','' then jmembers n depth (ms @ [(k, v)]) r
                            else if c = CHR ''}'' then Inr (JObject (ms @ [(k, v)]), r)
                            else Inl ExpectedCommaOrBrace)))"

definition parseJSON :: "string \<Rightarrow> jsonError + json" where
  "parseJSON data =
    bindR (jvalue (2 * length data + 1) 0 (skipWS data)) (\<lambda>(v, s).
      if skipWS s = [] then Inr v else Inl TrailingData)"

subsection \<open>The canonical writer\<close>

definition hexdigit :: "nat \<Rightarrow> char" where
  "hexdigit n = ''0123456789abcdef'' ! n"

definition escapeByte :: "char \<Rightarrow> string" where
  "escapeByte c =
    (if c = CHR 0x22 then [CHR 0x5C, CHR 0x22]
     else if c = CHR 0x5C then [CHR 0x5C, CHR 0x5C]
     else if c = CHR 0x08 then [CHR 0x5C, CHR ''b'']
     else if c = CHR 0x0C then [CHR 0x5C, CHR ''f'']
     else if c = CHR 0x0A then [CHR 0x5C, CHR ''n'']
     else if c = CHR 0x0D then [CHR 0x5C, CHR ''r'']
     else if c = CHR 0x09 then [CHR 0x5C, CHR ''t'']
     else if (of_char c :: nat) < 0x20 then
       [CHR 0x5C, CHR ''u'', CHR ''0'', CHR ''0'', hexdigit (of_char c div 16), hexdigit (of_char c mod 16)]
     else [c])"

definition writeCanonicalString :: "string \<Rightarrow> string" where
  "writeCanonicalString s = CHR 0x22 # concat (map escapeByte s) @ [CHR 0x22]"

definition writeMember :: "string \<times> string \<Rightarrow> string" where
  "writeMember m = writeCanonicalString (fst m) @ CHR '':'' # snd m"

fun writeCanonical :: "json \<Rightarrow> string" where
  "writeCanonical JNull = ''null''"
| "writeCanonical (JBool b) = (if b then ''true'' else ''false'')"
| "writeCanonical (JNumber f) = FormatNumberES6 f"
| "writeCanonical (JString s) = writeCanonicalString s"
| "writeCanonical (JArray vs) = ''['' @ joinWith '','' (map writeCanonical vs) @ '']''"
| "writeCanonical (JObject ms) =
    ''{'' @ joinWith '',''
      (map writeMember (sort_key (utf16 \<circ> fst) (map (\<lambda>(k, v). (k, writeCanonical v)) ms))) @ ''}''"

definition Canonicalize :: "string \<Rightarrow> jsonError + string" where
  "Canonicalize data = bindR (parseJSON data) (\<lambda>v. Inr (writeCanonical v))"

definition checkStorable :: "string \<Rightarrow> bool" where
  "checkStorable canonical \<longleftrightarrow> \<not> strContains canonical (CHR 0x5C # ''u0000'')"

end
