(* ===== verification/JsonNumber.thy ===== *)
theory JsonNumber
  imports Json
begin

section \<open>Numbers survive being written and read\<close>

text \<open>
  Each of the four layouts of \<open>FormatNumberES6\<close> is a JSON number whose decimal value is
  that of the shortest digits, so reading it gives the number back (a zero without its sign).
\<close>

subsection \<open>Digits\<close>

lemma natDigits_head: "0 < n \<Longrightarrow> hd (natDigits n) \<noteq> CHR ''0''"
proof (induction n rule: natDigits.induct)
  case (1 n)
  show ?case
  proof (cases "n < 10")
    case True
    have "char_of (48 + n) \<noteq> CHR ''0''"
    proof
      assume "char_of (48 + n) = CHR ''0''"
      then have "of_char (char_of (48 + n) :: char) = (of_char (CHR ''0'') :: nat)" by simp
      then show False using True 1(2) by simp
    qed
    then show ?thesis using True by (subst natDigits.simps) simp
  next
    case False
    then show ?thesis using 1 by (subst natDigits.simps) (simp add: hd_append)
  qed
qed

lemma digitsVal_ge: "a \<le> digitsVal a ds"
proof (induction ds arbitrary: a)
  case (Cons c cs)
  have "a \<le> 10 * a + (of_char c - 48)" by simp
  also have "\<dots> \<le> digitsVal (10 * a + (of_char c - 48)) cs" by (rule Cons)
  finally show ?case by simp
qed simp

lemma digitsVal_lower: "a * 10 ^ length ds \<le> digitsVal a ds"
proof (induction ds arbitrary: a)
  case (Cons c cs)
  have "a * 10 ^ length (c # cs) \<le> (10 * a + (of_char c - 48)) * 10 ^ length cs" by (simp add: algebra_simps)
  also have "\<dots> \<le> digitsVal (10 * a + (of_char c - 48)) cs" by (rule Cons)
  finally show ?case by simp
qed simp

lemma digitsVal_zeros: "digitsVal a (replicate j (CHR ''0'')) = a * 10 ^ j"
  by (induction j arbitrary: a) (simp_all add: algebra_simps)

definition expStep :: "int \<Rightarrow> char \<Rightarrow> int" where
  "expStep e c = (if e < 10000 then e * 10 + (int (of_char c) - 48) else e)"

lemma expStep_digit:
  assumes "isDigit c" "10 * a + (of_char c - 48) < 100000"
  shows "expStep (int a) c = int (10 * a + (of_char c - 48))"
proof -
  obtain k where k: "(of_char c :: nat) = 48 + k"
    using assms(1) le_iff_add [of 48 "of_char c :: nat"] by (auto simp: isDigit_def)
  have "int a < 10000" using assms(2) by linarith
  then show ?thesis unfolding expStep_def k by simp
qed

lemma foldl_expStep:
  "list_all isDigit ds \<Longrightarrow> digitsVal a ds < 100000 \<Longrightarrow> foldl expStep (int a) ds = int (digitsVal a ds)"
proof (induction ds arbitrary: a)
  case (Cons c cs)
  let ?b = "10 * a + (of_char c - 48)"
  have "?b < 100000" using Cons.prems(2) digitsVal_ge [of ?b cs] by simp
  then have "expStep (int a) c = int ?b" using Cons.prems(1) by (intro expStep_digit) simp_all
  then show ?case using Cons.IH [of ?b] Cons.prems by (simp only: foldl_Cons digitsVal.simps list.pred_inject)
qed simp

lemma expValue_digits:
  assumes "list_all isDigit ds" "digitsVal 0 ds < 100000"
  shows "expValue ds = int (digitsVal 0 ds)"
proof -
  have "expValue ds = foldl expStep (int 0) ds"
    unfolding expValue_def expStep_def by simp
  then show ?thesis using foldl_expStep [OF assms] by simp
qed

lemma itoa_pos: "0 < d \<Longrightarrow> itoa d = natDigits (nat d)"
  by (simp add: itoa_def)

subsection \<open>Scanning\<close>

definition numberEnds :: "string \<Rightarrow> bool" where
  "numberEnds t \<longleftrightarrow> t = [] \<or> (\<not> isDigit (hd t) \<and> hd t \<notin> {CHR ''.'', CHR ''e'', CHR ''E''})"

lemma isDigit_not: "isDigit c \<Longrightarrow> c \<notin> {CHR ''.'', CHR ''e'', CHR ''E'', CHR ''-'', CHR ''+''}"
  by (auto simp: isDigit_def)

lemma takeWhile_digits:
  "list_all isDigit ds \<Longrightarrow> t = [] \<or> \<not> isDigit (hd t) \<Longrightarrow>
     takeWhile isDigit (ds @ t) = ds \<and> dropWhile isDigit (ds @ t) = t"
  by (induction ds) (simp, cases t, auto)

lemma intPart_digits:
  assumes "list_all isDigit ip" "ip \<noteq> []" "ip = ''0'' \<or> hd ip \<noteq> CHR ''0''" "t = [] \<or> \<not> isDigit (hd t)"
  shows "intPart (ip @ t) = Inr (ip, t)"
proof -
  obtain c r where ip: "ip = c # r" using assms(2) by (cases ip) auto
  then show ?thesis using assms(1,3) takeWhile_digits [OF assms(1,4)] by (auto simp: intPart_def)
qed

lemma fracPart_digits:
  assumes "list_all isDigit fp" "fp \<noteq> []" "t = [] \<or> \<not> isDigit (hd t)"
  shows "fracPart (CHR ''.'' # fp @ t) = Inr (fp, t)"
  using assms takeWhile_digits [OF assms(1,3)] by (simp add: fracPart_def)

lemma fracPart_none: "t = [] \<or> hd t \<noteq> CHR ''.'' \<Longrightarrow> fracPart t = Inr ([], t)"
  by (cases t) (simp_all add: fracPart_def)

lemma expPart_none: "numberEnds t \<Longrightarrow> expPart t = Inr (0, t)"
  by (cases t) (auto simp: expPart_def numberEnds_def)

lemma expPart_text:
  assumes "\<bar>n\<bar> < 100000" "numberEnds t"
  shows "expPart (CHR ''e'' # (if 0 \<le> n then ''+'' else []) @ itoa n @ t) = Inr (n, t)"
proof -
  let ?ds = "natDigits (nat \<bar>n\<bar>)"
  have tw: "takeWhile isDigit (?ds @ t) = ?ds \<and> dropWhile isDigit (?ds @ t) = t"
    using assms(2) natDigits_isDigit by (intro takeWhile_digits) (auto simp: numberEnds_def)
  have v: "expValue ?ds = \<bar>n\<bar>"
    using expValue_digits [OF natDigits_isDigit] assms(1) by (simp add: natDigits_val)
  show ?thesis
  proof (cases "0 \<le> n")
    case True
    then show ?thesis using tw v by (simp add: expPart_def itoa_def)
  next
    case False
    then show ?thesis using tw v by (simp add: expPart_def itoa_def)
  qed
qed

text \<open>A literal made of its parts.\<close>

lemma number_parts:
  assumes ip: "list_all isDigit ip" "ip \<noteq> []" "ip = ''0'' \<or> hd ip \<noteq> CHR ''0''"
    and fp: "list_all isDigit fp" and ends: "numberEnds t"
    and ex: "et = [] \<and> ex = 0 \<or> (\<exists>n. et = CHR ''e'' # (if 0 \<le> n then ''+'' else []) @ itoa n \<and> ex = n \<and> \<bar>n\<bar> < 100000)"
    and val: "ParseFloat neg ip fp ex = Some f"
  shows "number ((if neg then ''-'' else []) @ ip @ (if fp = [] then [] else CHR ''.'' # fp) @ et @ t) = Inr (JNumber f, t)"
proof -
  have e: "expPart (et @ t) = Inr (ex, t)" using ex expPart_none [OF ends] expPart_text [OF _ ends] by auto
  have nd: "et @ t = [] \<or> (\<not> isDigit (hd (et @ t)) \<and> hd (et @ t) \<noteq> CHR ''.'')"
    using ex ends by (auto simp: numberEnds_def isDigit_def)
  have fr: "fracPart ((if fp = [] then [] else CHR ''.'' # fp) @ et @ t) = Inr (fp, et @ t)"
    using fracPart_none [of "et @ t"] fracPart_digits [OF fp, of "et @ t"] nd by auto
  have ndf: "(if fp = [] then [] else CHR ''.'' # fp) @ et @ t = [] \<or>
    \<not> isDigit (hd ((if fp = [] then [] else CHR ''.'' # fp) @ et @ t))"
    using nd by (auto simp: isDigit_def)
  have i: "intPart (ip @ (if fp = [] then [] else CHR ''.'' # fp) @ et @ t) =
    Inr (ip, (if fp = [] then [] else CHR ''.'' # fp) @ et @ t)"
    by (rule intPart_digits [OF ip ndf])
  obtain c r where c: "ip = c # r" using ip(2) by (cases ip) auto
  then have "c \<noteq> CHR ''-''" using ip(1) isDigit_not by auto
  then show ?thesis using i fr e val c by (cases neg) (simp_all add: number_def)
qed

subsection \<open>The layouts\<close>

lemma doubleOfRat_range:
  assumes "doubleOfRat neg x = Some f" "0 < x"
  shows "x < pow 2 1025"
proof (rule ccontr)
  assume "\<not> x < pow 2 1025"
  then have "pow 2 1025 \<le> x" by simp
  also have "x < pow 2 (log2Floor x + 1)" using log2Floor_bounds [OF assms(2)] by simp
  finally have "1025 \<le> log2Floor x" by (simp add: pow_less_iff)
  then have "max (- 1074) (log2Floor x - 52) > 971" by simp
  then show False using assms by (auto simp: doubleOfRat_def Let_def split: if_splits)
qed

lemma natDigits_lower: "0 < n \<Longrightarrow> 10 ^ (length (natDigits n) - 1) \<le> n"
proof (induction n rule: natDigits.induct)
  case (1 n)
  show ?case
  proof (cases "n < 10")
    case True
    then show ?thesis using 1(2) by (subst natDigits.simps) simp
  next
    case False
    then have ih: "10 ^ (length (natDigits (n div 10)) - 1) \<le> n div 10" using 1(1) by simp
    have l: "length (natDigits n) = Suc (length (natDigits (n div 10)))"
      using False by (subst natDigits.simps) simp
    obtain k where k: "length (natDigits (n div 10)) = Suc k" by (cases "natDigits (n div 10)") auto
    have "10 * 10 ^ k \<le> 10 * (n div 10)" using ih k by simp
    also have "\<dots> \<le> n" by simp
    finally show ?thesis unfolding l k by simp
  qed
qed

lemma pow_mono_base: "0 \<le> n \<Longrightarrow> pow 2 n \<le> pow 10 n"
  by (simp add: pow_def power_mono)

lemma shortest_exponent:
  assumes "canonicalDouble f" "magnitude f \<noteq> 0" "shortestDecimal f = (d, p)"
  shows "- 1100 < p + int (length (itoa d)) - 1 \<and> p + int (length (itoa d)) - 1 < 1025"
proof -
  have d: "0 < d" "doubleOfRat (fst f) (of_int d * pow 10 p) = Some f"
    using shortestDecimal_readsBack [OF assms] by auto
  let ?k = "length (natDigits (nat d))"
  have k: "0 < ?k" by simp
  have q: "- 1075 \<le> q" if "shortestFrom f p' = (d', q)" "- 1074 \<le> p'" for p' q d'
    using that(2,1)
  proof (induction p' rule: int_ge_induct)
    case base
    then show ?case using decimalAt_least [OF assms(1,2)]
      by (auto simp: shortestFrom.simps [of f "- 1074"] split: option.splits)
  next
    case (step i)
    then show ?case by (auto simp: shortestFrom.simps [of f "i + 1"] split: option.splits)
  qed
  have "- 1075 \<le> p" using q assms(3) by (simp add: shortestDecimal_def)
  moreover have "p + int ?k - 1 < 1025"
  proof (rule ccontr)
    assume "\<not> p + int ?k - 1 < 1025"
    then have big: "1025 \<le> int (?k - 1) + p" using k by linarith
    have "10 ^ (?k - 1) \<le> nat d" using natDigits_lower [of "nat d"] d(1) by simp
    then have "int (10 ^ (?k - 1)) \<le> d" using d(1) by linarith
    then have "(of_int (int (10 ^ (?k - 1))) :: rat) \<le> of_int d" by (simp only: of_int_le_iff)
    then have "pow 10 (int (?k - 1)) \<le> of_int d" by (simp add: pow_nat)
    then have "pow 10 (int (?k - 1)) * pow 10 p \<le> of_int d * pow 10 p"
      using pow_pos [of 10 p] by (intro mult_right_mono) simp_all
    then have "pow 10 (int (?k - 1) + p) \<le> of_int d * pow 10 p" by (simp add: pow_add)
    moreover have "pow 2 1025 \<le> pow 2 (int (?k - 1) + p)" using big by (simp only: pow_mono_iff)
    moreover have "pow 2 (int (?k - 1) + p) \<le> pow 10 (int (?k - 1) + p)" using big by (intro pow_mono_base) simp
    moreover have "of_int d * pow 10 p < pow 2 1025"
      using doubleOfRat_range [OF d(2)] d(1) pow_pos [of 10 p] by simp
    ultimately show False by linarith
  qed
  ultimately show ?thesis using d(1) k by (simp add: itoa_pos)
qed

lemma ParseFloat_digits:
  assumes "0 < d" "digitsVal 0 (ip @ fp) = nat d * 10 ^ j" "ex - int (length fp) + int j = p"
  shows "ParseFloat neg ip fp ex = doubleOfRat neg (of_int d * pow 10 p)"
proof -
  have "of_nat (nat d * 10 ^ j) * pow 10 (ex - int (length fp)) = (of_int d :: rat) * (pow 10 (int j) * pow 10 (ex - int (length fp)))"
    using assms(1) by (simp add: pow_nat)
  also have "pow 10 (int j) * pow 10 (ex - int (length fp)) = pow 10 p"
    using pow_add [of 10 "int j" "ex - int (length fp)"] assms(3) by (simp add: add.commute)
  finally show ?thesis by (simp add: ParseFloat_def assms(2))
qed

definition normNumber :: "double \<Rightarrow> double" where
  "normNumber f = (if magnitude f = 0 then (False, 0, - 1074) else f)"

lemma number_written:
  assumes "canonicalDouble f" "numberEnds t"
  shows "number (FormatNumberES6 f @ t) = Inr (JNumber (normNumber f), t)"
proof (cases "magnitude f = 0")
  case True
  have "ParseFloat False ''0'' [] 0 = Some (False, 0, - 1074)" by (simp add: ParseFloat_def doubleOfRat_def)
  from number_parts [OF _ _ _ _ assms(2) _ this, where et = "[]"] True show ?thesis
    by (simp add: FormatNumberES6_def normNumber_def isDigit_def)
next
  case False
  obtain d p where dp: "shortestDecimal f = (d, p)" by (cases "shortestDecimal f")
  have d: "0 < d" "doubleOfRat (fst f) (of_int d * pow 10 p) = Some f"
    using shortestDecimal_readsBack [OF assms(1) False dp] by auto
  define ds where "ds = natDigits (nat d)"
  have dig: "list_all isDigit ds" "ds \<noteq> []" "digitsVal 0 ds = nat d" "hd ds \<noteq> CHR ''0''" "itoa d = ds"
    using natDigits_isDigit natDigits_val natDigits_head [of "nat d"] d(1) by (simp_all add: ds_def itoa_pos)
  define n where "n = p + int (length ds)"
  have bound: "\<bar>n - 1\<bar> < 100000"
    using shortest_exponent [OF assms(1) False dp] unfolding dig(5) n_def by linarith
  have fmt: "FormatNumberES6 f = (if fst f then ''-'' else []) @
             (if int (length ds) \<le> n \<and> n \<le> 21 then ds @ replicate (nat (n - int (length ds))) (CHR ''0'')
              else if 0 < n \<and> n \<le> 21 then take (nat n) ds @ ''.'' @ drop (nat n) ds
              else if - 6 < n \<and> n \<le> 0 then ''0.'' @ replicate (nat (- n)) (CHR ''0'') @ ds
              else take 1 ds @ (if int (length ds) > 1 then ''.'' @ drop 1 ds else []) @ ''e'' @
                (if n - 1 \<ge> 0 then ''+'' else []) @ itoa (n - 1))"
    using False dp dig(5) by (simp add: FormatNumberES6_def n_def Let_def)
  note parts = number_parts [OF _ _ _ _ assms(2)]
  have goal: "number ((if fst f then ''-'' else []) @ ip @ (if fp = [] then [] else CHR ''.'' # fp) @ et @ t) =
      Inr (JNumber f, t)"
    if "list_all isDigit ip" "ip \<noteq> []" "ip = ''0'' \<or> hd ip \<noteq> CHR ''0''" "list_all isDigit fp"
      "et = [] \<and> ex = 0 \<or> (\<exists>n. et = CHR ''e'' # (if 0 \<le> n then ''+'' else []) @ itoa n \<and> ex = n \<and> \<bar>n\<bar> < 100000)"
      "digitsVal 0 (ip @ fp) = nat d * 10 ^ j" "ex - int (length fp) + int j = p" for ip fp et ex j
    using parts [OF that(1-5)] ParseFloat_digits [OF d(1) that(6,7)] d(2) by simp
  have nn: "normNumber f = f" using False by (simp add: normNumber_def)
  consider (whole) "int (length ds) \<le> n" "n \<le> 21"
    | (point) "\<not> int (length ds) \<le> n" "0 < n" "n \<le> 21"
    | (small) "\<not> int (length ds) \<le> n" "- 6 < n" "n \<le> 0"
    | (sci) "\<not> (int (length ds) \<le> n \<and> n \<le> 21)" "\<not> (0 < n \<and> n \<le> 21)" "\<not> (- 6 < n \<and> n \<le> 0)"
    by linarith
  then show ?thesis
  proof cases
    case whole
    let ?j = "nat (n - int (length ds))"
    have "number ((if fst f then ''-'' else []) @ (ds @ replicate ?j (CHR ''0'')) @
        (if ([] :: string) = [] then [] else CHR ''.'' # []) @ [] @ t) = Inr (JNumber f, t)"
      using dig whole by (intro goal [where ex = 0 and j = ?j])
        (auto simp: list_all_iff isDigit_def digitsVal_append digitsVal_zeros hd_append n_def)
    then show ?thesis using whole unfolding fmt nn by simp
  next
    case point
    have len: "length (drop (nat n) ds) = length ds - nat n" "drop (nat n) ds \<noteq> []" "take (nat n) ds \<noteq> []"
      using point dig(2) by auto
    have "number ((if fst f then ''-'' else []) @ take (nat n) ds @
        (if drop (nat n) ds = [] then [] else CHR ''.'' # drop (nat n) ds) @ [] @ t) = Inr (JNumber f, t)"
      using dig point len by (intro goal [where ex = 0 and j = 0])
        (auto simp: list_all_iff hd_take n_def dest: in_set_takeD in_set_dropD)
    then show ?thesis using point len unfolding fmt nn by simp
  next
    case small
    let ?z = "replicate (nat (- n)) (CHR ''0'')"
    have "number ((if fst f then ''-'' else []) @ ''0'' @ (if ?z @ ds = [] then [] else CHR ''.'' # ?z @ ds) @ [] @ t) =
        Inr (JNumber f, t)"
      using dig small by (intro goal [where ex = 0 and j = 0])
        (auto simp: list_all_iff isDigit_def digitsVal_append digitsVal_zeros n_def)
    then show ?thesis using small dig(2) unfolding fmt nn by simp
  next
    case sci
    obtain c r where c: "ds = c # r" using dig(2) by (cases ds) auto
    have "number ((if fst f then ''-'' else []) @ [c] @ (if r = [] then [] else CHR ''.'' # r) @
        (CHR ''e'' # (if 0 \<le> n - 1 then ''+'' else []) @ itoa (n - 1)) @ t) = Inr (JNumber f, t)"
      using dig bound c by (intro goal [where ex = "n - 1" and j = 0]) (auto simp: n_def)
    then show ?thesis using sci c unfolding fmt nn by (cases "r = []") auto
  qed
qed

end
