(* ===== verification/JsonReader.thy ===== *)
theory JsonReader
  imports JsonNumber
begin

section \<open>Correctness of canonical JSON\<close>

text \<open>
  The reader always ends with a verdict on the text (the recursion bound of \<open>parseJSON\<close> is
  never reached), what it accepts is well formed, and reading what the writer wrote gives the
  value back with its members in canonical order.
\<close>

subsection \<open>Every reader consumes input\<close>

lemma dropWhile_shorter: "length (dropWhile P s) \<le> length s"
  by (induction s) auto

lemma skipWS_shorter: "length (skipWS s) \<le> length s"
  by (simp add: skipWS_def dropWhile_shorter)

lemma dropWhile_digits: "takeWhile isDigit s \<noteq> [] \<Longrightarrow> length (dropWhile isDigit s) < length s"
  by (cases s) (auto simp: dropWhile_shorter le_imp_less_Suc split: if_splits)

lemma intPart_shrinks: "intPart s = Inr (ip, t) \<Longrightarrow> length t < length s"
  by (cases s) (auto simp: intPart_def dropWhile_shorter le_imp_less_Suc split: if_splits)

lemma fracPart_shrinks: "fracPart s = Inr (fp, t) \<Longrightarrow> length t \<le> length s"
  by (cases s) (auto simp: fracPart_def intro: le_trans [OF dropWhile_shorter] split: if_splits)

lemma expPart_shrinks: "expPart s = Inr (ex, t) \<Longrightarrow> length t \<le> length s"
  by (cases s; cases "tl s")
     (auto simp: expPart_def Let_def intro: le_trans [OF dropWhile_shorter] split: if_splits)

lemma number_shrinks: "number s = Inr (v, t) \<Longrightarrow> length t < length s"
  by (cases s)
     (auto simp: number_def bindR_Inr_iff split: if_splits option.splits
       dest!: intPart_shrinks fracPart_shrinks expPart_shrinks)

lemma literal_shrinks: "literal w v s = Inr (u, t) \<Longrightarrow> w \<noteq> [] \<Longrightarrow> length t < length s"
  using prefix_length_le [of w s] by (cases w) (auto simp: literal_def hasPrefix_def split: if_splits)

lemma stringBody_shrinks: "stringBody acc s = Inr (k, t) \<Longrightarrow> length t < length s"
proof (induction acc s rule: stringBody.induct)
  case (1 acc s)
  show ?case
  proof (cases "s \<noteq> [] \<and> hd s = CHR 0x22")
    case True
    then show ?thesis using 1(2) by (auto simp: stringBody.simps [of acc s])
  next
    case False
    then obtain p r where "stringPiece s = Inr (p, r)" "stringBody (acc @ p) r = Inr (k, t)"
      using 1(2) by (auto simp: stringBody.simps [of acc s] bindR_Inr_iff)
    then show ?thesis using 1(1) False stringPiece_shrinks by fastforce
  qed
qed

subsection \<open>The recursion bound\<close>

lemma bindR_Inl_iff: "bindR r f = Inl e \<longleftrightarrow> r = Inl e \<or> (\<exists>x. r = Inr x \<and> f x = Inl e)"
  by (cases r) auto

lemma parts_not_fuel:
  "intPart s \<noteq> Inl OutOfFuel" "fracPart s \<noteq> Inl OutOfFuel" "expPart s \<noteq> Inl OutOfFuel"
  "hex4 s \<noteq> Inl OutOfFuel"
  by (auto simp: intPart_def fracPart_def split: list.splits if_splits)
     (auto simp: expPart_def hex4_def Let_def split: list.splits if_splits option.splits prod.splits)

lemma number_not_fuel: "number s \<noteq> Inl OutOfFuel"
  using parts_not_fuel
  by (auto simp: number_def bindR_Inl_iff split: list.splits if_splits option.splits prod.splits)

lemma literal_not_fuel: "literal w v s \<noteq> Inl OutOfFuel"
  by (simp add: literal_def)

lemma unicodeEscape_not_fuel: "unicodeEscape s \<noteq> Inl OutOfFuel"
  using parts_not_fuel(4) by (auto simp: unicodeEscape_def bindR_Inl_iff split: if_splits)

lemma stringPiece_not_fuel: "stringPiece s \<noteq> Inl OutOfFuel"
proof (cases s)
  case (Cons c r)
  have u: "bindR (unicodeEscape t) (\<lambda>(cp, r''). Inr (encodeRune cp, r'')) \<noteq> Inl OutOfFuel" for t
    using unicodeEscape_not_fuel [of t] by (cases "unicodeEscape t") auto
  show ?thesis
  proof (cases "c = CHR 0x5C")
    case True
    show ?thesis
    proof (cases r)
      case (Cons e r')
      show ?thesis using \<open>s = c # r\<close> True Cons u [of r'] by (cases "simpleEscape e") (simp_all add: stringPiece_def)
    qed (use Cons True in \<open>simp add: stringPiece_def\<close>)
  next
    case False
    then show ?thesis using Cons by (cases "decodeRune s") (auto simp: stringPiece_def)
  qed
qed (simp add: stringPiece_def)

lemma stringBody_not_fuel: "stringBody acc s \<noteq> Inl OutOfFuel"
proof (induction acc s rule: stringBody.induct)
  case (1 acc s)
  show ?case
  proof (cases "stringPiece s")
    case (Inl e)
    then show ?thesis using stringPiece_not_fuel [of s] by (simp add: stringBody.simps [of acc s])
  next
    case (Inr pr)
    obtain p r where "pr = (p, r)" by (cases pr)
    then show ?thesis using 1 Inr by (auto simp: stringBody.simps [of acc s])
  qed
qed

lemma bindR_not_Inl:
  "r \<noteq> Inl e \<Longrightarrow> (\<And>x. r = Inr x \<Longrightarrow> f x \<noteq> Inl e) \<Longrightarrow> bindR r f \<noteq> Inl e"
  by (cases r) auto

lemma skipWS_Cons: "skipWS s = c # r \<Longrightarrow> length r < length s"
  using skipWS_shorter [of s] by simp

text \<open>One unfolding of each reader, by what it finds first.\<close>

lemma jvalue_unfold:
  assumes "d \<le> maxJSONDepth"
  shows "jvalue (Suc n) d (c # r) =
    (if c = CHR ''{'' then
       (if \<exists>t. skipWS r = CHR ''}'' # t then Inr (JObject [], tl (skipWS r)) else jmembers n d [] (skipWS r))
     else if c = CHR ''['' then
       (if \<exists>t. skipWS r = CHR '']'' # t then Inr (JArray [], tl (skipWS r)) else jelements n d [] (skipWS r))
     else if c = CHR 0x22 then bindR (stringBody [] r) (\<lambda>(str, r). Inr (JString str, r))
     else if c = CHR ''t'' then literal ''true'' (JBool True) (c # r)
     else if c = CHR ''f'' then literal ''false'' (JBool False) (c # r)
     else if c = CHR ''n'' then literal ''null'' JNull (c # r)
     else if c = CHR ''-'' \<or> isDigit c then number (c # r)
     else Inl UnexpectedCharacter)"
  using assms by (cases "skipWS r") (simp_all add: Let_def not_less)

lemma jvalue_scalar:
  assumes "c \<noteq> CHR ''{''" "c \<noteq> CHR ''[''" "d \<le> maxJSONDepth"
  shows "jvalue (Suc m) d (c # r) = jvalue (Suc n) d (c # r)"
  using assms by (simp only: jvalue_unfold if_False)

lemma jvalue_scalar_verdict:
  assumes "c \<noteq> CHR ''{''" "c \<noteq> CHR ''[''" "d \<le> maxJSONDepth"
  shows "jvalue (Suc n) d (c # r) \<noteq> Inl OutOfFuel"
    and "jvalue (Suc n) d (c # r) = Inr (v, t) \<Longrightarrow> length t < length (c # r)"
proof -
  have s: "bindR (stringBody [] r) (\<lambda>(str, r). Inr (JString str, r)) \<noteq> Inl OutOfFuel"
    using stringBody_not_fuel [of "[]" r] by (cases "stringBody [] r") auto
  show "jvalue (Suc n) d (c # r) \<noteq> Inl OutOfFuel"
    using assms s literal_not_fuel number_not_fuel by (simp only: jvalue_unfold if_False split: if_split) simp
  have t: "length t < length (c # r)" if "bindR (stringBody [] r) (\<lambda>(str, r). Inr (JString str, r)) = Inr (v, t)"
    using that stringBody_shrinks [of "[]" r] by (auto simp: bindR_Inr_iff)
  show "length t < length (c # r)" if "jvalue (Suc n) d (c # r) = Inr (v, t)"
    using that assms t literal_shrinks [of _ _ "c # r" v t] number_shrinks [of "c # r" v t]
    by (simp only: jvalue_unfold if_False split: if_split_asm) (force simp: split: if_split_asm)+
qed

lemma jelements_Inr:
  "jelements (Suc n) d vs s = Inr (v, t) \<longleftrightarrow>
    (\<exists>w s' c r. jvalue n (d + 1) (skipWS s) = Inr (w, s') \<and> skipWS s' = c # r \<and>
      (c = CHR '','' \<and> jelements n d (vs @ [w]) r = Inr (v, t) \<or>
       c = CHR '']'' \<and> v = JArray (vs @ [w]) \<and> t = r))"
proof (cases "jvalue n (d + 1) (skipWS s)")
  case (Inr x)
  obtain w s' where x: "x = (w, s')" by (cases x)
  show ?thesis
  proof (cases "skipWS s'")
    case (Cons c r)
    then show ?thesis using Inr x by (cases "c = CHR '',''"; cases "c = CHR '']''") auto
  qed (use Inr x in simp)
qed simp

lemma jmembers_Inr:
  "jmembers (Suc n) d ms s = Inr (v, t) \<longleftrightarrow>
    (\<exists>q k s1 q2 w s2 c r. skipWS s = CHR 0x22 # q \<and> stringBody [] q = Inr (k, s1) \<and> k \<notin> fst ` set ms \<and>
      skipWS s1 = CHR '':'' # q2 \<and> jvalue n (d + 1) (skipWS q2) = Inr (w, s2) \<and> skipWS s2 = c # r \<and>
      (c = CHR '','' \<and> jmembers n d (ms @ [(k, w)]) r = Inr (v, t) \<or>
       c = CHR ''}'' \<and> v = JObject (ms @ [(k, w)]) \<and> t = r))"
proof (cases "\<exists>q k s1 q2 w s2 c r. skipWS s = CHR 0x22 # q \<and> stringBody [] q = Inr (k, s1) \<and> k \<notin> fst ` set ms \<and>
      skipWS s1 = CHR '':'' # q2 \<and> jvalue n (d + 1) (skipWS q2) = Inr (w, s2) \<and> skipWS s2 = c # r")
  case True
  then obtain q k s1 q2 w s2 c r where
    e: "skipWS s = CHR 0x22 # q" "stringBody [] q = Inr (k, s1)" "k \<notin> fst ` set ms" "skipWS s1 = CHR '':'' # q2"
      "jvalue n (d + 1) (skipWS q2) = Inr (w, s2)" "skipWS s2 = c # r" by blast
  show ?thesis
    by (cases "c = CHR '',''"; cases "c = CHR ''}''") (use e in auto)
next
  case False
  have "jmembers (Suc n) d ms s \<noteq> Inr (v, t)"
  proof
    assume a: "jmembers (Suc n) d ms s = Inr (v, t)"
    obtain q where q: "skipWS s = CHR 0x22 # q" using a by (cases "skipWS s") (auto split: if_splits)
    obtain k s1 where k: "stringBody [] q = Inr (k, s1)" using a q by (cases "stringBody [] q") auto
    have nk: "k \<notin> fst ` set ms" using a q k by (auto split: if_splits)
    obtain q2 where q2: "skipWS s1 = CHR '':'' # q2"
      using a q k nk by (cases "skipWS s1") (auto split: if_splits)
    obtain w s2 where w: "jvalue n (d + 1) (skipWS q2) = Inr (w, s2)"
      using a q k nk q2 by (cases "jvalue n (d + 1) (skipWS q2)") auto
    obtain c r where "skipWS s2 = c # r" using a q k nk q2 w by (cases "skipWS s2") auto
    with False q k nk q2 w show False by blast
  qed
  then show ?thesis using False by blast
qed

text \<open>A reader that succeeds has consumed at least one byte.\<close>

lemma reader_shrinks:
  "(jvalue n d s = Inr (v, t) \<longrightarrow> length t < length s) \<and>
   (jelements n d vs s = Inr (v, t) \<longrightarrow> length t < length s) \<and>
   (jmembers n d ms s = Inr (v, t) \<longrightarrow> length t < length s)"
proof (induction n arbitrary: d s vs ms v t)
  case 0
  show ?case by simp
next
  case (Suc n)
  have E: "length t < length s" if "jelements (Suc n) d vs s = Inr (v, t)"
  proof -
    from that obtain w s' c r where "jvalue n (d + 1) (skipWS s) = Inr (w, s')" "skipWS s' = c # r"
      "jelements n d (vs @ [w]) r = Inr (v, t) \<or> t = r" unfolding jelements_Inr by blast
    then have "length s' < length (skipWS s)" "length r < length s'" "length t \<le> length r"
      using Suc [of "d + 1" "skipWS s" w s'] Suc [of d r] skipWS_Cons by (blast, blast, fastforce)
    then show ?thesis using skipWS_shorter [of s] by linarith
  qed
  have M: "length t < length s" if m: "jmembers (Suc n) d ms s = Inr (v, t)"
  proof -
    from m obtain q k s1 q2 w s2 c r where
      1: "skipWS s = CHR 0x22 # q" "stringBody [] q = Inr (k, s1)" "skipWS s1 = CHR '':'' # q2"
      "jvalue n (d + 1) (skipWS q2) = Inr (w, s2)" "skipWS s2 = c # r"
      "jmembers n d (ms @ [(k, w)]) r = Inr (v, t) \<or> t = r" unfolding jmembers_Inr by blast
    have "length q < length s" "length s1 < length q" "length q2 < length s1" "length (skipWS q2) \<le> length q2"
      "length s2 < length (skipWS q2)" "length r < length s2"
      using skipWS_Cons [OF 1(1)] stringBody_shrinks [OF 1(2)] skipWS_Cons [OF 1(3)] skipWS_shorter
        Suc [of "d + 1" "skipWS q2" w s2] 1(4) skipWS_Cons [OF 1(5)] by blast+
    moreover have "length t \<le> length r" using 1(6) Suc [of d r] by fastforce
    ultimately show ?thesis by linarith
  qed
  have V: "length t < length s" if j: "jvalue (Suc n) d s = Inr (v, t)"
  proof -
    have d: "d \<le> maxJSONDepth" and "s \<noteq> []" using j by (auto split: if_splits list.splits)
    then obtain c r where s: "s = c # r" by (cases s) auto
    consider (obj) "c = CHR ''{''" | (arr) "c = CHR ''[''" | (scalar) "c \<noteq> CHR ''{''" "c \<noteq> CHR ''[''" by blast
    then show ?thesis
    proof cases
      case obj
      then have "(\<exists>u. skipWS r = CHR ''}'' # u) \<and> t = tl (skipWS r) \<or> jmembers n d [] (skipWS r) = Inr (v, t)"
        using j unfolding s jvalue_unfold [OF d] by (auto split: if_splits)
      then have "length t \<le> length (skipWS r)" using Suc [of d "skipWS r"] by fastforce
      then show ?thesis using skipWS_shorter [of r] s by simp
    next
      case arr
      then have "(\<exists>u. skipWS r = CHR '']'' # u) \<and> t = tl (skipWS r) \<or> jelements n d [] (skipWS r) = Inr (v, t)"
        using j unfolding s jvalue_unfold [OF d] by (auto split: if_splits)
      then have "length t \<le> length (skipWS r)" using Suc [of d "skipWS r"] by fastforce
      then show ?thesis using skipWS_shorter [of r] s by simp
    next
      case scalar
      then show ?thesis using j jvalue_scalar_verdict(2) [OF _ _ d] unfolding s by blast
    qed
  qed
  show ?case using V E M by blast
qed

text \<open>Where a reader that ran out of recursion did so.\<close>

lemma jvalue_fuel:
  assumes "jvalue (Suc n) d s = Inl OutOfFuel"
  shows "\<exists>c r. s = c # r \<and> (jmembers n d [] (skipWS r) = Inl OutOfFuel \<or> jelements n d [] (skipWS r) = Inl OutOfFuel)"
proof -
  have d: "d \<le> maxJSONDepth" and "s \<noteq> []" using assms by (auto split: if_splits list.splits)
  then obtain c r where s: "s = c # r" by (cases s) auto
  show ?thesis
  proof (cases "c = CHR ''{'' \<or> c = CHR ''[''")
    case True
    then show ?thesis using assms unfolding s jvalue_unfold [OF d] by (auto split: if_splits)
  next
    case False
    then show ?thesis using assms jvalue_scalar_verdict(1) [OF _ _ d] unfolding s by blast
  qed
qed

lemma jelements_fuel:
  assumes "jelements (Suc n) d vs s = Inl OutOfFuel"
  shows "jvalue n (d + 1) (skipWS s) = Inl OutOfFuel \<or>
    (\<exists>w s' c r. jvalue n (d + 1) (skipWS s) = Inr (w, s') \<and> skipWS s' = c # r \<and>
      jelements n d (vs @ [w]) r = Inl OutOfFuel)"
proof (cases "jvalue n (d + 1) (skipWS s)")
  case (Inr x)
  obtain w s' where x: "x = (w, s')" by (cases x)
  show ?thesis using assms Inr x by (cases "skipWS s'") (auto split: if_splits)
qed (use assms in simp)

lemma jmembers_fuel:
  assumes "jmembers (Suc n) d ms s = Inl OutOfFuel"
  shows "\<exists>q k s1 q2. skipWS s = CHR 0x22 # q \<and> stringBody [] q = Inr (k, s1) \<and> skipWS s1 = CHR '':'' # q2 \<and>
    (jvalue n (d + 1) (skipWS q2) = Inl OutOfFuel \<or>
     (\<exists>w s2 c r. jvalue n (d + 1) (skipWS q2) = Inr (w, s2) \<and> skipWS s2 = c # r \<and>
        jmembers n d (ms @ [(k, w)]) r = Inl OutOfFuel))"
proof -
  obtain q where q: "skipWS s = CHR 0x22 # q" using assms by (cases "skipWS s") (auto split: if_splits)
  obtain k s1 where k: "stringBody [] q = Inr (k, s1)"
    using assms q stringBody_not_fuel [of "[]" q] by (cases "stringBody [] q") auto
  have nk: "k \<notin> fst ` set ms" using assms q k by (auto split: if_splits)
  obtain q2 where q2: "skipWS s1 = CHR '':'' # q2"
    using assms q k nk by (cases "skipWS s1") (auto split: if_splits)
  show ?thesis
  proof (cases "jvalue n (d + 1) (skipWS q2)")
    case (Inl e)
    then show ?thesis using assms q k nk q2 by auto
  next
    case (Inr x)
    obtain w s2 where x: "x = (w, s2)" by (cases x)
    obtain c r where "skipWS s2 = c # r" using assms q k nk q2 Inr x by (cases "skipWS s2") auto
    then show ?thesis using assms q k nk q2 Inr x by (auto split: if_splits)
  qed
qed

text \<open>The bounds are enough.\<close>

lemma reader_fuel:
  "(2 * length s + 1 \<le> n \<longrightarrow> jvalue n d s \<noteq> Inl OutOfFuel) \<and>
   (2 * length s + 2 \<le> n \<longrightarrow> jelements n d vs s \<noteq> Inl OutOfFuel \<and> jmembers n d ms s \<noteq> Inl OutOfFuel)"
proof (induction n arbitrary: d s vs ms)
  case 0
  show ?case by simp
next
  case (Suc n)
  have V: "jvalue n d s \<noteq> Inl OutOfFuel" if "2 * length s + 1 \<le> n" for d s using Suc that by blast
  have E: "jelements n d vs s \<noteq> Inl OutOfFuel" "jmembers n d ms s \<noteq> Inl OutOfFuel"
    if "2 * length s + 2 \<le> n" for d s vs ms using Suc that by blast+
  have 1: "jvalue (Suc n) d s \<noteq> Inl OutOfFuel" if le: "2 * length s + 1 \<le> Suc n"
  proof
    assume "jvalue (Suc n) d s = Inl OutOfFuel"
    from jvalue_fuel [OF this] obtain c r where "s = c # r"
      "jmembers n d [] (skipWS r) = Inl OutOfFuel \<or> jelements n d [] (skipWS r) = Inl OutOfFuel" by blast
    moreover from this(1) have "2 * length (skipWS r) + 2 \<le> n" using le skipWS_shorter [of r] by simp
    ultimately show False using E by blast
  qed
  have 2: "jelements (Suc n) d vs s \<noteq> Inl OutOfFuel" if le: "2 * length s + 2 \<le> Suc n"
  proof
    assume "jelements (Suc n) d vs s = Inl OutOfFuel"
    moreover have "2 * length (skipWS s) + 1 \<le> n" using le skipWS_shorter [of s] by simp
    ultimately obtain w s' c r where "jvalue n (d + 1) (skipWS s) = Inr (w, s')" "skipWS s' = c # r"
      and out: "jelements n d (vs @ [w]) r = Inl OutOfFuel" using jelements_fuel V by blast
    then have "length s' < length (skipWS s)" "length r < length s'"
      using reader_shrinks skipWS_Cons by blast+
    then have "2 * length r + 2 \<le> n" using le skipWS_shorter [of s] by linarith
    then show False using out E(1) by blast
  qed
  have 3: "jmembers (Suc n) d ms s \<noteq> Inl OutOfFuel" if le: "2 * length s + 2 \<le> Suc n"
  proof
    assume "jmembers (Suc n) d ms s = Inl OutOfFuel"
    from jmembers_fuel [OF this] obtain q k s1 q2 where
      q: "skipWS s = CHR 0x22 # q" "stringBody [] q = Inr (k, s1)" "skipWS s1 = CHR '':'' # q2"
      and out: "jvalue n (d + 1) (skipWS q2) = Inl OutOfFuel \<or>
        (\<exists>w s2 c r. jvalue n (d + 1) (skipWS q2) = Inr (w, s2) \<and> skipWS s2 = c # r \<and>
        jmembers n d (ms @ [(k, w)]) r = Inl OutOfFuel)" by blast
    have len: "length (skipWS q2) < length s"
      using skipWS_Cons [OF q(1)] stringBody_shrinks [OF q(2)] skipWS_Cons [OF q(3)] skipWS_shorter [of q2]
      by linarith
    then have "2 * length (skipWS q2) + 1 \<le> n" using le by linarith
    with out V obtain w s2 c r where "jvalue n (d + 1) (skipWS q2) = Inr (w, s2)" "skipWS s2 = c # r"
      and out: "jmembers n d (ms @ [(k, w)]) r = Inl OutOfFuel" by blast
    then have "length s2 < length (skipWS q2)" "length r < length s2"
      using reader_shrinks skipWS_Cons by blast+
    then have "2 * length r + 2 \<le> n" using le len by linarith
    then show False using out E(2) by blast
  qed
  show ?case using 1 2 3 by blast
qed

text \<open>More recursion does not change a verdict.\<close>

lemma reader_mono:
  "(jvalue n d s = Inl OutOfFuel \<or> jvalue (Suc n) d s = jvalue n d s) \<and>
   (jelements n d vs s = Inl OutOfFuel \<or> jelements (Suc n) d vs s = jelements n d vs s) \<and>
   (jmembers n d ms s = Inl OutOfFuel \<or> jmembers (Suc n) d ms s = jmembers n d ms s)"
proof (induction n arbitrary: d s vs ms)
  case 0
  show ?case by simp
next
  case (Suc n)
  have V: "jvalue n d s = Inl OutOfFuel \<or> jvalue (Suc n) d s = jvalue n d s"
    and E: "jelements n d vs s = Inl OutOfFuel \<or> jelements (Suc n) d vs s = jelements n d vs s"
    and M: "jmembers n d ms s = Inl OutOfFuel \<or> jmembers (Suc n) d ms s = jmembers n d ms s" for d s vs ms
    using Suc by blast+
  have 1: "jvalue (Suc n) d s = Inl OutOfFuel \<or> jvalue (Suc (Suc n)) d s = jvalue (Suc n) d s"
  proof (cases "d \<le> maxJSONDepth \<and> s \<noteq> []")
    case True
    then obtain c r where s: "s = c # r" and d: "d \<le> maxJSONDepth" by (cases s) auto
    show ?thesis unfolding s jvalue_unfold [OF d] using E [of d "[]" "skipWS r"] M [of d "[]" "skipWS r"]
      by (cases "c = CHR ''{''"; cases "c = CHR ''[''") auto
  next
    case False
    then show ?thesis by (cases s) auto
  qed
  have 2: "jelements (Suc n) d vs s = Inl OutOfFuel \<or> jelements (Suc (Suc n)) d vs s = jelements (Suc n) d vs s"
  proof (cases "jvalue n (d + 1) (skipWS s)")
    case (Inl e)
    then show ?thesis using V [of "d + 1" "skipWS s"] by (cases "e = OutOfFuel") (auto simp del: jvalue.simps)
  next
    case (Inr x)
    obtain w s' where x: "x = (w, s')" by (cases x)
    have "jvalue (Suc n) (d + 1) (skipWS s) = Inr (w, s')" using V [of "d + 1" "skipWS s"] Inr x by auto
    then show ?thesis using Inr x E [of d "vs @ [w]" "tl (skipWS s')"]
      by (cases "skipWS s'") (auto simp del: jvalue.simps simp: jelements.simps(2))
  qed
  have 3: "jmembers (Suc n) d ms s = Inl OutOfFuel \<or> jmembers (Suc (Suc n)) d ms s = jmembers (Suc n) d ms s"
  proof (cases "\<exists>q k s1 q2. skipWS s = CHR 0x22 # q \<and> stringBody [] q = Inr (k, s1) \<and> k \<notin> fst ` set ms \<and>
      skipWS s1 = CHR '':'' # q2")
    case True
    then obtain q k s1 q2 where q: "skipWS s = CHR 0x22 # q" "stringBody [] q = Inr (k, s1)"
      "k \<notin> fst ` set ms" "skipWS s1 = CHR '':'' # q2" by blast
    show ?thesis
    proof (cases "jvalue n (d + 1) (skipWS q2)")
      case (Inl e)
      then show ?thesis using q V [of "d + 1" "skipWS q2"]
        by (cases "e = OutOfFuel") (auto simp del: jvalue.simps)
    next
      case (Inr x)
      obtain w s2 where x: "x = (w, s2)" by (cases x)
      have "jvalue (Suc n) (d + 1) (skipWS q2) = Inr (w, s2)" using V [of "d + 1" "skipWS q2"] Inr x by auto
      then show ?thesis using q Inr x M [of d "ms @ [(k, w)]" "tl (skipWS s2)"]
        by (cases "skipWS s2") (auto simp del: jvalue.simps simp: jmembers.simps(2))
    qed
  next
    case False
    have "jmembers (Suc m) d ms s = jmembers (Suc n) d ms s" for m
    proof (cases "\<exists>q k s1. skipWS s = CHR 0x22 # q \<and> stringBody [] q = Inr (k, s1) \<and> k \<notin> fst ` set ms")
      case True
      then obtain q k s1 where "skipWS s = CHR 0x22 # q" "stringBody [] q = Inr (k, s1)" "k \<notin> fst ` set ms"
        by blast
      then show ?thesis using False by (cases "skipWS s1") auto
    next
      case nokey: False
      show ?thesis
      proof (cases "\<exists>q. skipWS s = CHR 0x22 # q")
        case True
        then obtain q where "skipWS s = CHR 0x22 # q" by blast
        then show ?thesis using nokey by (cases "stringBody [] q") auto
      next
        case False
        then show ?thesis by (cases "skipWS s") auto
      qed
    qed
    then show ?thesis by blast
  qed
  show ?case using 1 2 3 by blast
qed

declare jvalue.simps [simp del] jelements.simps [simp del] jmembers.simps [simp del]

lemma enough_fuel: "jvalue (2 * length data + 1) d (skipWS data) \<noteq> Inl OutOfFuel"
proof -
  have "2 * length (skipWS data) + 1 \<le> 2 * length data + 1" using skipWS_shorter [of data] by simp
  then show ?thesis using reader_fuel by blast
qed

lemma jvalue_more_fuel:
  assumes "jvalue n d s = r" "r \<noteq> Inl OutOfFuel" "n \<le> m"
  shows "jvalue m d s = r"
  using assms(3)
proof (induction m rule: dec_induct)
  case base
  then show ?case by (rule assms(1))
next
  case (step m)
  then show ?case using reader_mono [of m d s "[]" "[]"] assms(2) by auto
qed

text \<open>So a verdict reached at any depth of recursion is the verdict of \<open>parseJSON\<close>.\<close>

lemma jvalue_parseJSON:
  assumes "jvalue n 0 (skipWS data) = Inr (v, t)"
  shows "parseJSON data = (if skipWS t = [] then Inr v else Inl TrailingData)"
proof -
  let ?m = "2 * length data + 1"
  have "jvalue ?m 0 (skipWS data) \<noteq> Inl OutOfFuel" by (rule enough_fuel)
  moreover have "jvalue (max n ?m) 0 (skipWS data) = Inr (v, t)"
    using jvalue_more_fuel [OF assms] by simp
  ultimately have "jvalue ?m 0 (skipWS data) = Inr (v, t)"
    using jvalue_more_fuel [of ?m 0 "skipWS data" _ "max n ?m"] by simp
  then show ?thesis by (simp add: parseJSON_def)
qed

lemma parseJSON_verdict: "parseJSON data \<noteq> Inl OutOfFuel"
  using enough_fuel [of data 0] unfolding parseJSON_def by (auto simp: bindR_Inl_iff split: if_splits)

subsection \<open>UTF-8\<close>

definition scalar :: "nat \<Rightarrow> bool" where
  "scalar r \<longleftrightarrow> r < 0xD800 \<or> (0xDFFF < r \<and> r < 0x110000)"

lemma of_char_byte: "n < 256 \<Longrightarrow> of_char (byte n) = n"
  by (simp add: byte_def)

lemma byte_of_char: "byte (of_char c) = c"
  by (simp add: byte_def)

lemma decodeRune_encodeRune:
  assumes "scalar r"
  shows "decodeRune (encodeRune r @ t) = Some (r, length (encodeRune r))"
proof -
  have split64: "r div 64 * 64 + r mod 64 = r" "r div 4096 * 64 + r div 64 mod 64 = r div 64"
    "r div 262144 * 64 + r div 4096 mod 64 = r div 4096"
    using div_mult_mod_eq [of r 64] div_mult_mod_eq [of "r div 64" 64] div_mult_mod_eq [of "r div 4096" 64]
    unfolding div_mult2_eq [symmetric] by simp_all
  consider (1) "r < 0x80" | (2) "0x80 \<le> r" "r < 0x800" | (3) "0x800 \<le> r" "r < 0x10000"
    | (4) "0x10000 \<le> r" "r < 0x110000"
    using assms unfolding scalar_def by linarith
  then show ?thesis
  proof cases
    case 1
    then show ?thesis by (simp add: encodeRune_def decodeRune_def of_char_byte)
  next
    case 2
    then have d: "2 \<le> r div 64" "r div 64 < 32" by auto
    have "r = r div 64 * 64 + r mod 64" by simp
    then show ?thesis using 2 d
      by (simp add: encodeRune_def decodeRune_def of_char_byte cont_def)
  next
    case 3
    define a b c where abc: "a = r div 4096" "b = r div 64 mod 64" "c = r mod 64"
    have lt: "a < 16" "b < 64" "c < 64" using 3 by (auto simp: abc)
    have e: "r = a * 4096 + b * 64 + c" using split64(1,2) unfolding abc by linarith
    have "a = 0 \<Longrightarrow> 32 \<le> b" using e 3 lt by linarith
    moreover have "a = 13 \<Longrightarrow> b < 32" using e assms 3 lt unfolding scalar_def by linarith
    moreover have "encodeRune r = [byte (0xE0 + a), byte (0x80 + b), byte (0x80 + c)]"
      using 3 by (simp add: encodeRune_def abc)
    ultimately show ?thesis using e lt
      by (cases "a = 0"; cases "a = 13") (simp_all add: decodeRune_def of_char_byte cont_def between_def Let_def)
  next
    case 4
    define a b c d where abc: "a = r div 262144" "b = r div 4096 mod 64" "c = r div 64 mod 64" "d = r mod 64"
    have lt: "a < 5" "b < 64" "c < 64" "d < 64" using 4 by (auto simp: abc)
    have e: "r = a * 262144 + b * 4096 + c * 64 + d" using split64 unfolding abc by linarith
    have "a = 0 \<Longrightarrow> 16 \<le> b" using e 4 lt by linarith
    moreover have "a = 4 \<Longrightarrow> b < 16" using e 4 lt by linarith
    moreover have "encodeRune r = [byte (0xF0 + a), byte (0x80 + b), byte (0x80 + c), byte (0x80 + d)]"
      using 4 by (simp add: encodeRune_def abc)
    ultimately show ?thesis using e lt
      by (cases "a = 0"; cases "a = 4") (simp_all add: decodeRune_def of_char_byte cont_def between_def Let_def)
  qed
qed

text \<open>A decoded rune depends only on its own bytes, which are the encoding of the rune.\<close>

lemma decodeRune_prefix:
  "decodeRune s = Some (r, w) \<Longrightarrow> decodeRune (take w s @ t) = Some (r, w)"
  by (cases s; cases "tl s"; cases "tl (tl s)"; cases "tl (tl (tl s))")
     (auto simp: decodeRune_def Let_def split: if_splits)

lemma decodeRune_high:
  assumes "decodeRune s = Some (r, w)" "0x80 \<le> (of_char (hd s) :: nat)" "b \<in> set (take w s)"
  shows "0x80 \<le> (of_char b :: nat)"
  using assms
  by (cases s; cases "tl s"; cases "tl (tl s)"; cases "tl (tl (tl s))")
     (auto simp: decodeRune_def Let_def cont_def between_def split: if_splits)

function validUTF8 :: "string \<Rightarrow> bool" where
  "validUTF8 s \<longleftrightarrow> (if s = [] then True else
    (case decodeRune s of None \<Rightarrow> False | Some (r, w) \<Rightarrow> validUTF8 (drop w s)))"
  by pat_completeness auto
termination
  by (relation "measure length") (auto dest: decodeRune_width)

declare validUTF8.simps [simp del]

lemma validUTF8_Nil [simp]: "validUTF8 []"
  by (simp add: validUTF8.simps)

lemma validUTF8_rune:
  assumes "decodeRune p = Some (r, length p)"
  shows "validUTF8 (p @ s) \<longleftrightarrow> validUTF8 s"
proof -
  have "p \<noteq> []" using decodeRune_width [OF assms] by auto
  moreover have "decodeRune (p @ s) = Some (r, length p)" using decodeRune_prefix [OF assms, of s] by simp
  ultimately show ?thesis by (simp add: validUTF8.simps [of "p @ s"])
qed

lemma validUTF8_append: "validUTF8 s \<Longrightarrow> validUTF8 t \<Longrightarrow> validUTF8 (s @ t)"
proof (induction s rule: validUTF8.induct)
  case (1 s)
  show ?case
  proof (cases "s = []")
    case True
    then show ?thesis using 1 by simp
  next
    case False
    then obtain r w where d: "decodeRune s = Some (r, w)" "validUTF8 (drop w s)"
      using 1(2) by (auto simp: validUTF8.simps [of s] split: option.splits)
    have w: "w \<le> length s" using decodeRune_width [OF d(1)] by simp
    have "decodeRune (take w s) = Some (r, length (take w s))"
      using decodeRune_prefix [OF d(1), of "[]"] w by simp
    then have "validUTF8 (take w s @ drop w s @ t) \<longleftrightarrow> validUTF8 (drop w s @ t)" by (rule validUTF8_rune)
    moreover have "validUTF8 (drop w s @ t)" using 1(1) [OF False d(1) refl d(2) 1(3)] by simp
    ultimately show ?thesis by (metis append.assoc append_take_drop_id)
  qed
qed

subsection \<open>Strings\<close>

lemma hexVal_hexdigit: "k < 16 \<Longrightarrow> hexVal (hexdigit k) = Some k"
proof -
  have "\<forall>k \<in> set [0..<16]. hexVal (hexdigit k) = Some k" by code_simp
  then show "k < 16 \<Longrightarrow> hexVal (hexdigit k) = Some k" by auto
qed

lemma unicodeEscape_control:
  assumes "n < 32"
  shows "unicodeEscape (CHR ''0'' # CHR ''0'' # hexdigit (n div 16) # hexdigit (n mod 16) # t) = Inr (n, t)"
proof -
  have z: "hexVal (CHR ''0'') = Some 0" by code_simp
  have "hexVal (hexdigit (n div 16)) = Some (n div 16)" "hexVal (hexdigit (n mod 16)) = Some (n mod 16)"
    using assms by (auto intro!: hexVal_hexdigit)
  moreover have "n div 16 * 16 + n mod 16 = n" by simp
  ultimately have "hex4 (CHR ''0'' # CHR ''0'' # hexdigit (n div 16) # hexdigit (n mod 16) # t) = Inr (n, t)"
    using z by (simp add: hex4_def)
  then show ?thesis using assms by (simp add: unicodeEscape_def)
qed

lemma escapeByte_cases:
  obtains (two) e where "escapeByte c = [CHR 0x5C, e]" "simpleEscape e = Some c"
  | (control) "(of_char c :: nat) < 32"
      "escapeByte c = [CHR 0x5C, CHR ''u'', CHR ''0'', CHR ''0'', hexdigit (of_char c div 16), hexdigit (of_char c mod 16)]"
  | (plain) "escapeByte c = [c]" "32 \<le> (of_char c :: nat)" "c \<noteq> CHR 0x22" "c \<noteq> CHR 0x5C"
  by (cases "c \<in> {CHR 0x22, CHR 0x5C, CHR 0x08, CHR 0x0C, CHR 0x0A, CHR 0x0D, CHR 0x09}";
      cases "(of_char c :: nat) < 0x20")
     (auto simp: escapeByte_def simpleEscape_def)

lemma stringPiece_ascii:
  assumes "(of_char c :: nat) < 0x80"
  shows "stringPiece (escapeByte c @ t) = Inr ([c], t) \<and> escapeByte c \<noteq> [] \<and> hd (escapeByte c) \<noteq> CHR 0x22"
proof (cases rule: escapeByte_cases [of c])
  case (two e)
  then show ?thesis by (simp add: stringPiece_def)
next
  case control
  have "simpleEscape (CHR ''u'') = None" by code_simp
  moreover have "encodeRune (of_char c) = [c]" using assms by (simp add: encodeRune_def byte_of_char)
  ultimately show ?thesis using control unicodeEscape_control [OF control(1), of t]
    by (simp add: stringPiece_def)
next
  case plain
  then show ?thesis using assms by (simp add: stringPiece_def)
qed

lemma escapeByte_high: "0x80 \<le> (of_char b :: nat) \<Longrightarrow> escapeByte b = [b]"
proof (cases rule: escapeByte_cases [of b])
  case (two e)
  assume "0x80 \<le> (of_char b :: nat)"
  moreover have "b \<in> {CHR 0x22, CHR 0x5C, CHR ''/'', CHR 0x08, CHR 0x0C, CHR 0x0A, CHR 0x0D, CHR 0x09}"
    using two(2) by (auto simp: simpleEscape_def split: if_splits)
  ultimately show ?thesis by auto
qed simp_all

lemma escape_high_run:
  assumes "\<And>b. b \<in> set p \<Longrightarrow> 0x80 \<le> (of_char b :: nat)"
  shows "concat (map escapeByte p) = p"
  using assms by (induction p) (simp_all add: escapeByte_high)

lemma stringPiece_high:
  assumes "decodeRune p = Some (r, length p)" "0x80 \<le> (of_char (hd p) :: nat)"
  shows "stringPiece (p @ t) = Inr (p, t)"
proof -
  have d: "decodeRune (p @ t) = Some (r, length p)" using decodeRune_prefix [OF assms(1), of t] by simp
  obtain c q where p: "p = c # q" using decodeRune_width [OF assms(1)] by (cases p) auto
  have "c \<noteq> CHR 0x5C" using assms(2) p by auto
  then show ?thesis using d assms(2) p by (simp add: stringPiece_def)
qed

lemma stringBody_written:
  "validUTF8 s \<Longrightarrow> stringBody acc (concat (map escapeByte s) @ CHR 0x22 # t) = Inr (acc @ s, t)"
proof (induction s arbitrary: acc rule: validUTF8.induct)
  case (1 s)
  show ?case
  proof (cases "s = []")
    case True
    then show ?thesis by (simp add: stringBody.simps)
  next
    case False
    then obtain r w where d: "decodeRune s = Some (r, w)" "validUTF8 (drop w s)"
      using 1(2) by (auto simp: validUTF8.simps [of s] split: option.splits)
    let ?p = "take w s" and ?rest = "concat (map escapeByte (drop w s)) @ CHR 0x22 # t"
    have w: "0 < w" "w \<le> length s" using decodeRune_width [OF d(1)] by simp_all
    have dp: "decodeRune ?p = Some (r, length ?p)" using decodeRune_prefix [OF d(1), of "[]"] w by simp
    have IH: "stringBody (acc @ ?p) ?rest = Inr (acc @ s, t)"
      using 1(1) [OF False d(1) refl d(2), of "acc @ ?p"] by simp
    have split: "concat (map escapeByte s) @ CHR 0x22 # t = concat (map escapeByte ?p) @ ?rest"
      by (metis append.assoc append_take_drop_id concat_append map_append)
    have piece: "stringPiece (concat (map escapeByte ?p) @ ?rest) = Inr (?p, ?rest) \<and>
      concat (map escapeByte ?p) \<noteq> [] \<and> hd (concat (map escapeByte ?p)) \<noteq> CHR 0x22"
    proof (cases "(of_char (hd s) :: nat) < 0x80")
      case True
      obtain c q where s: "s = c # q" using False by (cases s) auto
      have "w = 1" using d(1) True s by (simp add: decodeRune_def)
      then have "?p = [c]" using s by simp
      then show ?thesis using stringPiece_ascii [of c ?rest] True s by simp
    next
      case False
      then have hi: "0x80 \<le> (of_char (hd s) :: nat)" by simp
      have run: "concat (map escapeByte ?p) = ?p"
        using decodeRune_high [OF d(1) hi] by (intro escape_high_run) blast
      have hd: "hd ?p = hd s" "?p \<noteq> []" using w \<open>s \<noteq> []\<close> by (cases s; cases w; simp)+
      have "hd s \<noteq> CHR 0x22" using hi by auto
      then show ?thesis using stringPiece_high [OF dp, of ?rest] hi hd run by simp
    qed
    then have "\<not> (concat (map escapeByte ?p) @ ?rest \<noteq> [] \<and> hd (concat (map escapeByte ?p) @ ?rest) = CHR 0x22)"
      by simp
    then show ?thesis unfolding split using piece IH by (subst stringBody.simps) simp
  qed
qed

text \<open>What is read is valid UTF-8.\<close>

lemma unicodeEscape_scalar: "unicodeEscape s = Inr (r, t) \<Longrightarrow> scalar r"
proof -
  have h: "hexVal c = Some x \<Longrightarrow> x < 16" for c x
    by (auto simp: hexVal_def between_def split: if_splits)
  have "hex4 s = Inr (r, t) \<Longrightarrow> r < 0x10000" for s r t
    by (auto simp: hex4_def split: list.splits option.splits dest!: h)
  then show "unicodeEscape s = Inr (r, t) \<Longrightarrow> scalar r"
    by (fastforce simp: unicodeEscape_def scalar_def bindR_Inr_iff split: if_splits)
qed

lemma stringPiece_valid: "stringPiece s = Inr (p, t) \<Longrightarrow> validUTF8 p"
proof -
  have rune: "validUTF8 p" if "decodeRune p = Some (r, length p)" for p r
    using validUTF8_rune [OF that, of "[]"] by simp
  have asc: "validUTF8 [c]" if "(of_char c :: nat) < 0x80" for c
    using rune [of "[c]"] that by (simp add: decodeRune_def)
  have enc: "validUTF8 (encodeRune r)" if "scalar r" for r
    using rune decodeRune_encodeRune [OF that, of "[]"] by simp
  have simple: "(of_char b :: nat) < 0x80" if "simpleEscape e = Some b" for e b
    using that by (auto simp: simpleEscape_def split: if_splits)
  have multi: "validUTF8 (take w u)" if "decodeRune u = Some (r, w)" for u r w
    using rune [of "take w u"] decodeRune_prefix [OF that, of "[]"] decodeRune_width [OF that] by simp
  show "stringPiece s = Inr (p, t) \<Longrightarrow> validUTF8 p"
    by (auto simp: stringPiece_def bindR_Inr_iff split: list.splits if_splits option.splits
      intro: asc enc multi dest: simple unicodeEscape_scalar)
qed

lemma stringBody_valid: "validUTF8 acc \<Longrightarrow> stringBody acc s = Inr (k, t) \<Longrightarrow> validUTF8 k"
proof (induction acc s rule: stringBody.induct)
  case (1 acc s)
  show ?case
  proof (cases "s \<noteq> [] \<and> hd s = CHR 0x22")
    case True
    then show ?thesis using 1(2,3) by (simp add: stringBody.simps [of acc s])
  next
    case False
    then obtain p r where p: "stringPiece s = Inr (p, r)" "stringBody (acc @ p) r = Inr (k, t)"
      using 1(3) by (auto simp: stringBody.simps [of acc s] bindR_Inr_iff)
    have "validUTF8 (acc @ p)" using 1(2) stringPiece_valid [OF p(1)] by (rule validUTF8_append)
    then show ?thesis using 1(1) [OF False p(1) refl _ p(2)] by simp
  qed
qed

end
