(* ===== verification/JsonProps.thy ===== *)
theory JsonProps
  imports JsonReader JsonNumber "HOL-Library.Code_Target_Nat"
begin

section \<open>Reading back what was written\<close>

text \<open>
  What the reader accepts is well formed; the writer's text of a well-formed value is read back
  as the value with its members in canonical order and its zeros unsigned; canonical text is
  therefore a fixed point of \<open>Canonicalize\<close>.
\<close>

subsection \<open>Well-formed values and their normal form\<close>

fun jsonDepth :: "json \<Rightarrow> nat" where
  "jsonDepth (JArray vs) = foldr (\<lambda>v m. max (Suc (jsonDepth v)) m) vs 0"
| "jsonDepth (JObject ms) = foldr (\<lambda>kv m. max (Suc (jsonDepth (snd kv))) m) ms 0"
| "jsonDepth _ = 0"

fun wfJson :: "json \<Rightarrow> bool" where
  "wfJson (JNumber f) = canonicalDouble f"
| "wfJson (JString s) = validUTF8 s"
| "wfJson (JArray vs) = (\<forall>v \<in> set vs. wfJson v)"
| "wfJson (JObject ms) = (distinct (map fst ms) \<and> (\<forall>kv \<in> set ms. validUTF8 (fst kv) \<and> wfJson (snd kv)))"
| "wfJson _ = True"

fun normJson :: "json \<Rightarrow> json" where
  "normJson (JNumber f) = JNumber (normNumber f)"
| "normJson (JArray vs) = JArray (map normJson vs)"
| "normJson (JObject ms) = JObject (sort_key (utf16 \<circ> fst) (map (\<lambda>(k, v). (k, normJson v)) ms))"
| "normJson v = v"

lemma foldr_max_le: "foldr (\<lambda>x m. max (f x) m) xs (0 :: nat) \<le> n \<longleftrightarrow> (\<forall>x \<in> set xs. f x \<le> n)"
  by (induction xs) auto

lemma depth_array: "d + jsonDepth (JArray vs) \<le> n \<longleftrightarrow> d \<le> n \<and> (\<forall>v \<in> set vs. d + 1 + jsonDepth v \<le> n)"
proof -
  have "d + jsonDepth (JArray vs) \<le> n \<longleftrightarrow> d \<le> n \<and> jsonDepth (JArray vs) \<le> n - d" by linarith
  also have "\<dots> \<longleftrightarrow> d \<le> n \<and> (\<forall>v \<in> set vs. Suc (jsonDepth v) \<le> n - d)" by (simp add: foldr_max_le)
  also have "\<dots> \<longleftrightarrow> d \<le> n \<and> (\<forall>v \<in> set vs. d + 1 + jsonDepth v \<le> n)" by auto
  finally show ?thesis .
qed

lemma depth_object:
  "d + jsonDepth (JObject ms) \<le> n \<longleftrightarrow> d \<le> n \<and> (\<forall>kv \<in> set ms. d + 1 + jsonDepth (snd kv) \<le> n)"
proof -
  have "d + jsonDepth (JObject ms) \<le> n \<longleftrightarrow> d \<le> n \<and> jsonDepth (JObject ms) \<le> n - d" by linarith
  also have "\<dots> \<longleftrightarrow> d \<le> n \<and> (\<forall>kv \<in> set ms. Suc (jsonDepth (snd kv)) \<le> n - d)" by (simp add: foldr_max_le)
  also have "\<dots> \<longleftrightarrow> d \<le> n \<and> (\<forall>kv \<in> set ms. d + 1 + jsonDepth (snd kv) \<le> n)" by auto
  finally show ?thesis .
qed

declare jsonDepth.simps(1,2) [simp del]

subsection \<open>What is read is well formed\<close>

lemma ParseFloat_canonical: "ParseFloat neg ip fp ex = Some f \<Longrightarrow> canonicalDouble f"
  unfolding ParseFloat_def using doubleOfRat_canonical pow_pos [of 10 "ex - int (length fp)"]
  by (metis mult_nonneg_nonneg of_nat_0_le_iff less_imp_le zero_less_numeral)

lemma number_wf: "number s = Inr (v, t) \<Longrightarrow> wfJson v \<and> jsonDepth v = 0"
  by (cases s) (auto simp: number_def bindR_Inr_iff ParseFloat_canonical split: if_splits option.splits)

lemma scalar_wf:
  assumes "jvalue (Suc n) d (c # r) = Inr (v, t)" "c \<noteq> CHR ''{''" "c \<noteq> CHR ''[''" "d \<le> maxJSONDepth"
  shows "wfJson v \<and> jsonDepth v = 0"
proof -
  have s: "wfJson v \<and> jsonDepth v = 0" if "bindR (stringBody [] r) (\<lambda>(str, r). Inr (JString str, r)) = Inr (v, t)"
    using that stringBody_valid [of "[]" r] by (auto simp: bindR_Inr_iff)
  have l: "wfJson v \<and> jsonDepth v = 0" if "literal w u x = Inr (v, t)" "wfJson u \<and> jsonDepth u = 0" for w u x
    using that by (auto simp: literal_def split: if_splits)
  show ?thesis using assms(1) unfolding jvalue_unfold [OF assms(4)]
    using assms(2,3) s l number_wf [of "c # r" v t] by (auto split: if_splits)
qed

lemma reader_wf:
  "(jvalue n d s = Inr (v, t) \<longrightarrow> wfJson v \<and> d + jsonDepth v \<le> maxJSONDepth) \<and>
   (jelements n d vs s = Inr (v, t) \<longrightarrow> d \<le> maxJSONDepth \<longrightarrow>
      (\<forall>w \<in> set vs. wfJson w \<and> d + 1 + jsonDepth w \<le> maxJSONDepth) \<longrightarrow>
      wfJson v \<and> d + jsonDepth v \<le> maxJSONDepth) \<and>
   (jmembers n d ms s = Inr (v, t) \<longrightarrow> d \<le> maxJSONDepth \<longrightarrow> distinct (map fst ms) \<longrightarrow>
      (\<forall>kv \<in> set ms. validUTF8 (fst kv) \<and> wfJson (snd kv) \<and> d + 1 + jsonDepth (snd kv) \<le> maxJSONDepth) \<longrightarrow>
      wfJson v \<and> d + jsonDepth v \<le> maxJSONDepth)"
proof (induction n arbitrary: d s vs ms v t)
  case 0
  show ?case by (simp add: jvalue.simps jelements.simps jmembers.simps)
next
  case (Suc n)
  have V: "wfJson v \<and> d + jsonDepth v \<le> maxJSONDepth" if "jvalue n d s = Inr (v, t)" for d s v t
    using Suc that by blast
  have E: "wfJson v \<and> d + jsonDepth v \<le> maxJSONDepth"
    if "jelements n d vs s = Inr (v, t)" "d \<le> maxJSONDepth"
      "\<forall>w \<in> set vs. wfJson w \<and> d + 1 + jsonDepth w \<le> maxJSONDepth" for d s vs v t
    using Suc that by blast
  have M: "wfJson v \<and> d + jsonDepth v \<le> maxJSONDepth"
    if "jmembers n d ms s = Inr (v, t)" "d \<le> maxJSONDepth" "distinct (map fst ms)"
      "\<forall>kv \<in> set ms. validUTF8 (fst kv) \<and> wfJson (snd kv) \<and> d + 1 + jsonDepth (snd kv) \<le> maxJSONDepth"
    for d s ms v t
    using Suc that by blast
  have 1: "wfJson v \<and> d + jsonDepth v \<le> maxJSONDepth" if j: "jvalue (Suc n) d s = Inr (v, t)"
  proof -
    have d: "d \<le> maxJSONDepth" and "s \<noteq> []" using j by (auto simp: jvalue.simps split: if_splits list.splits)
    then obtain c r where s: "s = c # r" by (cases s) auto
    consider (obj) "c = CHR ''{''" | (arr) "c = CHR ''[''" | (scalar) "c \<noteq> CHR ''{''" "c \<noteq> CHR ''[''" by blast
    then show ?thesis
    proof cases
      case obj
      then have "v = JObject [] \<or> jmembers n d [] (skipWS r) = Inr (v, t)"
        using j unfolding s jvalue_unfold [OF d] by (auto split: if_splits)
      then show ?thesis using M [of d "[]" "skipWS r" v t] d depth_object [of d "[]"] by auto
    next
      case arr
      then have "v = JArray [] \<or> jelements n d [] (skipWS r) = Inr (v, t)"
        using j unfolding s jvalue_unfold [OF d] by (auto split: if_splits)
      then show ?thesis using E [of d "[]" "skipWS r" v t] d depth_array [of d "[]"] by auto
    next
      case scalar
      then show ?thesis using scalar_wf [of n d c r v t] j s d by simp
    qed
  qed
  have 2: "wfJson v \<and> d + jsonDepth v \<le> maxJSONDepth"
    if j: "jelements (Suc n) d vs s = Inr (v, t)" and d: "d \<le> maxJSONDepth"
      and vs: "\<forall>w \<in> set vs. wfJson w \<and> d + 1 + jsonDepth w \<le> maxJSONDepth"
  proof -
    from j obtain w s' c r where w: "jvalue n (d + 1) (skipWS s) = Inr (w, s')"
      and "jelements n d (vs @ [w]) r = Inr (v, t) \<or> v = JArray (vs @ [w])" unfolding jelements_Inr by blast
    moreover have "\<forall>u \<in> set (vs @ [w]). wfJson u \<and> d + 1 + jsonDepth u \<le> maxJSONDepth" using V [OF w] vs by auto
    ultimately show ?thesis using E [of d "vs @ [w]" r v t] d depth_array [of d "vs @ [w]"] by auto
  qed
  have 3: "wfJson v \<and> d + jsonDepth v \<le> maxJSONDepth"
    if j: "jmembers (Suc n) d ms s = Inr (v, t)" and d: "d \<le> maxJSONDepth" and dist: "distinct (map fst ms)"
      and ms: "\<forall>kv \<in> set ms. validUTF8 (fst kv) \<and> wfJson (snd kv) \<and> d + 1 + jsonDepth (snd kv) \<le> maxJSONDepth"
  proof -
    from j obtain q k s1 q2 w s2 r where k: "stringBody [] q = Inr (k, s1)" "k \<notin> fst ` set ms"
      and w: "jvalue n (d + 1) (skipWS q2) = Inr (w, s2)"
      and res: "jmembers n d (ms @ [(k, w)]) r = Inr (v, t) \<or> v = JObject (ms @ [(k, w)])"
      unfolding jmembers_Inr by blast
    have "validUTF8 k" using stringBody_valid [OF validUTF8_Nil k(1)] .
    then have ms': "\<forall>kv \<in> set (ms @ [(k, w)]). validUTF8 (fst kv) \<and> wfJson (snd kv) \<and>
        d + 1 + jsonDepth (snd kv) \<le> maxJSONDepth" using V [OF w] ms by auto
    have dist': "distinct (map fst (ms @ [(k, w)]))" using dist k(2) by simp
    from res show ?thesis
    proof
      assume "v = JObject (ms @ [(k, w)])"
      then show ?thesis using ms' dist' d depth_object [of d "ms @ [(k, w)]" maxJSONDepth] by simp
    qed (rule M [OF _ d dist' ms'])
  qed
  show ?case using 1 2 3 by blast
qed

subsection \<open>The reader on written text\<close>

lemma number_head: "number (c # r) = Inr x \<Longrightarrow> c = CHR ''-'' \<or> isDigit c"
  by (auto simp: number_def intPart_def bindR_Inr_iff isDigit_def split: if_splits list.splits)

lemma format_head:
  assumes "canonicalDouble f"
  obtains c r where "FormatNumberES6 f = c # r" "c = CHR ''-'' \<or> isDigit c"
proof -
  have n: "number (FormatNumberES6 f) = Inr (JNumber (normNumber f), [])"
    using number_written [OF assms, of "[]"] by (simp add: numberEnds_def)
  have "number [] \<noteq> Inr x" for x by (simp add: number_def intPart_def)
  then obtain c r where "FormatNumberES6 f = c # r" using n by (cases "FormatNumberES6 f") auto
  then show thesis using that number_head n by auto
qed

lemma digit_plain: "isDigit c \<Longrightarrow> \<not> isWS c \<and> c \<noteq> CHR '']'' \<and> c \<noteq> CHR ''}''"
  by (auto simp: isWS_def isDigit_def)

lemma write_head:
  assumes "wfJson v"
  obtains c r where "writeCanonical v = c # r" "\<not> isWS c" "c \<noteq> CHR '']''" "c \<noteq> CHR ''}''"
proof (cases v)
  case (JNumber f)
  then obtain c r where "FormatNumberES6 f = c # r" "c = CHR ''-'' \<or> isDigit c"
    using assms format_head [of f] by auto
  then show thesis using that JNumber digit_plain [of c] by (auto simp: isWS_def)
next
  case (JBool b)
  then show thesis using that by (cases b) (auto simp: isWS_def)
qed (auto intro: that simp: isWS_def writeCanonicalString_def)

lemma skipWS_head [simp]: "\<not> isWS c \<Longrightarrow> skipWS (c # r) = c # r"
  by (simp add: skipWS_def)

lemma skipWS_write: "wfJson v \<Longrightarrow> skipWS (writeCanonical v @ t) = writeCanonical v @ t"
  by (rule write_head [of v]) auto

lemma jelements_more_fuel:
  assumes "jelements n d vs s = r" "r \<noteq> Inl OutOfFuel" "n \<le> m"
  shows "jelements m d vs s = r"
  using assms(3)
proof (induction m rule: dec_induct)
  case base
  then show ?case by (rule assms(1))
next
  case (step m)
  then show ?case using reader_mono [of m d s vs] assms(2) by auto
qed

lemma jmembers_more_fuel:
  assumes "jmembers n d ms s = r" "r \<noteq> Inl OutOfFuel" "n \<le> m"
  shows "jmembers m d ms s = r"
  using assms(3)
proof (induction m rule: dec_induct)
  case base
  then show ?case by (rule assms(1))
next
  case (step m)
  then show ?case using reader_mono [of m d s _ ms] assms(2) by auto
qed

definition readsAs :: "nat \<Rightarrow> json \<Rightarrow> bool" where
  "readsAs d v \<longleftrightarrow> (\<forall>t. numberEnds t \<longrightarrow> (\<exists>n. jvalue n d (writeCanonical v @ t) = Inr (normJson v, t)))"

lemma jelements_written:
  assumes "\<forall>v \<in> set vs. wfJson v \<and> readsAs (d + 1) v" "vs \<noteq> []"
  shows "\<exists>n. jelements n d acc (joinWith '','' (map writeCanonical vs) @ CHR '']'' # t) =
    Inr (JArray (acc @ map normJson vs), t)"
  using assms
proof (induction vs arbitrary: acc)
  case (Cons v vs)
  have wf: "wfJson v" and r: "readsAs (d + 1) v" using Cons.prems by auto
  show ?case
  proof (cases "vs = []")
    case True
    obtain n where "jvalue n (d + 1) (writeCanonical v @ CHR '']'' # t) = Inr (normJson v, CHR '']'' # t)"
      using r unfolding readsAs_def by (force simp: numberEnds_def isDigit_def)
    then have "jelements (Suc n) d acc (writeCanonical v @ CHR '']'' # t) = Inr (JArray (acc @ [normJson v]), t)"
      unfolding jelements_Inr skipWS_write [OF wf] by (force simp: isWS_def)
    then show ?thesis using True by auto
  next
    case False
    let ?rest = "joinWith '','' (map writeCanonical vs) @ CHR '']'' # t"
    have join: "joinWith '','' (map writeCanonical (v # vs)) @ CHR '']'' # t = writeCanonical v @ CHR '','' # ?rest"
      using False by (cases vs) auto
    obtain n where n: "jvalue n (d + 1) (writeCanonical v @ CHR '','' # ?rest) = Inr (normJson v, CHR '','' # ?rest)"
      using r unfolding readsAs_def by (force simp: numberEnds_def isDigit_def)
    obtain m where m: "jelements m d (acc @ [normJson v]) ?rest = Inr (JArray ((acc @ [normJson v]) @ map normJson vs), t)"
      using Cons.IH [of "acc @ [normJson v]"] Cons.prems False by auto
    have n': "jvalue (max n m) (d + 1) (writeCanonical v @ CHR '','' # ?rest) = Inr (normJson v, CHR '','' # ?rest)"
      by (rule jvalue_more_fuel [OF n]) auto
    have m': "jelements (max n m) d (acc @ [normJson v]) ?rest = Inr (JArray ((acc @ [normJson v]) @ map normJson vs), t)"
      by (rule jelements_more_fuel [OF m]) auto
    have "jelements (Suc (max n m)) d acc (writeCanonical v @ CHR '','' # ?rest) =
        Inr (JArray (acc @ map normJson (v # vs)), t)"
      unfolding jelements_Inr skipWS_write [OF wf] using n' m' by (simp add: isWS_def)
    then show ?thesis unfolding join by blast
  qed
qed simp

lemma jmembers_written:
  assumes "\<forall>kv \<in> set ms. validUTF8 (fst kv) \<and> wfJson (snd kv) \<and> readsAs (d + 1) (snd kv)" "ms \<noteq> []"
    "distinct (map fst (acc @ ms))"
  shows "\<exists>n. jmembers n d acc
      (joinWith '','' (map (\<lambda>(k, v). writeMember (k, writeCanonical v)) ms) @ CHR ''}'' # t) =
    Inr (JObject (acc @ map (\<lambda>(k, v). (k, normJson v)) ms), t)"
  using assms
proof (induction ms arbitrary: acc)
  case (Cons kv ms)
  obtain k v where kv: "kv = (k, v)" by (cases kv)
  have wf: "wfJson v" and k: "validUTF8 k" "k \<notin> fst ` set acc" and r: "readsAs (d + 1) v"
    using Cons.prems kv by auto
  have one: "\<exists>q s1 q2. skipWS (writeMember (k, writeCanonical v) @ u) = CHR 0x22 # q \<and> stringBody [] q = Inr (k, s1) \<and>
      skipWS s1 = CHR '':'' # q2 \<and> skipWS q2 = writeCanonical v @ u" for u
    using stringBody_written [OF k(1), of "[]"]
    by (simp add: writeMember_def writeCanonicalString_def isWS_def skipWS_write [OF wf])
  show ?case
  proof (cases "ms = []")
    case True
    obtain n where "jvalue n (d + 1) (writeCanonical v @ CHR ''}'' # t) = Inr (normJson v, CHR ''}'' # t)"
      using r unfolding readsAs_def by (force simp: numberEnds_def isDigit_def)
    moreover have "skipWS (CHR ''}'' # t) = CHR ''}'' # t" by (simp add: isWS_def)
    ultimately have "jmembers (Suc n) d acc (writeMember (k, writeCanonical v) @ CHR ''}'' # t) =
        Inr (JObject (acc @ [(k, normJson v)]), t)"
      using one [of "CHR ''}'' # t"] k(2) unfolding jmembers_Inr by metis
    then show ?thesis using True kv by auto
  next
    case False
    let ?rest = "joinWith '','' (map (\<lambda>(k, v). writeMember (k, writeCanonical v)) ms) @ CHR ''}'' # t"
    let ?acc = "acc @ [(k, normJson v)]"
    have join: "joinWith '','' (map (\<lambda>(k, v). writeMember (k, writeCanonical v)) (kv # ms)) @ CHR ''}'' # t =
        writeMember (k, writeCanonical v) @ CHR '','' # ?rest"
      using False kv by (cases ms) auto
    obtain n where n: "jvalue n (d + 1) (writeCanonical v @ CHR '','' # ?rest) = Inr (normJson v, CHR '','' # ?rest)"
      using r unfolding readsAs_def by (force simp: numberEnds_def isDigit_def)
    obtain m where m: "jmembers m d ?acc ?rest = Inr (JObject (?acc @ map (\<lambda>(k, v). (k, normJson v)) ms), t)"
      using Cons.IH [of ?acc] Cons.prems False kv by auto
    have n': "jvalue (max n m) (d + 1) (writeCanonical v @ CHR '','' # ?rest) = Inr (normJson v, CHR '','' # ?rest)"
      by (rule jvalue_more_fuel [OF n]) auto
    have m': "jmembers (max n m) d ?acc ?rest = Inr (JObject (?acc @ map (\<lambda>(k, v). (k, normJson v)) ms), t)"
      by (rule jmembers_more_fuel [OF m]) auto
    have "skipWS (CHR '','' # ?rest) = CHR '','' # ?rest" by (simp add: isWS_def)
    then have "jmembers (Suc (max n m)) d acc (writeMember (k, writeCanonical v) @ CHR '','' # ?rest) =
        Inr (JObject (?acc @ map (\<lambda>(k, v). (k, normJson v)) ms), t)"
      using one [of "CHR '','' # ?rest"] k(2) n' m' unfolding jmembers_Inr by metis
    then show ?thesis unfolding join using kv by auto
  qed
qed simp

lemma insort_key_map: "insort_key f (g x) (map g xs) = map g (insort_key (f \<circ> g) x xs)"
  by (induction xs) auto

lemma sort_key_map: "sort_key f (map g xs) = map g (sort_key (f \<circ> g) xs)"
  by (induction xs) (simp_all add: insort_key_map comp_def)

lemma sort_members:
  "sort_key (utf16 \<circ> fst) (map (\<lambda>(k, v). (k, h v)) ms) = map (\<lambda>(k, v). (k, h v)) (sort_key (utf16 \<circ> fst) ms)"
proof -
  have "(utf16 \<circ> fst) \<circ> (\<lambda>(k, v). (k, h v)) = utf16 \<circ> fst" by auto
  then show ?thesis by (simp add: sort_key_map)
qed

lemma write_object:
  "writeCanonical (JObject ms) = CHR ''{'' # joinWith '',''
    (map (\<lambda>(k, v). writeMember (k, writeCanonical v)) (sort_key (utf16 \<circ> fst) ms)) @ ''}''"
proof -
  have "map writeMember (map (\<lambda>(k, v). (k, writeCanonical v)) xs) = map (\<lambda>(k, v). writeMember (k, writeCanonical v)) xs" for xs
    by auto
  then show ?thesis by (simp only: writeCanonical.simps sort_members) simp
qed

lemma norm_object: "normJson (JObject ms) = JObject (map (\<lambda>(k, v). (k, normJson v)) (sort_key (utf16 \<circ> fst) ms))"
  by (simp only: normJson.simps sort_members)

lemma join_head:
  assumes "xs \<noteq> []" "hd xs = c # r"
  shows "\<exists>r'. joinWith sep xs = c # r'"
  using assms by (cases "(sep, xs)" rule: joinWith.cases) auto

lemma readsAs_scalar:
  assumes "wfJson v" "d \<le> maxJSONDepth" "\<And>vs. v \<noteq> JArray vs" "\<And>ms. v \<noteq> JObject ms"
  shows "readsAs d v"
  unfolding readsAs_def
proof (intro allI impI)
  fix t assume t: "numberEnds t"
  have "jvalue (Suc 0) d (writeCanonical v @ t) = Inr (normJson v, t)"
  proof (cases v)
    case (JNumber f)
    then obtain c r where f: "FormatNumberES6 f = c # r" "c = CHR ''-'' \<or> isDigit c"
      using assms(1) format_head [of f] by auto
    have c: "c \<notin> {CHR ''{'', CHR ''['', CHR 0x22, CHR ''t'', CHR ''f'', CHR ''n''}" using f(2) by (auto simp: isDigit_def)
    have "jvalue (Suc 0) d (c # r @ t) = number (c # r @ t)"
      unfolding jvalue_unfold [OF assms(2)] using c f(2) by simp
    then have "jvalue (Suc 0) d (FormatNumberES6 f @ t) = number (FormatNumberES6 f @ t)" using f(1) by simp
    then show ?thesis using number_written [OF _ t, of f] JNumber assms(1) by simp
  next
    case (JString s)
    then show ?thesis using stringBody_written [of s "[]" t] assms(1)
      by (simp add: writeCanonicalString_def jvalue_unfold [OF assms(2)])
  next
    case (JBool b)
    then show ?thesis by (cases b) (simp_all add: jvalue_unfold [OF assms(2)] literal_def hasPrefix_def)
  next
    case JNull
    then show ?thesis by (simp add: jvalue_unfold [OF assms(2)] literal_def hasPrefix_def)
  qed (use assms(3,4) in auto)
  then show "\<exists>n. jvalue n d (writeCanonical v @ t) = Inr (normJson v, t)" by blast
qed

lemma readsAs_array:
  assumes "\<forall>v \<in> set vs. wfJson v \<and> readsAs (d + 1) v" "d \<le> maxJSONDepth"
  shows "readsAs d (JArray vs)"
  unfolding readsAs_def
proof (intro allI impI)
  fix t
  show "\<exists>n. jvalue n d (writeCanonical (JArray vs) @ t) = Inr (normJson (JArray vs), t)"
  proof (cases "vs = []")
    case True
    then have "jvalue (Suc 0) d (writeCanonical (JArray vs) @ t) = Inr (normJson (JArray vs), t)"
      by (simp add: jvalue_unfold [OF assms(2)] isWS_def)
    then show ?thesis by blast
  next
    case False
    let ?s = "joinWith '','' (map writeCanonical vs) @ CHR '']'' # t"
    obtain n where n: "jelements n d [] ?s = Inr (JArray (map normJson vs), t)"
      using jelements_written [OF assms(1) False, of "[]"] by auto
    obtain c r where c: "writeCanonical (hd vs) = c # r" "\<not> isWS c" "c \<noteq> CHR '']''"
      using write_head [of "hd vs"] assms(1) hd_in_set [OF False] by metis
    obtain r' where "joinWith '','' (map writeCanonical vs) = c # r'"
      using join_head [of "map writeCanonical vs" c r] c(1) False by (auto simp: hd_map)
    then have "jvalue (Suc n) d (CHR ''['' # ?s) = jelements n d [] ?s"
      using c by (simp add: jvalue_unfold [OF assms(2)])
    then have "jvalue (Suc n) d (writeCanonical (JArray vs) @ t) = Inr (normJson (JArray vs), t)" using n by simp
    then show ?thesis by blast
  qed
qed

lemma readsAs_object:
  assumes "\<forall>kv \<in> set ms. validUTF8 (fst kv) \<and> wfJson (snd kv) \<and> readsAs (d + 1) (snd kv)" "distinct (map fst ms)"
    "d \<le> maxJSONDepth"
  shows "readsAs d (JObject ms)"
  unfolding readsAs_def
proof (intro allI impI)
  fix t
  let ?ms = "sort_key (utf16 \<circ> fst) ms"
  let ?w = "\<lambda>(k, v). writeMember (k, writeCanonical v)"
  show "\<exists>n. jvalue n d (writeCanonical (JObject ms) @ t) = Inr (normJson (JObject ms), t)"
  proof (cases "ms = []")
    case True
    then have "jvalue (Suc 0) d (writeCanonical (JObject ms) @ t) = Inr (normJson (JObject ms), t)"
      by (simp add: jvalue_unfold [OF assms(3)] isWS_def)
    then show ?thesis by blast
  next
    case False
    then have ne: "?ms \<noteq> []" by (metis set_empty set_sort)
    have dist: "distinct (map fst ([] @ ?ms))" using assms(2) by (simp add: distinct_map)
    let ?s = "joinWith '','' (map ?w ?ms) @ CHR ''}'' # t"
    obtain n where n: "jmembers n d [] ?s = Inr (JObject (map (\<lambda>(k, v). (k, normJson v)) ?ms), t)"
      using jmembers_written [OF _ ne dist, of d t] assms(1) by auto
    obtain r where "hd (map ?w ?ms) = CHR 0x22 # r"
      using ne by (cases ?ms) (auto simp: writeMember_def writeCanonicalString_def split: prod.splits)
    then obtain r' where "joinWith '','' (map ?w ?ms) = CHR 0x22 # r'"
      using join_head [of "map ?w ?ms"] ne by blast
    then have "jvalue (Suc n) d (CHR ''{'' # ?s) = jmembers n d [] ?s"
      by (simp add: jvalue_unfold [OF assms(3)] isWS_def)
    then have "jvalue (Suc n) d (writeCanonical (JObject ms) @ t) = Inr (normJson (JObject ms), t)"
      using n unfolding write_object norm_object by simp
    then show ?thesis by blast
  qed
qed

lemma readsAs_wf: "wfJson v \<Longrightarrow> d + jsonDepth v \<le> maxJSONDepth \<Longrightarrow> readsAs d v"
proof (induction v arbitrary: d)
  case (JArray vs)
  then show ?case by (intro readsAs_array) (auto simp: depth_array)
next
  case (JObject ms)
  have "readsAs (d + 1) (snd kv)" if "kv \<in> set ms" for kv
  proof -
    have "snd kv \<in> Basic_BNFs.snds kv" by (cases kv) auto
    then show ?thesis using that JObject.IH [of kv "snd kv" "d + 1"] JObject.prems by (simp add: depth_object)
  qed
  then show ?case using JObject.prems by (intro readsAs_object) (auto simp: depth_object)
qed (auto intro: readsAs_scalar)

lemma parse_written:
  assumes "wfJson v" "jsonDepth v \<le> maxJSONDepth"
  shows "parseJSON (writeCanonical v) = Inr (normJson v)"
proof -
  have "readsAs 0 v" using readsAs_wf [of v 0] assms by simp
  then obtain n where "jvalue n 0 (writeCanonical v @ []) = Inr (normJson v, [])"
    unfolding readsAs_def numberEnds_def by blast
  then have "jvalue n 0 (skipWS (writeCanonical v)) = Inr (normJson v, [])"
    using skipWS_write [OF assms(1), of "[]"] by simp
  from jvalue_parseJSON [OF this] show ?thesis by (simp add: skipWS_def)
qed

lemma parse_wf: "parseJSON data = Inr v \<Longrightarrow> wfJson v \<and> jsonDepth v \<le> maxJSONDepth"
  using reader_wf unfolding parseJSON_def by (fastforce simp: bindR_Inr_iff split: if_splits)

lemma sort_key_idem: "sort_key f (sort_key f xs) = sort_key f xs"
  by (metis sort_key_stable sorted_sort_id sorted_sort_key sort_key_id_if_sorted)

lemma write_norm: "writeCanonical (normJson v) = writeCanonical v"
proof (induction v)
  case (JNumber f)
  then show ?case by (simp add: normNumber_def FormatNumberES6_def magnitude_def)
next
  case (JArray vs)
  then have "map (writeCanonical \<circ> normJson) vs = map writeCanonical vs" by simp
  then show ?case by (simp only: normJson.simps writeCanonical.simps map_map)
next
  case (JObject ms)
  let ?s = "sort_key (utf16 \<circ> fst)"
  have m: "map (\<lambda>(k, v). writeMember (k, writeCanonical v)) (map (\<lambda>(k, v). (k, normJson v)) (?s ms)) =
      map (\<lambda>(k, v). writeMember (k, writeCanonical v)) (?s ms)"
    using JObject by (auto simp: writeMember_def)
  have "normJson (JObject ms) = JObject (?s (map (\<lambda>(k, v). (k, normJson v)) ms))" by simp
  then have "writeCanonical (normJson (JObject ms)) = CHR ''{'' # joinWith '',''
      (map (\<lambda>(k, v). writeMember (k, writeCanonical v)) (?s (map (\<lambda>(k, v). (k, normJson v)) ms))) @ ''}''"
    by (simp only: write_object sort_key_idem)
  then show ?case unfolding sort_members m write_object .
qed simp_all

subsection \<open>Properties of the canonical form\<close>

text \<open>C24. The reader of \<^verbatim>\<open>parseJSON\<close> always comes to a verdict: on every input it returns a value
  or one of its own errors, and the bound on its recursion is never what stops it.\<close>

theorem parse_always_decides: "(\<exists>v. parseJSON data = Inr v) \<or> (\<exists>e. parseJSON data = Inl e \<and> e \<noteq> OutOfFuel)"
  using parseJSON_verdict [of data] by (cases "parseJSON data") auto

text \<open>C25. What \<^verbatim>\<open>writeCanonical\<close> writes of a well-formed value nested at most 512 deep,
  \<^verbatim>\<open>parseJSON\<close> reads back as that value, with the members of each object in code-unit order and
  negative zero as zero.\<close>

theorem canonical_text_roundtrip:
  assumes "wfJson v" "jsonDepth v \<le> maxJSONDepth"
  shows "parseJSON (writeCanonical v) = Inr (normJson v)"
  using assms by (rule parse_written)

theorem canonical_text_roundtrip_witness:
  "parseJSON (writeCanonical (JObject [(''b'', JArray [JBool True, JNull]), (''a'', JString ''x/y'')])) =
    Inr (JObject [(''a'', JString ''x/y''), (''b'', JArray [JBool True, JNull])])"
proof -
  let ?v = "JObject [(''b'', JArray [JBool True, JNull]), (''a'', JString ''x/y'')]"
  have wf: "wfJson ?v" by code_simp
  have depth: "jsonDepth ?v \<le> maxJSONDepth" by code_simp
  have norm: "normJson ?v = JObject [(''a'', JString ''x/y''), (''b'', JArray [JBool True, JNull])]" by code_simp
  show ?thesis using canonical_text_roundtrip [OF wf depth] norm by simp
qed

text \<open>C26. The canonical form is a fixed point: canonicalising canonical text gives it back
  unchanged, so a stored document hashes the same however often it is read and written.\<close>

theorem canonicalize_fixed_point:
  assumes "Canonicalize data = Inr c"
  shows "Canonicalize c = Inr c"
proof -
  obtain v where v: "parseJSON data = Inr v" and c: "c = writeCanonical v"
    using assms unfolding Canonicalize_def by (auto simp: bindR_Inr_iff)
  then have "parseJSON c = Inr (normJson v)" using parse_wf [OF v] parse_written by blast
  then show ?thesis using c by (simp add: Canonicalize_def write_norm)
qed

theorem canonicalize_fixed_point_witness:
  "Canonicalize ''{\"a\":[true,null]}'' = Inr ''{\"a\":[true,null]}''"
proof -
  have "Canonicalize '' { \"a\" : [ true , null ] } '' = Inr ''{\"a\":[true,null]}''" by code_simp
  then show ?thesis by (rule canonicalize_fixed_point)
qed

text \<open>C27. Two accepted documents have the same canonical form exactly when their values are
  equal up to the order of object members and the sign of zero: canonicalisation identifies
  nothing else.\<close>

theorem canonicalize_eq_iff:
  assumes "parseJSON a = Inr u" "parseJSON b = Inr v"
  shows "Canonicalize a = Canonicalize b \<longleftrightarrow> normJson u = normJson v"
proof
  assume "Canonicalize a = Canonicalize b"
  then have "writeCanonical u = writeCanonical v" using assms by (simp add: Canonicalize_def)
  moreover have "parseJSON (writeCanonical u) = Inr (normJson u)" "parseJSON (writeCanonical v) = Inr (normJson v)"
    using parse_wf [OF assms(1)] parse_wf [OF assms(2)] parse_written by blast+
  ultimately show "normJson u = normJson v" by simp
next
  assume "normJson u = normJson v"
  then have "writeCanonical u = writeCanonical v" using write_norm [of u] write_norm [of v] by simp
  then show "Canonicalize a = Canonicalize b" using assms by (simp add: Canonicalize_def)
qed

theorem canonicalize_eq_iff_witness:
  "Canonicalize ''{\"b\":1,\"a\":[]}'' = Canonicalize ''{ \"a\" : [] , \"b\" : 1.0 }''"
proof -
  have a: "parseJSON ''{\"b\":1,\"a\":[]}'' =
      Inr (JObject [(''b'', JNumber (False, 4503599627370496, - 52)), (''a'', JArray [])])" by code_simp
  have b: "parseJSON ''{ \"a\" : [] , \"b\" : 1.0 }'' =
      Inr (JObject [(''a'', JArray []), (''b'', JNumber (False, 4503599627370496, - 52))])" by code_simp
  have n: "normJson (JObject [(''b'', JNumber (False, 4503599627370496, - 52)), (''a'', JArray [])]) =
      normJson (JObject [(''a'', JArray []), (''b'', JNumber (False, 4503599627370496, - 52))])" by code_simp
  show ?thesis using canonicalize_eq_iff [OF a b] n by simp
qed

end
