(* ===== verification/Hashes.thy ===== *)
theory Hashes
  imports Routes JsonProps "HOL-Library.Word"
begin

section \<open>Hashes and the facts they bind (internal/igagov/canonical.go, hashes)\<close>

text \<open>
  The SHA-256 of the standard library, the domain-tagged hash over fields joined by the unit
  separator, and the values the package hashes: fingerprints, the artifact state, the apply
  precondition, the impact, and the plan and material inputs. A struct that
  \<^verbatim>\<open>CanonicalizeValue\<close> marshals is the JSON value \<^verbatim>\<open>encoding/json\<close> makes of it: members
  in field order, empty ones left out where the tag says \<^verbatim>\<open>omitempty\<close>, invalid UTF-8
  replaced by U+FFFD, integers as the double they are read back as.

  Nothing is claimed of SHA-256 beyond its definition. What is proved is about the text that
  is hashed: equal facts give equal text, and different facts give different text.
\<close>

unbundle bit_operations_syntax

subsection \<open>crypto/sha256\<close>

definition sha256K :: "32 word list" where
  "sha256K =
    [0x428A2F98, 0x71374491, 0xB5C0FBCF, 0xE9B5DBA5, 0x3956C25B, 0x59F111F1, 0x923F82A4, 0xAB1C5ED5,
     0xD807AA98, 0x12835B01, 0x243185BE, 0x550C7DC3, 0x72BE5D74, 0x80DEB1FE, 0x9BDC06A7, 0xC19BF174,
     0xE49B69C1, 0xEFBE4786, 0x0FC19DC6, 0x240CA1CC, 0x2DE92C6F, 0x4A7484AA, 0x5CB0A9DC, 0x76F988DA,
     0x983E5152, 0xA831C66D, 0xB00327C8, 0xBF597FC7, 0xC6E00BF3, 0xD5A79147, 0x06CA6351, 0x14292967,
     0x27B70A85, 0x2E1B2138, 0x4D2C6DFC, 0x53380D13, 0x650A7354, 0x766A0ABB, 0x81C2C92E, 0x92722C85,
     0xA2BFE8A1, 0xA81A664B, 0xC24B8B70, 0xC76C51A3, 0xD192E819, 0xD6990624, 0xF40E3585, 0x106AA070,
     0x19A4C116, 0x1E376C08, 0x2748774C, 0x34B0BCB5, 0x391C0CB3, 0x4ED8AA4A, 0x5B9CCA4F, 0x682E6FF3,
     0x748F82EE, 0x78A5636F, 0x84C87814, 0x8CC70208, 0x90BEFFFA, 0xA4506CEB, 0xBEF9A3F7, 0xC67178F2]"

definition sha256Init :: "32 word list" where
  "sha256Init =
    [0x6A09E667, 0xBB67AE85, 0x3C6EF372, 0xA54FF53A, 0x510E527F, 0x9B05688C, 0x1F83D9AB, 0x5BE0CD19]"

text \<open>Eight bits at a time, most significant byte first.\<close>

definition bigEndian :: "nat \<Rightarrow> nat \<Rightarrow> nat list" where
  "bigEndian k n = map (\<lambda>i. n div 256 ^ (k - 1 - i) mod 256) [0..<k]"

definition sha256Pad :: "nat list \<Rightarrow> nat list" where
  "sha256Pad m = m @ 0x80 # replicate ((119 - length m mod 64) mod 64) 0 @ bigEndian 8 (8 * length m mod 2 ^ 64)"

definition wordOf :: "nat list \<Rightarrow> 32 word" where
  "wordOf bs = of_nat (foldl (\<lambda>a b. a * 256 + b) 0 bs)"

function chunks :: "nat \<Rightarrow> 'a list \<Rightarrow> 'a list list" where
  "chunks k xs = (if k = 0 \<or> xs = [] then [] else take k xs # chunks k (drop k xs))"
  by pat_completeness auto
termination
  by (relation "measure (\<lambda>(k, xs). length xs)") auto

declare chunks.simps [simp del]

definition sha256Next :: "32 word list \<Rightarrow> 32 word" where
  "sha256Next w =
    (let i = length w; x = w ! (i - 15); y = w ! (i - 2);
         s0 = word_rotr 7 x XOR word_rotr 18 x XOR drop_bit 3 x;
         s1 = word_rotr 17 y XOR word_rotr 19 y XOR drop_bit 10 y
     in w ! (i - 16) + s0 + w ! (i - 7) + s1)"

definition sha256Schedule :: "32 word list \<Rightarrow> 32 word list" where
  "sha256Schedule w = foldl (\<lambda>w _. w @ [sha256Next w]) w [0..<48]"

fun sha256Round :: "32 word list \<Rightarrow> 32 word \<times> 32 word \<Rightarrow> 32 word list" where
  "sha256Round [a, b, c, d, e, f, g, h] (k, w) =
    (let S1 = word_rotr 6 e XOR word_rotr 11 e XOR word_rotr 25 e;
         ch = (e AND f) XOR (NOT e AND g);
         t1 = h + S1 + ch + k + w;
         S0 = word_rotr 2 a XOR word_rotr 13 a XOR word_rotr 22 a;
         maj = (a AND b) XOR (a AND c) XOR (b AND c);
         t2 = S0 + maj
     in [t1 + t2, a, b, c, d + t1, e, f, g])"
| "sha256Round s kw = s"

definition sha256Block :: "32 word list \<Rightarrow> nat list \<Rightarrow> 32 word list" where
  "sha256Block h block =
    map (\<lambda>(x, y). x + y) (zip h
      (foldl sha256Round h (zip sha256K (sha256Schedule (map wordOf (chunks 4 block))))))"

definition Sum256 :: "string \<Rightarrow> nat list" where
  "Sum256 s = concat (map (bigEndian 4 \<circ> unat)
    (foldl sha256Block sha256Init (chunks 64 (sha256Pad (map of_char s)))))"

definition hexEncode :: "nat list \<Rightarrow> string" where
  "hexEncode bs = concat (map (\<lambda>b. [hexdigit (b div 16), hexdigit (b mod 16)]) bs)"

subsection \<open>Tagged hashes\<close>

definition HashPrefix :: string where [go_consts]: "HashPrefix = ''sha256:''"
definition unitSep :: char where [go_consts]: "unitSep = CHR 0x1F"
definition DomainIntent :: string where [go_consts]: "DomainIntent = ''authsec.igagov.intent.v1''"
definition DomainImpact :: string where [go_consts]: "DomainImpact = ''authsec.igagov.impact.v1''"
definition DomainPrecondition :: string where [go_consts]: "DomainPrecondition = ''authsec.igagov.precondition.v1''"
definition DomainStateOnly :: string where [go_consts]: "DomainStateOnly = ''authsec.igagov.precondition.state.v1''"
definition DomainPlan :: string where [go_consts]: "DomainPlan = ''authsec.igagov.plan.v1''"
definition DomainMaterial :: string where [go_consts]: "DomainMaterial = ''authsec.igagov.material.v1''"
definition DomainGap :: string where [go_consts]: "DomainGap = ''authsec.igagov.gap.v1''"
definition DomainUnanalysed :: string where [go_consts]: "DomainUnanalysed = ''authsec.igagov.unanalysed.v1''"

definition sha256Label :: "string \<Rightarrow> string" where
  "sha256Label b = HashPrefix @ hexEncode (Sum256 b)"

definition ContentHash :: "string \<Rightarrow> string" where
  "ContentHash canonical = sha256Label canonical"

text \<open>The text \<open>taggedHash\<close> hashes.\<close>

definition taggedText :: "string \<Rightarrow> string list \<Rightarrow> string" where
  "taggedText domain parts = domain @ concat (map (\<lambda>p. unitSep # p) parts)"

definition taggedHash :: "string \<Rightarrow> string list \<Rightarrow> string" where
  "taggedHash domain parts = sha256Label (taggedText domain parts)"

subsection \<open>encoding/json on the package's structs\<close>

text \<open>
  A string as \<^verbatim>\<open>json.Marshal\<close> writes it and the reader of canonical JSON gets it: a byte
  that is not UTF-8 has become U+FFFD.
\<close>

definition jsonText :: "string \<Rightarrow> string" where
  "jsonText s = concat (map encodeRune (runes s))"

definition jstr :: "string \<Rightarrow> json" where "jstr s = JString (jsonText s)"
definition jopt :: "string option \<Rightarrow> json" where "jopt v = (case v of None \<Rightarrow> JNull | Some s \<Rightarrow> jstr s)"
definition jint :: "int \<Rightarrow> json" where "jint i = (case doubleOfInt i of Some f \<Rightarrow> JNumber f | None \<Rightarrow> JNull)"
definition omitempty :: "string \<Rightarrow> string \<Rightarrow> (string \<times> json) list" where
  "omitempty key s = (if s = [] then [] else [(key, jstr s)])"

fun keysDistinct :: "json \<Rightarrow> bool" where
  "keysDistinct (JArray vs) = list_all keysDistinct vs"
| "keysDistinct (JObject ms) = (distinct (map fst ms) \<and> list_all (\<lambda>kv. keysDistinct (snd kv)) ms)"
| "keysDistinct _ = True"

definition CanonicalizeValue :: "json \<Rightarrow> jsonError + string" where
  "CanonicalizeValue v =
    (if maxJSONDepth < jsonDepth v then Inl NestingTooDeep
     else if \<not> keysDistinct v then Inl DuplicateMember
     else Inr (writeCanonical v))"

datatype hashError =
    NotCanonical jsonError | FieldContainsSeparator string | FingerprintNeedsFields
  | StateNeedsRoleID | StateBoundaryHalfSet | MissingPlanField | PlanNeedsEvidence | MaterialNeedsImpact
  | NotPolicyText | NotStorable

definition canonical :: "json \<Rightarrow> hashError + string" where
  "canonical v = (case CanonicalizeValue v of Inl e \<Rightarrow> Inl (NotCanonical e) | Inr c \<Rightarrow> Inr c)"

definition HashCanonicalTagged :: "string \<Rightarrow> json \<Rightarrow> hashError + string" where
  "HashCanonicalTagged domain v = bindR (canonical v) (\<lambda>c. Inr (taggedHash domain [c]))"

subsection \<open>Fingerprints and intents\<close>

fun firstWithSep :: "string list \<Rightarrow> string option" where
  "firstWithSep [] = None"
| "firstWithSep (f # fs) = (if strContains f [unitSep] then Some f else firstWithSep fs)"

definition fingerprintText :: "string \<Rightarrow> string \<Rightarrow> string \<Rightarrow> string" where
  "fingerprintText kind roleID detailKey = kind @ unitSep # roleID @ unitSep # detailKey"

definition Fingerprint :: "string \<Rightarrow> string \<Rightarrow> string \<Rightarrow> hashError + string" where
  "Fingerprint kind roleID detailKey =
    (case firstWithSep [kind, roleID, detailKey] of
       Some f \<Rightarrow> Inl (FieldContainsSeparator f)
     | None \<Rightarrow>
         if kind = [] \<or> roleID = [] then Inl FingerprintNeedsFields
         else Inr (sha256Label (fingerprintText kind roleID detailKey)))"

definition IntentHash :: "string \<Rightarrow> hashError + string" where
  "IntentHash intentJSON =
    (case Canonicalize intentJSON of
       Inl e \<Rightarrow> Inl (NotCanonical e)
     | Inr c \<Rightarrow> Inr (taggedHash DomainIntent [c]))"

subsection \<open>The artifact state and the apply precondition\<close>

definition UsageBoundary :: string where [go_consts]: "UsageBoundary = ''boundary''"
definition UsagePermissions :: string where [go_consts]: "UsagePermissions = ''permissions''"

record attachedEntity =
  ae_Kind :: string
  ae_ID :: string
  ae_Name :: string
  ae_Usage :: string

definition entityKey :: "attachedEntity \<Rightarrow> string \<times> string \<times> string \<times> string" where
  "entityKey e = (ae_Kind e, ae_ID e, ae_Usage e, ae_Name e)"

record artifactStateFacts =
  as_RoleID :: string
  as_BoundaryARN :: "string option"
  as_BoundaryDocumentHash :: "string option"
  as_AttachmentSet :: "attachedEntity list"

definition stateNormalized :: "artifactStateFacts \<Rightarrow> artifactStateFacts" where
  "stateNormalized s = s\<lparr>as_AttachmentSet := sort_key entityKey (as_AttachmentSet s)\<rparr>"

definition entityJSON :: "attachedEntity \<Rightarrow> json" where
  "entityJSON e = JObject [(''kind'', jstr (ae_Kind e)), (''id'', jstr (ae_ID e)), (''name'', jstr (ae_Name e)),
    (''usage'', jstr (ae_Usage e))]"

definition stateJSON :: "artifactStateFacts \<Rightarrow> json" where
  "stateJSON s = JObject [(''role_id'', jstr (as_RoleID s)), (''boundary_arn'', jopt (as_BoundaryARN s)),
    (''boundary_document_hash'', jopt (as_BoundaryDocumentHash s)),
    (''attachment_set'', JArray (map entityJSON (as_AttachmentSet s)))]"

definition stateCanonical :: "artifactStateFacts \<Rightarrow> hashError + string" where
  "stateCanonical s =
    (if as_RoleID s = [] then Inl StateNeedsRoleID
     else if (as_BoundaryARN s = None) \<noteq> (as_BoundaryDocumentHash s = None) then Inl StateBoundaryHalfSet
     else canonical (stateJSON (stateNormalized s)))"

record policyRef =
  pf_Ref :: string
  pf_DocumentHash :: string

record applyPrecondition =
  ap_ArtifactState :: artifactStateFacts
  ap_RoleARN :: string
  ap_RolePath :: string
  ap_ProtectionTags :: tags
  ap_ManagedPolicies :: "policyRef list"
  ap_InlinePolicies :: "policyRef list"

definition sortedRefs :: "policyRef list \<Rightarrow> policyRef list" where
  "sortedRefs rs = sort_key pf_Ref rs"

definition refJSON :: "policyRef \<Rightarrow> json" where
  "refJSON r = JObject [(''ref'', jstr (pf_Ref r)), (''document_hash'', jstr (pf_DocumentHash r))]"

definition tagsJSON :: "tags \<Rightarrow> json" where
  "tagsJSON t = JObject (map (\<lambda>(k, v). (jsonText k, jstr v)) t)"

definition preconditionJSON :: "applyPrecondition \<Rightarrow> json" where
  "preconditionJSON p = JObject [(''artifact_state'', stateJSON (stateNormalized (ap_ArtifactState p))),
    (''role_arn'', jstr (ap_RoleARN p)), (''role_path'', jstr (ap_RolePath p)),
    (''protection_tags'', tagsJSON (ap_ProtectionTags p)),
    (''managed_policies'', JArray (map refJSON (sortedRefs (ap_ManagedPolicies p)))),
    (''inline_policies'', JArray (map refJSON (sortedRefs (ap_InlinePolicies p))))]"

definition preconditionCanonical :: "applyPrecondition \<Rightarrow> hashError + string" where
  "preconditionCanonical p =
    bindR (stateCanonical (ap_ArtifactState p)) (\<lambda>_. canonical (preconditionJSON p))"

definition ApplyPreconditionHash :: "applyPrecondition \<Rightarrow> hashError + string" where
  "ApplyPreconditionHash p = bindR (preconditionCanonical p) (\<lambda>c. Inr (taggedHash DomainPrecondition [c]))"

definition StatePreconditionHash :: "artifactStateFacts \<Rightarrow> hashError + string" where
  "StatePreconditionHash s =
    bindR (stateCanonical s) (\<lambda>_.
    bindR (canonical (JObject [(''artifact_state'', stateJSON (stateNormalized s))])) (\<lambda>c.
    Inr (taggedHash DomainStateOnly [c])))"

subsection \<open>The impact\<close>

record impactConsumer =
  ic_WorkloadID :: string
  ic_Relationship :: string

record impactService =
  is_Service :: string
  is_Basis :: string

record impact =
  im_Consumers :: "impactConsumer list"
  im_OwnerUserIDs :: "string list"
  im_Removed :: "impactService list"
  im_Retained :: "impactService list"
  im_StatementRevisions :: "string list"
  im_Routes :: "route list"
  im_Restored :: "impactService list"

definition consumerKey :: "impactConsumer \<Rightarrow> string \<times> string" where
  "consumerKey c = (ic_WorkloadID c, ic_Relationship c)"

definition serviceKey :: "impactService \<Rightarrow> string \<times> string" where
  "serviceKey s = (is_Service s, is_Basis s)"

definition uniqueConsumers :: "impactConsumer list \<Rightarrow> impactConsumer list" where
  "uniqueConsumers cs = remdups_adj cs"

definition impactNormalized :: "impact \<Rightarrow> impact" where
  "impactNormalized im =
    \<lparr>im_Consumers = uniqueConsumers (sort_key consumerKey (im_Consumers im)),
     im_OwnerUserIDs = sortedUnique (im_OwnerUserIDs im),
     im_Removed = sort_key serviceKey (im_Removed im),
     im_Retained = sort_key serviceKey (im_Retained im),
     im_StatementRevisions = sortedUnique (im_StatementRevisions im),
     im_Routes = SortRoutes (im_Routes im),
     im_Restored = sort_key serviceKey (im_Restored im)\<rparr>"

definition consumerJSON :: "impactConsumer \<Rightarrow> json" where
  "consumerJSON c = JObject [(''workload_id'', jstr (ic_WorkloadID c)), (''relationship'', jstr (ic_Relationship c))]"

definition serviceJSON :: "impactService \<Rightarrow> json" where
  "serviceJSON s = JObject [(''service'', jstr (is_Service s)), (''basis'', jstr (is_Basis s))]"

definition routeJSON :: "route \<Rightarrow> json" where
  "routeJSON r = JObject ((''service'', jstr (rt_Service r)) # omitempty ''form'' (rt_Form r) @
    omitempty ''region'' (rt_Region r) @ omitempty ''resource'' (rt_Resource r) @
    omitempty ''principal'' (rt_Principal r) @ (''effect'', jstr (rt_Effect r)) # omitempty ''reason'' (rt_Reason r))"

definition impactJSON :: "impact \<Rightarrow> json" where
  "impactJSON im = JObject ([(''consumers'', JArray (map consumerJSON (im_Consumers im))),
    (''owners'', JArray (map jstr (im_OwnerUserIDs im))),
    (''removed'', JArray (map serviceJSON (im_Removed im))),
    (''retained'', JArray (map serviceJSON (im_Retained im))),
    (''statement_revisions'', JArray (map jstr (im_StatementRevisions im))),
    (''routes'', JArray (map routeJSON (im_Routes im)))] @
    (if im_Restored im = [] then [] else [(''restored'', JArray (map serviceJSON (im_Restored im)))]))"

definition ImpactHash :: "impact \<Rightarrow> hashError + string" where
  "ImpactHash im = HashCanonicalTagged DomainImpact (impactJSON (impactNormalized im))"

subsection \<open>Plan and material hashes\<close>

record unanalysedItem =
  ui_Key :: string
  ui_Form :: string
  ui_Reason :: string

record gapRef =
  gr_Key :: string
  gr_Hash :: string

definition unanalysedJSON :: "unanalysedItem \<Rightarrow> json" where
  "unanalysedJSON it = JObject ((''key'', jstr (ui_Key it)) # omitempty ''form'' (ui_Form it) @
    omitempty ''reason'' (ui_Reason it))"

definition gapRefJSON :: "gapRef \<Rightarrow> json" where
  "gapRefJSON g = JObject [(''key'', jstr (gr_Key g)), (''hash'', jstr (gr_Hash g))]"

definition UnanalysedItemHash :: "unanalysedItem \<Rightarrow> hashError + string" where
  "UnanalysedItemHash it = HashCanonicalTagged DomainUnanalysed (unanalysedJSON it)"

text \<open>The operations are any marshallable value: their JSON, or \<^term>\<open>None\<close> for nil.\<close>

record planHashInput =
  ph_ControlID :: string
  ph_Kind :: string
  ph_Delivery :: string
  ph_DesiredAttachment :: string
  ph_DesiredBoundaryARN :: "string option"
  ph_DesiredDocumentHash :: "string option"
  ph_ReplacedBoundaryARN :: "string option"
  ph_ArtifactDisposition :: string
  ph_BundleHash :: string
  ph_EvidenceRev :: int
  ph_ResourcePolicyScanRunID :: "string option"
  ph_FirstAttachment :: bool
  ph_Unanalysed :: "unanalysedItem list"
  ph_PreconditionHash :: string
  ph_Ops :: "json option"

record materialHashInput =
  mh_Plan :: planHashInput
  mh_ImpactHash :: string
  mh_Gaps :: "gapRef list"

definition sortedUnanalysed :: "unanalysedItem list \<Rightarrow> unanalysedItem list" where
  "sortedUnanalysed its = sort_key ui_Key its"

definition planComplete :: "planHashInput \<Rightarrow> bool" where
  "planComplete p \<longleftrightarrow> ph_ControlID p \<noteq> [] \<and> ph_Kind p \<noteq> [] \<and> ph_Delivery p \<noteq> [] \<and> ph_DesiredAttachment p \<noteq> [] \<and>
    ph_ArtifactDisposition p \<noteq> [] \<and> ph_PreconditionHash p \<noteq> []"

definition planHead :: "planHashInput \<Rightarrow> json list" where
  "planHead p = [jstr (ph_ControlID p), jstr (ph_Kind p), jstr (ph_Delivery p), jstr (ph_DesiredAttachment p),
    jopt (ph_DesiredBoundaryARN p), jopt (ph_DesiredDocumentHash p), jopt (ph_ReplacedBoundaryARN p),
    jstr (ph_ArtifactDisposition p)]"

definition planEvidence :: "planHashInput \<Rightarrow> json list" where
  "planEvidence p = [jstr (ph_BundleHash p), jint (ph_EvidenceRev p), jopt (ph_ResourcePolicyScanRunID p)]"

definition planTail :: "planHashInput \<Rightarrow> json list" where
  "planTail p = [JBool (ph_FirstAttachment p), JArray (map unanalysedJSON (sortedUnanalysed (ph_Unanalysed p))),
    jstr (ph_PreconditionHash p), derefOr (ph_Ops p) (JArray [])]"

fun canonicalAll :: "json list \<Rightarrow> hashError + string list" where
  "canonicalAll [] = Inr []"
| "canonicalAll (v # vs) = bindR (canonical v) (\<lambda>c. bindR (canonicalAll vs) (\<lambda>cs. Inr (c # cs)))"

definition planFields :: "planHashInput \<Rightarrow> bool \<Rightarrow> hashError + string list" where
  "planFields p withEvidence =
    (if \<not> planComplete p then Inl MissingPlanField
     else if withEvidence \<and> (ph_BundleHash p = [] \<or> ph_EvidenceRev p \<le> 0) then Inl PlanNeedsEvidence
     else canonicalAll (planHead p @ (if withEvidence then planEvidence p else []) @ planTail p))"

definition PlanHash :: "planHashInput \<Rightarrow> hashError + string" where
  "PlanHash p = bindR (planFields p True) (\<lambda>f. Inr (taggedHash DomainPlan f))"

definition materialFields :: "materialHashInput \<Rightarrow> hashError + string list" where
  "materialFields m =
    bindR (planFields (mh_Plan m) False) (\<lambda>f.
      if mh_ImpactHash m = [] then Inl MaterialNeedsImpact
      else bindR (canonical (jstr (mh_ImpactHash m))) (\<lambda>ih.
           bindR (canonical (JArray (map gapRefJSON (sort_key gr_Key (mh_Gaps m))))) (\<lambda>gc.
           Inr (f @ [ih, gc]))))"

definition MaterialHash :: "materialHashInput \<Rightarrow> hashError + string" where
  "MaterialHash m = bindR (materialFields m) (\<lambda>f. Inr (taggedHash DomainMaterial f))"

end
