(* ===== verification/HashProps.thy ===== *)
theory HashProps
  imports Hashes
begin

section \<open>What the hashes bind\<close>

text \<open>
  The text under each hash determines the facts it was made from: fields joined by the unit
  separator can be split again because canonical JSON never contains it, and canonical JSON
  determines the value up to the order of members.
\<close>

subsection \<open>Strings in JSON\<close>

lemma digits64:
  assumes "b < 64" "c < (64 :: nat)"
  shows "((x * 64 + b) * 64 + c) mod 64 = c" "((x * 64 + b) * 64 + c) div 64 mod 64 = b"
    "((x * 64 + b) * 64 + c) div 4096 = x"
proof -
  have 1: "((x * 64 + b) * 64 + c) div 64 = x * 64 + b"
    using assms by (simp only: div_mult_self3 div_less zero_neq_numeral [symmetric] not_False_eq_True add_0_right)
  show "((x * 64 + b) * 64 + c) mod 64 = c" using assms by (simp only: mod_mult_self3 mod_less)
  show "((x * 64 + b) * 64 + c) div 64 mod 64 = b" unfolding 1 using assms by simp
  have "((x * 64 + b) * 64 + c) div (64 * 64) = x" unfolding div_mult2_eq 1 using assms by simp
  then show "((x * 64 + b) * 64 + c) div 4096 = x" by simp
qed

lemma decodeRune_bytes:
  assumes "decodeRune s = Some (r, w)"
  shows "scalar r \<and> encodeRune r = take w s"
proof -
  obtain a s1 where s: "s = a # s1" using assms by (cases s) (auto simp: decodeRune_def)
  define b0 where "b0 = (of_char a :: nat)"
  have a: "a = byte b0" "b0 < 256" by (simp_all add: b0_def byte_def)
  consider (1) "b0 < 0x80" | (2) "0xC2 \<le> b0" "b0 \<le> 0xDF" | (3) "0xE0 \<le> b0" "b0 \<le> 0xEF" | (4) "0xF0 \<le> b0" "b0 \<le> 0xF4"
    using assms unfolding s decodeRune_def by (fastforce simp: b0_def Let_def split: if_splits)
  then show ?thesis
  proof cases
    case 1
    then have "r = b0 \<and> w = 1" using assms s by (simp add: decodeRune_def Let_def flip: b0_def)
    then show ?thesis using 1 s a(1) by (simp add: scalar_def encodeRune_def)
  next
    case 2
    then obtain b s2 where s1: "s1 = b # s2" using assms s by (cases s1) (auto simp: decodeRune_def Let_def simp flip: b0_def)
    define b1 where "b1 = (of_char b :: nat) - 0x80"
    have c: "cont b" using assms s s1 2 by (auto simp: decodeRune_def Let_def split: if_splits simp flip: b0_def)
    then have b: "b = byte (0x80 + b1)" "b1 < 64" by (auto simp: b1_def cont_def byte_def)
    have r: "r = (b0 - 0xC0) * 64 + b1 \<and> w = 2"
      using assms s s1 2 c by (auto simp: decodeRune_def Let_def b1_def simp flip: b0_def)
    have "r div 64 = b0 - 0xC0" "r mod 64 = b1" "0x80 \<le> r" "r < 0x800" using r b(2) 2 by auto
    then show ?thesis using r s s1 a b(1) 2 by (simp add: scalar_def encodeRune_def numeral_2_eq_2)
  next
    case 3
    then obtain b c s3 where s1: "s1 = b # c # s3"
      using assms s by (cases s1; cases "tl s1") (auto simp: decodeRune_def Let_def simp flip: b0_def)
    define b1 where "b1 = (of_char b :: nat) - 0x80"
    define b2 where "b2 = (of_char c :: nat) - 0x80"
    have c: "between (if b0 = 0xE0 then 0xA0 else 0x80) (if b0 = 0xED then 0x9F else 0xBF) b" "cont c"
      using assms s s1 3 by (auto simp: decodeRune_def Let_def split: if_splits simp flip: b0_def)
    then have b: "b = byte (0x80 + b1)" "b1 < 64" "c = byte (0x80 + b2)" "b2 < 64"
      "b0 = 0xE0 \<Longrightarrow> 32 \<le> b1" "b0 = 0xED \<Longrightarrow> b1 < 32"
      by (auto simp: b1_def b2_def cont_def byte_def between_def split: if_splits)
    have r: "r = (b0 - 0xE0) * 4096 + b1 * 64 + b2 \<and> w = 3"
      using assms s s1 3 c by (auto simp: decodeRune_def Let_def b1_def b2_def simp flip: b0_def)
    have "r = ((b0 - 0xE0) * 64 + b1) * 64 + b2" using r by simp
    then have d: "r div 4096 = b0 - 0xE0" "r div 64 mod 64 = b1" "r mod 64 = b2"
      using digits64 [OF b(2,4), of "b0 - 0xE0"] by metis+
    moreover have lo: "0x800 \<le> r" "r < 0x10000" using r b(2,4) b(5) 3 by (cases "b0 = 0xE0"; simp)+
    moreover have "scalar r" using r b(2,4) b(6) 3 lo unfolding scalar_def by (cases "b0 = 0xED") auto
    ultimately show ?thesis using r s s1 a b(1,3) 3 by (simp add: encodeRune_def numeral_3_eq_3)
  next
    case 4
    then obtain b c d s4 where s1: "s1 = b # c # d # s4"
      using assms s by (cases s1; cases "tl s1"; cases "tl (tl s1)") (auto simp: decodeRune_def Let_def simp flip: b0_def)
    define b1 where "b1 = (of_char b :: nat) - 0x80"
    define b2 where "b2 = (of_char c :: nat) - 0x80"
    define b3 where "b3 = (of_char d :: nat) - 0x80"
    have c: "between (if b0 = 0xF0 then 0x90 else 0x80) (if b0 = 0xF4 then 0x8F else 0xBF) b" "cont c" "cont d"
      using assms s s1 4 by (auto simp: decodeRune_def Let_def split: if_splits simp flip: b0_def)
    then have b: "b = byte (0x80 + b1)" "b1 < 64" "c = byte (0x80 + b2)" "b2 < 64" "d = byte (0x80 + b3)" "b3 < 64"
      "b0 = 0xF0 \<Longrightarrow> 16 \<le> b1" "b0 = 0xF4 \<Longrightarrow> b1 < 16"
      by (auto simp: b1_def b2_def b3_def cont_def byte_def between_def split: if_splits)
    have r: "r = (b0 - 0xF0) * 262144 + b1 * 4096 + b2 * 64 + b3 \<and> w = 4"
      using assms s s1 4 c by (auto simp: decodeRune_def Let_def b1_def b2_def b3_def simp flip: b0_def)
    let ?q = "(b0 - 0xF0) * 64 + b1"
    have q: "r = (?q * 64 + b2) * 64 + b3" using r by simp
    have 3: "r div 64 mod 64 = b2" "r mod 64 = b3" "r div 4096 = ?q" using q digits64 [OF b(4,6), of ?q] by metis+
    have "r div (4096 * 64) = b0 - 0xF0" unfolding div_mult2_eq 3 using b(2) by simp
    then have d: "r div 262144 = b0 - 0xF0" "r div 4096 mod 64 = b1" using 3 b(2) by auto
    have lo: "0x10000 \<le> r" using r b(7) 4 by (cases "b0 = 0xF0") auto
    have hi: "r < 0x110000" using r b(2,4,6) b(8) 4 by (cases "b0 = 0xF4") auto
    have "encodeRune r = [byte (0xF0 + (b0 - 0xF0)), byte (0x80 + b1), byte (0x80 + b2), byte (0x80 + b3)]"
      using lo b(2) unfolding encodeRune_def 3 d by simp
    then have "encodeRune r = [a, b, c, d]" using a(1) b(1,3,5) 4 by simp
    then show ?thesis using lo hi r s s1 by (simp add: scalar_def)
  qed
qed

lemma decoded_encode: "scalar r \<Longrightarrow> decodeRune (encodeRune r) = Some (r, length (encodeRune r))"
  using decodeRune_encodeRune [of r "[]"] by simp

lemma runes_step:
  "runes [] = []"
  "s \<noteq> [] \<Longrightarrow> decodeRune s = None \<Longrightarrow> runes s = 0xFFFD # runes (tl s)"
  "decodeRune s = Some (r, w) \<Longrightarrow> runes s = r # runes (drop w s)"
proof -
  show "runes [] = []" by (simp add: runes.simps)
  show "s \<noteq> [] \<Longrightarrow> decodeRune s = None \<Longrightarrow> runes s = 0xFFFD # runes (tl s)"
    by (cases s) (simp_all add: runes.simps [of "_ # _"])
  show "decodeRune s = Some (r, w) \<Longrightarrow> runes s = r # runes (drop w s)"
    using decodeRune_width [of s r w] by (cases s; cases w) (auto simp: runes.simps [of "_ # _"] decodeRune_def)
qed

lemma runes_scalar: "list_all scalar (runes s)"
proof (induction "length s" arbitrary: s rule: less_induct)
  case less
  show ?case
  proof (cases "s = []")
    case False
    show ?thesis
    proof (cases "decodeRune s")
      case None
      have "list_all scalar (runes (tl s))" using less False by simp
      then show ?thesis using runes_step(2) [OF False None] by (simp add: scalar_def)
    next
      case (Some rw)
      obtain r w where rw: "decodeRune s = Some (r, w)" using Some by (cases rw) auto
      have "list_all scalar (runes (drop w s))" using less [of "drop w s"] decodeRune_width [OF rw] by auto
      then show ?thesis using runes_step(3) [OF rw] decodeRune_bytes [OF rw] by simp
    qed
  qed (simp add: runes_step)
qed

lemma encode_valid: "list_all scalar rs \<Longrightarrow> validUTF8 (concat (map encodeRune rs))"
  by (induction rs) (auto simp: validUTF8_rune decoded_encode)

lemma jsonText_valid [simp]: "validUTF8 (jsonText s)"
  unfolding jsonText_def by (rule encode_valid [OF runes_scalar])

lemma jsonText_id: "validUTF8 s \<Longrightarrow> jsonText s = s"
proof (induction s rule: validUTF8.induct)
  case (1 s)
  show ?case
  proof (cases "s = []")
    case False
    then obtain r w where d: "decodeRune s = Some (r, w)" "validUTF8 (drop w s)"
      using 1(2) by (auto simp: validUTF8.simps [of s] split: option.splits)
    have "jsonText (drop w s) = drop w s" using 1(1) [OF False d(1) refl d(2)] .
    then show ?thesis using decodeRune_bytes [OF d(1)] by (simp add: jsonText_def runes_step(3) [OF d(1)])
  qed (simp add: jsonText_def runes_step)
qed

lemma ascii_valid: "list_all (\<lambda>c. (of_char c :: nat) < 0x80) s \<Longrightarrow> validUTF8 s"
proof (induction s)
  case (Cons c s)
  have "decodeRune [c] = Some (of_char c, length [c])" using Cons.prems by (simp add: decodeRune_def Let_def)
  from validUTF8_rune [OF this, of s] show ?case using Cons by simp
qed simp

subsection \<open>Integers in JSON\<close>

lemma doubleOfInt_exact:
  assumes "0 < i" "i < 2 ^ 53"
  obtains f where "doubleOfInt i = Some f" "canonicalDouble f" "magnitude f = of_int i" "normNumber f = f"
proof -
  let ?x = "of_int i :: rat"
  let ?k = "log2Floor ?x"
  let ?e = "max (- 1074) (?k - 52)"
  have pos: "0 < ?x" using assms(1) by simp
  note b = log2Floor_bounds [OF pos]
  have "pow 2 ?k \<le> ?x" using b by simp
  also have "?x < of_int (2 ^ 53)" using assms(2) by (simp only: of_int_less_iff)
  also have "of_int (2 ^ 53) = pow 2 53" by (simp add: pow_def)
  finally have "?k < 53" by (simp add: pow_less_iff)
  moreover have "- 1 < ?k"
  proof -
    have "pow 2 0 \<le> ?x" using assms(1) by simp
    then have "pow 2 0 < pow 2 (?k + 1)" using b by linarith
    then show ?thesis by (simp add: pow_less_iff del: pow_0)
  qed
  ultimately have e: "?e = ?k - 52" "?k - 52 \<le> 0" "- 52 \<le> ?k - 52" by auto
  have p: "pow 2 (- ?e) = of_int (2 ^ nat (- ?e))" using e by (simp add: pow_def)
  have sc: "?x * pow 2 (- ?e) = of_int (i * 2 ^ nat (- ?e))" unfolding p by simp
  have m: "roundEven (?x * pow 2 (- ?e)) = i * 2 ^ nat (- ?e)" unfolding sc by (rule roundEven_int)
  let ?m = "i * 2 ^ nat (- ?e)"
  have "?x * pow 2 (- ?e) < pow 2 53"
  proof -
    have "?x * pow 2 (- ?e) < pow 2 (?k + 1) * pow 2 (- ?e)" using b pow_pos [of 2 "- ?e"] by simp
    also have "\<dots> = pow 2 (?k + 1 + - ?e)" by (simp only: pow_add [of 2] numeral_neq_zero not_False_eq_True)
    also have "?k + 1 + - ?e = 53" using e by simp
    finally show ?thesis .
  qed
  then have lt: "of_int ?m < (of_int (2 ^ 53) :: rat)" unfolding sc by (simp add: pow_def)
  then have "?m < 2 ^ 53" by (simp only: of_int_less_iff)
  then have d: "doubleOfInt i = Some (False, ?m, ?e)"
    using assms(1) m e unfolding doubleOfInt_def doubleOfRat_def by (simp add: Let_def)
  have mag: "magnitude (False, ?m, ?e) = ?x"
    unfolding magnitude_def prod.case sc [symmetric] mult.assoc pow_minus [of 2, OF zero_neq_numeral [symmetric]] by simp
  have c: "canonicalDouble (False, ?m, ?e)"
    using d assms(1) doubleOfRat_canonical [of False ?x] unfolding doubleOfInt_def by simp
  have "normNumber (False, ?m, ?e) = (False, ?m, ?e)" using mag assms(1) by (simp add: normNumber_def)
  then show thesis using that d mag c by blast
qed

subsection \<open>Fields joined by the unit separator\<close>

lemma itoa_no_sep: "unitSep \<notin> set (itoa n)"
proof -
  have "unitSep \<notin> set (natDigits m)" for m
    using natDigits_isDigit [of m] by (auto simp: list_all_iff isDigit_def unitSep_def dest: bspec [where x = "CHR 0x1F"])
  then show ?thesis by (auto simp: itoa_def unitSep_def)
qed

lemma format_no_sep: "unitSep \<notin> set (FormatNumberES6 f)"
proof -
  obtain d p where dp: "shortestDecimal f = (d, p)" by (cases "shortestDecimal f")
  have "unitSep \<notin> set (take n (itoa d))" "unitSep \<notin> set (drop n (itoa d))" for n
    using itoa_no_sep [of d] by (auto dest: in_set_takeD in_set_dropD)
  moreover have "unitSep \<notin> {CHR ''-'', CHR ''+'', CHR ''e'', CHR ''.'', CHR ''0''}" by (simp add: unitSep_def)
  ultimately show ?thesis using itoa_no_sep by (simp add: FormatNumberES6_def dp Let_def)
qed

lemma hexdigit_no_sep: "n < 16 \<Longrightarrow> hexdigit n \<noteq> unitSep"
  using hexVal_hexdigit [of n] by (auto simp: unitSep_def hexVal_def between_def)

lemma string_no_sep: "unitSep \<notin> set (writeCanonicalString s)"
proof -
  have "unitSep \<notin> set (escapeByte c)" for c
  proof (cases "(of_char c :: nat) < 0x20")
    case True
    then have "hexdigit (of_char c div 16) \<noteq> unitSep" "hexdigit (of_char c mod 16) \<noteq> unitSep"
      by (auto intro!: hexdigit_no_sep)
    then show ?thesis using True by (auto simp: escapeByte_def unitSep_def)
  next
    case False
    then have "c \<noteq> unitSep" by (auto simp: unitSep_def)
    then show ?thesis using False by (auto simp: escapeByte_def unitSep_def)
  qed
  then show ?thesis by (auto simp: writeCanonicalString_def unitSep_def)
qed

lemma set_joinWith: "set (joinWith sep xs) \<subseteq> set sep \<union> (\<Union>x \<in> set xs. set x)"
  by (induction sep xs rule: joinWith.induct) auto

lemma write_no_sep: "unitSep \<notin> set (writeCanonical v)"
proof (induction v)
  case (JArray vs)
  then show ?case using set_joinWith [of "'',''" "map writeCanonical vs"] by (fastforce simp: unitSep_def)
next
  case (JObject ms)
  have "unitSep \<notin> set (writeMember (k, writeCanonical v))" if "(k, v) \<in> set ms" for k v
    using JObject [OF that, of v] string_no_sep [of k] by (auto simp: writeMember_def unitSep_def)
  then show ?case
    using set_joinWith [of "'',''" "map (\<lambda>(k, v). writeMember (k, writeCanonical v)) (sort_key (utf16 \<circ> fst) ms)"]
    unfolding write_object by (fastforce simp: unitSep_def)
qed (auto simp: format_no_sep string_no_sep, auto simp: unitSep_def)

lemma takeWhile_sep: "c \<notin> set a \<Longrightarrow> xs = [] \<or> hd xs = c \<Longrightarrow> takeWhile (\<lambda>x. x \<noteq> c) (a @ xs) = a"
  by (induction a) (cases xs; auto)+

lemma split_at_sep:
  assumes "c \<notin> set a" "c \<notin> set a'" "a @ xs = a' @ ys" "xs = [] \<or> hd xs = c" "ys = [] \<or> hd ys = c"
  shows "a = a' \<and> xs = ys"
proof -
  have "a = a'" using takeWhile_sep [OF assms(1,4)] takeWhile_sep [OF assms(2,5)] assms(3) by simp
  then show ?thesis using assms(3) by simp
qed

lemma sep_start: "concat (map ((#) c) rs) = [] \<or> hd (concat (map ((#) c) rs)) = c"
  by (cases rs) auto

lemma tagged_parts_inj:
  assumes "\<forall>p \<in> set ps. c \<notin> set p" "\<forall>q \<in> set qs. c \<notin> set q"
    "concat (map (\<lambda>p. c # p) ps) = concat (map (\<lambda>p. c # p) qs)"
  shows "ps = qs"
  using assms
proof (induction ps arbitrary: qs)
  case Nil
  then show ?case by (cases qs) auto
next
  case (Cons p ps)
  then obtain q qs' where qs: "qs = q # qs'" by (cases qs) auto
  have "p = q \<and> concat (map ((#) c) ps) = concat (map ((#) c) qs')"
    using Cons.prems qs by (intro split_at_sep [of c, OF _ _ _ sep_start sep_start]) auto
  then show ?case using Cons.IH [of qs'] Cons.prems qs by auto
qed

lemma tagged_text_inj:
  assumes "unitSep \<notin> set d" "unitSep \<notin> set d'" "\<forall>p \<in> set ps. unitSep \<notin> set p" "\<forall>q \<in> set qs. unitSep \<notin> set q"
  shows "taggedText d ps = taggedText d' qs \<longleftrightarrow> d = d' \<and> ps = qs"
proof
  assume "taggedText d ps = taggedText d' qs"
  then have "d = d' \<and> concat (map (\<lambda>p. unitSep # p) ps) = concat (map (\<lambda>p. unitSep # p) qs)"
    using assms unfolding taggedText_def by (intro split_at_sep [of unitSep, OF _ _ _ sep_start sep_start]) auto
  then show "d = d' \<and> ps = qs" using tagged_parts_inj [OF assms(3,4)] by blast
qed auto

subsection \<open>Values and their members\<close>

lemma canonical_Inr: "canonical v = Inr c \<longleftrightarrow> jsonDepth v \<le> maxJSONDepth \<and> keysDistinct v \<and> c = writeCanonical v"
  by (auto simp: canonical_def CanonicalizeValue_def)

lemma write_inj:
  assumes "wfJson u" "wfJson v" "jsonDepth u \<le> maxJSONDepth" "jsonDepth v \<le> maxJSONDepth"
  shows "writeCanonical u = writeCanonical v \<longleftrightarrow> normJson u = normJson v"
  using parse_written [OF assms(1,3)] parse_written [OF assms(2,4)] write_norm [of u] write_norm [of v] by auto

lemma canonicalAll_Inr:
  "canonicalAll vs = Inr f \<longleftrightarrow> (\<forall>v \<in> set vs. jsonDepth v \<le> maxJSONDepth \<and> keysDistinct v) \<and> f = map writeCanonical vs"
  by (induction vs arbitrary: f) (auto simp: bindR_Inr_iff canonical_Inr)

lemma write_all_inj:
  assumes "\<forall>v \<in> set us. wfJson v \<and> jsonDepth v \<le> maxJSONDepth" "\<forall>v \<in> set vs. wfJson v \<and> jsonDepth v \<le> maxJSONDepth"
  shows "map writeCanonical us = map writeCanonical vs \<longleftrightarrow> map normJson us = map normJson vs"
  using assms
proof (induction us arbitrary: vs)
  case (Cons u us)
  then show ?case by (cases vs) (auto simp: write_inj)
qed auto

lemma norm_lookup:
  assumes "distinct (map fst ms)"
  shows "map_of (map (\<lambda>(k, v). (k, normJson v)) (sort_key (utf16 \<circ> fst) ms)) k = map_option normJson (map_of ms k)"
proof -
  have "distinct (map fst (sort_key (utf16 \<circ> fst) ms))" using assms by (simp add: distinct_map)
  then have "map_of (sort_key (utf16 \<circ> fst) ms) = map_of ms"
    using assms by (simp add: map_of_inject_set)
  then show ?thesis by (simp add: map_of_map comp_def)
qed

lemma norm_object_eq:
  assumes "distinct (map fst ms)" "distinct (map fst ms')" "normJson (JObject ms) = normJson (JObject ms')"
  shows "map_option normJson (map_of ms k) = map_option normJson (map_of ms' k)"
  using assms norm_lookup [of ms k] norm_lookup [of ms' k] unfolding norm_object by simp

lemma norm_jstr [simp]: "normJson (jstr s) = jstr s" "wfJson (jstr s)" "jsonDepth (jstr s) = 0" "keysDistinct (jstr s)"
  by (simp_all add: jstr_def)

lemma jstr_inj: "validUTF8 s \<Longrightarrow> validUTF8 t \<Longrightarrow> jstr s = jstr t \<longleftrightarrow> s = t"
  by (simp add: jstr_def jsonText_id)

lemma norm_jopt [simp]: "normJson (jopt v) = jopt v" "wfJson (jopt v)" "jsonDepth (jopt v) = 0" "keysDistinct (jopt v)"
  by (cases v; simp add: jopt_def)+

lemma jopt_inj:
  "pred_option validUTF8 s \<Longrightarrow> pred_option validUTF8 t \<Longrightarrow> jopt s = jopt t \<longleftrightarrow> s = t"
  by (cases s; cases t) (auto simp: jopt_def jstr_inj, auto simp: jstr_def)

lemma jint_facts:
  assumes "0 < i" "i < 2 ^ 53"
  shows "normJson (jint i) = jint i" "wfJson (jint i)"
  using doubleOfInt_exact [OF assms] by (metis jint_def normJson.simps(1) option.simps(5) wfJson.simps(1))+

lemma jint_depth [simp]: "jsonDepth (jint i) = 0" "keysDistinct (jint i)"
  by (simp_all add: jint_def split: option.splits)

lemma jint_inj:
  assumes "0 < i" "i < 2 ^ 53" "0 < j" "j < 2 ^ 53"
  shows "jint i = jint j \<longleftrightarrow> i = j"
proof -
  obtain f where f: "doubleOfInt i = Some f" "magnitude f = of_int i" by (rule doubleOfInt_exact [OF assms(1,2)])
  obtain g where g: "doubleOfInt j = Some g" "magnitude g = of_int j" by (rule doubleOfInt_exact [OF assms(3,4)])
  show ?thesis using f g by (auto simp: jint_def)
qed

lemma omitempty_lookup: "map_of (omitempty k s) k' = (if s \<noteq> [] \<and> k' = k then Some (jstr s) else None)"
  by (simp add: omitempty_def)

lemma omitempty_keys: "map fst (omitempty k s) = (if s = [] then [] else [k])"
  by (simp add: omitempty_def)

lemma map_inj_on:
  assumes "map f xs = map f ys" "\<And>x y. x \<in> set xs \<Longrightarrow> y \<in> set ys \<Longrightarrow> f x = f y \<Longrightarrow> x = y"
  shows "xs = ys"
  using assms
proof (induction xs arbitrary: ys)
  case (Cons x xs)
  then obtain y ys' where "ys = y # ys'" by (cases ys) auto
  then show ?case using Cons.IH [of ys'] Cons.prems by auto
qed auto

subsection \<open>Plan and material hashes\<close>

definition itemValid :: "unanalysedItem \<Rightarrow> bool" where
  "itemValid it \<longleftrightarrow> validUTF8 (ui_Key it) \<and> validUTF8 (ui_Form it) \<and> validUTF8 (ui_Reason it)"

definition gapValid :: "gapRef \<Rightarrow> bool" where
  "gapValid g \<longleftrightarrow> validUTF8 (gr_Key g) \<and> validUTF8 (gr_Hash g)"

definition planValid :: "planHashInput \<Rightarrow> bool" where
  "planValid p \<longleftrightarrow>
    list_all validUTF8 [ph_ControlID p, ph_Kind p, ph_Delivery p, ph_DesiredAttachment p, ph_ArtifactDisposition p,
      ph_BundleHash p, ph_PreconditionHash p] \<and>
    list_all (pred_option validUTF8) [ph_DesiredBoundaryARN p, ph_DesiredDocumentHash p, ph_ReplacedBoundaryARN p,
      ph_ResourcePolicyScanRunID p] \<and>
    list_all itemValid (ph_Unanalysed p) \<and> pred_option wfJson (ph_Ops p)"

text \<open>The facts of a plan: unanalysed items by key, the operations as a JSON value.\<close>

definition planFacts :: "planHashInput \<Rightarrow> planHashInput" where
  "planFacts p = p\<lparr>ph_Unanalysed := sortedUnanalysed (ph_Unanalysed p),
    ph_Ops := Some (normJson (derefOr (ph_Ops p) (JArray [])))\<rparr>"

definition planText :: "planHashInput \<Rightarrow> hashError + string" where
  "planText p = bindR (planFields p True) (\<lambda>f. Inr (taggedText DomainPlan f))"

definition materialText :: "materialHashInput \<Rightarrow> hashError + string" where
  "materialText m = bindR (materialFields m) (\<lambda>f. Inr (taggedText DomainMaterial f))"

text \<open>The facts of a material input: those of the plan without its evidence identifiers, the
  impact and the gaps by key.\<close>

definition materialFacts :: "materialHashInput \<Rightarrow> materialHashInput" where
  "materialFacts m = m\<lparr>mh_Plan := planFacts ((mh_Plan m)\<lparr>ph_BundleHash := [], ph_EvidenceRev := 0,
      ph_ResourcePolicyScanRunID := None\<rparr>),
    mh_Gaps := sort_key gr_Key (mh_Gaps m)\<rparr>"

lemma unanalysed_wf [simp]: "wfJson (unanalysedJSON it)"
  by (auto simp: unanalysedJSON_def omitempty_def ascii_valid)

lemma norm_unanalysed:
  assumes "itemValid i" "itemValid j"
  shows "normJson (unanalysedJSON i) = normJson (unanalysedJSON j) \<longleftrightarrow> i = j"
proof
  assume eq: "normJson (unanalysedJSON i) = normJson (unanalysedJSON j)"
  let ?ms = "\<lambda>it. (''key'', jstr (ui_Key it)) # omitempty ''form'' (ui_Form it) @ omitempty ''reason'' (ui_Reason it)"
  have d: "distinct (map fst (?ms it))" for it by (simp add: omitempty_def)
  have l: "map_option normJson (map_of (?ms i) k) = map_option normJson (map_of (?ms j) k)" for k
    using norm_object_eq [OF d d] eq unfolding unanalysedJSON_def by blast
  show "i = j" using l [of "''key''"] l [of "''form''"] l [of "''reason''"] assms
    by (auto simp: itemValid_def omitempty_lookup map_add_def jstr_inj split: if_splits intro!: unanalysedItem.equality)
qed simp

lemma gapRef_wf [simp]: "wfJson (gapRefJSON g)"
  by (simp add: gapRefJSON_def ascii_valid)

lemma norm_gapRef:
  assumes "gapValid g" "gapValid h"
  shows "normJson (gapRefJSON g) = normJson (gapRefJSON h) \<longleftrightarrow> g = h"
proof
  assume eq: "normJson (gapRefJSON g) = normJson (gapRefJSON h)"
  let ?ms = "\<lambda>g. [(''key'', jstr (gr_Key g)), (''hash'', jstr (gr_Hash g))]"
  have l: "map_option normJson (map_of (?ms g) k) = map_option normJson (map_of (?ms h) k)" for k
    using norm_object_eq [of "?ms g" "?ms h"] eq unfolding gapRefJSON_def by simp
  show "g = h" using l [of "''key''"] l [of "''hash''"] assms
    by (auto simp: gapValid_def jstr_inj intro!: gapRef.equality)
qed simp

lemma norm_map_inj:
  assumes "\<forall>x \<in> set xs. P x" "\<forall>y \<in> set ys. P y"
    "\<And>x y. P x \<Longrightarrow> P y \<Longrightarrow> normJson (h x) = normJson (h y) \<longleftrightarrow> x = y"
  shows "normJson (JArray (map h xs)) = normJson (JArray (map h ys)) \<longleftrightarrow> xs = ys"
proof
  assume "normJson (JArray (map h xs)) = normJson (JArray (map h ys))"
  then have "map (normJson \<circ> h) xs = map (normJson \<circ> h) ys" by simp
  then show "xs = ys" by (rule map_inj_on) (use assms in \<open>simp add: comp_def\<close>)
qed simp

lemma derefOr_wf: "pred_option wfJson v \<Longrightarrow> wfJson (derefOr v (JArray []))"
  by (cases v) auto

lemma plan_parts_wf:
  assumes "planValid p"
  shows "\<forall>v \<in> set (planHead p). wfJson v" "\<forall>v \<in> set (planTail p). wfJson v"
  using assms derefOr_wf [of "ph_Ops p"] by (auto simp: planHead_def planTail_def planValid_def)

lemma planHead_inj:
  assumes "planValid p" "planValid q"
  shows "map normJson (planHead p) = map normJson (planHead q) \<longleftrightarrow>
    ph_ControlID p = ph_ControlID q \<and> ph_Kind p = ph_Kind q \<and> ph_Delivery p = ph_Delivery q \<and>
    ph_DesiredAttachment p = ph_DesiredAttachment q \<and> ph_DesiredBoundaryARN p = ph_DesiredBoundaryARN q \<and>
    ph_DesiredDocumentHash p = ph_DesiredDocumentHash q \<and> ph_ReplacedBoundaryARN p = ph_ReplacedBoundaryARN q \<and>
    ph_ArtifactDisposition p = ph_ArtifactDisposition q"
  using assms by (simp add: planHead_def planValid_def jstr_inj jopt_inj)

lemma planEvidence_inj:
  assumes "planValid p" "planValid q" "0 < ph_EvidenceRev p" "ph_EvidenceRev p < 2 ^ 53"
    "0 < ph_EvidenceRev q" "ph_EvidenceRev q < 2 ^ 53"
  shows "map normJson (planEvidence p) = map normJson (planEvidence q) \<longleftrightarrow>
    ph_BundleHash p = ph_BundleHash q \<and> ph_EvidenceRev p = ph_EvidenceRev q \<and>
    ph_ResourcePolicyScanRunID p = ph_ResourcePolicyScanRunID q"
  using assms jint_inj [OF assms(3-6)] jint_facts(1) [OF assms(3,4)] jint_facts(1) [OF assms(5,6)]
  by (simp add: planEvidence_def planValid_def jstr_inj jopt_inj)

lemma planTail_inj:
  assumes "planValid p" "planValid q"
  shows "map normJson (planTail p) = map normJson (planTail q) \<longleftrightarrow>
    ph_FirstAttachment p = ph_FirstAttachment q \<and> sortedUnanalysed (ph_Unanalysed p) = sortedUnanalysed (ph_Unanalysed q) \<and>
    ph_PreconditionHash p = ph_PreconditionHash q \<and>
    normJson (derefOr (ph_Ops p) (JArray [])) = normJson (derefOr (ph_Ops q) (JArray []))"
proof -
  have v: "\<forall>x \<in> set (sortedUnanalysed (ph_Unanalysed r)). itemValid x" if "planValid r" for r
    using that by (simp add: sortedUnanalysed_def planValid_def list_all_iff)
  note n = norm_map_inj [where h = unanalysedJSON, OF v [OF assms(1)] v [OF assms(2)] norm_unanalysed]
  show ?thesis using assms n unfolding planTail_def list.map planValid_def by (simp add: jstr_inj)
qed

lemma planFacts_eq:
  "planFacts p = planFacts q \<longleftrightarrow>
    (ph_ControlID p = ph_ControlID q \<and> ph_Kind p = ph_Kind q \<and> ph_Delivery p = ph_Delivery q \<and>
     ph_DesiredAttachment p = ph_DesiredAttachment q \<and> ph_DesiredBoundaryARN p = ph_DesiredBoundaryARN q \<and>
     ph_DesiredDocumentHash p = ph_DesiredDocumentHash q \<and> ph_ReplacedBoundaryARN p = ph_ReplacedBoundaryARN q \<and>
     ph_ArtifactDisposition p = ph_ArtifactDisposition q) \<and>
    (ph_BundleHash p = ph_BundleHash q \<and> ph_EvidenceRev p = ph_EvidenceRev q \<and>
     ph_ResourcePolicyScanRunID p = ph_ResourcePolicyScanRunID q) \<and>
    (ph_FirstAttachment p = ph_FirstAttachment q \<and> sortedUnanalysed (ph_Unanalysed p) = sortedUnanalysed (ph_Unanalysed q) \<and>
     ph_PreconditionHash p = ph_PreconditionHash q \<and>
     normJson (derefOr (ph_Ops p) (JArray [])) = normJson (derefOr (ph_Ops q) (JArray [])))"
  by (cases p; cases q) (auto simp: planFacts_def)

lemma domains_no_sep: "unitSep \<notin> set DomainPlan" "unitSep \<notin> set DomainMaterial"
  by (simp_all add: go_consts)

lemma canonical_texts_inj:
  assumes "canonicalAll us = Inr f" "canonicalAll vs = Inr g" "\<forall>v \<in> set us. wfJson v" "\<forall>v \<in> set vs. wfJson v"
    "unitSep \<notin> set d"
  shows "taggedText d f = taggedText d g \<longleftrightarrow> map normJson us = map normJson vs"
proof -
  have "\<forall>p \<in> set f. unitSep \<notin> set p" "\<forall>p \<in> set g. unitSep \<notin> set p"
    using assms(1,2) write_no_sep by (auto simp: canonicalAll_Inr)
  then have "taggedText d f = taggedText d g \<longleftrightarrow> f = g" using tagged_text_inj [OF assms(5,5)] by blast
  also have "\<dots> \<longleftrightarrow> map normJson us = map normJson vs"
    using assms(1,2) write_all_inj [of us vs] assms(3,4) by (auto simp: canonicalAll_Inr)
  finally show ?thesis .
qed

lemma map_append_eq:
  assumes "length a = length a'"
  shows "map f (a @ b) = map f (a' @ b') \<longleftrightarrow> map f a = map f a' \<and> map f b = map f b'"
  using assms by simp

lemma planText_iff:
  assumes "planText p = Inr x" "planText q = Inr y" "planValid p" "planValid q"
    "ph_EvidenceRev p < 2 ^ 53" "ph_EvidenceRev q < 2 ^ 53"
  shows "x = y \<longleftrightarrow> planFacts p = planFacts q"
proof -
  obtain f g where f: "planFields p True = Inr f" "x = taggedText DomainPlan f"
    and g: "planFields q True = Inr g" "y = taggedText DomainPlan g"
    using assms(1,2) by (auto simp: planText_def bindR_Inr_iff)
  have pos: "0 < ph_EvidenceRev p" "0 < ph_EvidenceRev q"
    using f(1) g(1) by (auto simp: planFields_def split: if_splits)
  have cf: "canonicalAll (planHead p @ planEvidence p @ planTail p) = Inr f"
    and cg: "canonicalAll (planHead q @ planEvidence q @ planTail q) = Inr g"
    using f(1) g(1) by (auto simp: planFields_def split: if_splits)
  have wf: "\<forall>v \<in> set (planHead r @ planEvidence r @ planTail r). wfJson v"
    if "planValid r" "0 < ph_EvidenceRev r" "ph_EvidenceRev r < 2 ^ 53" for r
    using plan_parts_wf [OF that(1)] jint_facts(2) [OF that(2,3)] by (auto simp: planEvidence_def)
  have "x = y \<longleftrightarrow> map normJson (planHead p @ planEvidence p @ planTail p) = map normJson (planHead q @ planEvidence q @ planTail q)"
    unfolding f(2) g(2)
    by (rule canonical_texts_inj [OF cf cg wf [OF assms(3) pos(1) assms(5)] wf [OF assms(4) pos(2) assms(6)] domains_no_sep(1)])
  also have "\<dots> \<longleftrightarrow> map normJson (planHead p) = map normJson (planHead q) \<and>
      map normJson (planEvidence p) = map normJson (planEvidence q) \<and> map normJson (planTail p) = map normJson (planTail q)"
    by (simp only: map_append_eq planHead_def planEvidence_def list.size)
  also have "\<dots> \<longleftrightarrow> planFacts p = planFacts q"
    unfolding planFacts_eq planHead_inj [OF assms(3,4)] planTail_inj [OF assms(3,4)]
      planEvidence_inj [OF assms(3,4) pos(1) assms(5) pos(2) assms(6)] ..
  finally show ?thesis .
qed

lemma materialFacts_eq:
  "materialFacts m = materialFacts n \<longleftrightarrow>
    (ph_ControlID (mh_Plan m) = ph_ControlID (mh_Plan n) \<and> ph_Kind (mh_Plan m) = ph_Kind (mh_Plan n) \<and>
     ph_Delivery (mh_Plan m) = ph_Delivery (mh_Plan n) \<and> ph_DesiredAttachment (mh_Plan m) = ph_DesiredAttachment (mh_Plan n) \<and>
     ph_DesiredBoundaryARN (mh_Plan m) = ph_DesiredBoundaryARN (mh_Plan n) \<and>
     ph_DesiredDocumentHash (mh_Plan m) = ph_DesiredDocumentHash (mh_Plan n) \<and>
     ph_ReplacedBoundaryARN (mh_Plan m) = ph_ReplacedBoundaryARN (mh_Plan n) \<and>
     ph_ArtifactDisposition (mh_Plan m) = ph_ArtifactDisposition (mh_Plan n)) \<and>
    (ph_FirstAttachment (mh_Plan m) = ph_FirstAttachment (mh_Plan n) \<and>
     sortedUnanalysed (ph_Unanalysed (mh_Plan m)) = sortedUnanalysed (ph_Unanalysed (mh_Plan n)) \<and>
     ph_PreconditionHash (mh_Plan m) = ph_PreconditionHash (mh_Plan n) \<and>
     normJson (derefOr (ph_Ops (mh_Plan m)) (JArray [])) = normJson (derefOr (ph_Ops (mh_Plan n)) (JArray []))) \<and>
    mh_ImpactHash m = mh_ImpactHash n \<and> sort_key gr_Key (mh_Gaps m) = sort_key gr_Key (mh_Gaps n)"
proof -
  have "materialFacts m = materialFacts n \<longleftrightarrow>
      planFacts ((mh_Plan m)\<lparr>ph_BundleHash := [], ph_EvidenceRev := 0, ph_ResourcePolicyScanRunID := None\<rparr>) =
      planFacts ((mh_Plan n)\<lparr>ph_BundleHash := [], ph_EvidenceRev := 0, ph_ResourcePolicyScanRunID := None\<rparr>) \<and>
      mh_ImpactHash m = mh_ImpactHash n \<and> sort_key gr_Key (mh_Gaps m) = sort_key gr_Key (mh_Gaps n)"
    by (cases m; cases n) (simp add: materialFacts_def)
  then show ?thesis unfolding planFacts_eq by simp
qed

lemma materialFields_Inr:
  "materialFields m = Inr f \<longleftrightarrow> planComplete (mh_Plan m) \<and> mh_ImpactHash m \<noteq> [] \<and>
    canonicalAll ((planHead (mh_Plan m) @ planTail (mh_Plan m)) @
      [jstr (mh_ImpactHash m), JArray (map gapRefJSON (sort_key gr_Key (mh_Gaps m)))]) = Inr f"
  unfolding materialFields_def planFields_def
  by (auto simp: bindR_Inr_iff canonicalAll_Inr canonical_Inr)

lemma materialText_iff:
  assumes "materialText m = Inr x" "materialText n = Inr y" "planValid (mh_Plan m)" "planValid (mh_Plan n)"
    "validUTF8 (mh_ImpactHash m)" "validUTF8 (mh_ImpactHash n)" "list_all gapValid (mh_Gaps m)" "list_all gapValid (mh_Gaps n)"
  shows "x = y \<longleftrightarrow> materialFacts m = materialFacts n"
proof -
  let ?p = "mh_Plan m" and ?q = "mh_Plan n"
  let ?rest = "\<lambda>m. [jstr (mh_ImpactHash m), JArray (map gapRefJSON (sort_key gr_Key (mh_Gaps m)))]"
  obtain f g where f: "materialFields m = Inr f" "x = taggedText DomainMaterial f"
    and g: "materialFields n = Inr g" "y = taggedText DomainMaterial g"
    using assms(1,2) by (auto simp: materialText_def bindR_Inr_iff)
  have cf: "canonicalAll ((planHead ?p @ planTail ?p) @ ?rest m) = Inr f"
    and cg: "canonicalAll ((planHead ?q @ planTail ?q) @ ?rest n) = Inr g"
    using f(1) g(1) unfolding materialFields_Inr by blast+
  have wf: "\<forall>v \<in> set ((planHead (mh_Plan m) @ planTail (mh_Plan m)) @ ?rest m). wfJson v"
    if "planValid (mh_Plan m)" for m
    using plan_parts_wf [OF that] by auto
  have v: "\<forall>g \<in> set (sort_key gr_Key (mh_Gaps m)). gapValid g" "\<forall>g \<in> set (sort_key gr_Key (mh_Gaps n)). gapValid g"
    using assms(7,8) by (simp_all add: list_all_iff)
  note gaps = norm_map_inj [where h = gapRefJSON, OF v norm_gapRef]
  have "x = y \<longleftrightarrow> map normJson ((planHead ?p @ planTail ?p) @ ?rest m) = map normJson ((planHead ?q @ planTail ?q) @ ?rest n)"
    unfolding f(2) g(2) by (rule canonical_texts_inj [OF cf cg wf [OF assms(3)] wf [OF assms(4)] domains_no_sep(2)])
  also have "\<dots> \<longleftrightarrow> (map normJson (planHead ?p) = map normJson (planHead ?q) \<and> map normJson (planTail ?p) = map normJson (planTail ?q)) \<and>
      map normJson (?rest m) = map normJson (?rest n)"
    by (simp only: map_append_eq planHead_def planTail_def list.size length_append)
  also have "map normJson (?rest m) = map normJson (?rest n) \<longleftrightarrow>
      mh_ImpactHash m = mh_ImpactHash n \<and> sort_key gr_Key (mh_Gaps m) = sort_key gr_Key (mh_Gaps n)"
    using gaps by (simp add: jstr_inj assms(5,6))
  finally show ?thesis
    unfolding planHead_inj [OF assms(3,4)] planTail_inj [OF assms(3,4)] materialFacts_eq by argo
qed

subsection \<open>Properties\<close>

definition examplePlan :: planHashInput where
  "examplePlan = \<lparr>ph_ControlID = ''c1'', ph_Kind = ''apply'', ph_Delivery = ''direct'', ph_DesiredAttachment = ''attached'',
    ph_DesiredBoundaryARN = Some ''arn:b'', ph_DesiredDocumentHash = None, ph_ReplacedBoundaryARN = None,
    ph_ArtifactDisposition = ''keep'', ph_BundleHash = ''sha256:00'', ph_EvidenceRev = 7,
    ph_ResourcePolicyScanRunID = None, ph_FirstAttachment = True,
    ph_Unanalysed = [\<lparr>ui_Key = ''k'', ui_Form = [], ui_Reason = ''r''\<rparr>], ph_PreconditionHash = ''sha256:11'',
    ph_Ops = Some (JArray [])\<rparr>"



definition exampleMaterial :: materialHashInput where
  "exampleMaterial = \<lparr>mh_Plan = examplePlan, mh_ImpactHash = ''sha256:22'',
    mh_Gaps = [\<lparr>gr_Key = ''b'', gr_Hash = ''2''\<rparr>, \<lparr>gr_Key = ''a'', gr_Hash = ''1''\<rparr>]\<rparr>"

text \<open>C29. The material hash is what an unchanged rescan reproduces: it is the SHA-256 of a text
  that two accepted inputs share exactly when they agree on the plan without its evidence
  identifiers (bundle, revision, scan run), on the impact hash and on the gaps.\<close>

theorem material_hash_binds:
  assumes "materialText m = Inr x" "materialText n = Inr y" "planValid (mh_Plan m)" "planValid (mh_Plan n)"
    "validUTF8 (mh_ImpactHash m)" "validUTF8 (mh_ImpactHash n)" "list_all gapValid (mh_Gaps m)" "list_all gapValid (mh_Gaps n)"
  shows "MaterialHash m = Inr (sha256Label x) \<and> MaterialHash n = Inr (sha256Label y) \<and>
    (x = y \<longleftrightarrow> materialFacts m = materialFacts n)"
  using materialText_iff [OF assms] assms(1,2)
  by (auto simp: materialText_def MaterialHash_def taggedHash_def bindR_Inr_iff)

theorem material_hash_binds_witness:
  "\<exists>x. materialText exampleMaterial = Inr x \<and>
    materialText (exampleMaterial\<lparr>mh_Plan := examplePlan\<lparr>ph_BundleHash := ''other'', ph_EvidenceRev := 8\<rparr>\<rparr>) = Inr x"
proof -
  let ?m = "exampleMaterial\<lparr>mh_Plan := examplePlan\<lparr>ph_BundleHash := ''other'', ph_EvidenceRev := 8\<rparr>\<rparr>"
  have "\<not> isl (materialText exampleMaterial)" by code_simp
  moreover have "\<not> isl (materialText ?m)" by code_simp
  ultimately obtain x y where xy: "materialText exampleMaterial = Inr x" "materialText ?m = Inr y"
    by (metis sum.exhaust sum.disc(1))
  have v: "planValid (mh_Plan exampleMaterial)" "planValid (mh_Plan ?m)" "validUTF8 (mh_ImpactHash exampleMaterial)"
    "validUTF8 (mh_ImpactHash ?m)" "list_all gapValid (mh_Gaps exampleMaterial)" "list_all gapValid (mh_Gaps ?m)"
    by (simp_all add: planValid_def exampleMaterial_def examplePlan_def itemValid_def gapValid_def ascii_valid)
  have "materialFacts exampleMaterial = materialFacts ?m" by (simp add: materialFacts_eq) (simp add: exampleMaterial_def)
  then show ?thesis using material_hash_binds [OF xy v] xy by blast
qed

text \<open>
  The bound on the revision is needed: a revision is hashed as the double it is read back as,
  so from \<open>2 ^ 53\<close> on neighbouring revisions share their text.
\<close>

lemma plan_text_revision_collision:
  "planText (p\<lparr>ph_EvidenceRev := 9007199254740993\<rparr>) = planText (p\<lparr>ph_EvidenceRev := 9007199254740992\<rparr>)"
proof -
  have "jint 9007199254740993 = jint 9007199254740992" by code_simp
  then show ?thesis by (simp add: planText_def planFields_def planComplete_def planHead_def planEvidence_def planTail_def)
qed

lemma sorted_remdups_distinct: "sorted zs \<Longrightarrow> distinct (remdups_adj zs)" for zs :: "'b :: linorder list"
  by (induction zs rule: remdups_adj.induct) (auto simp: order.order_iff_strict)

context total_key
begin

lemma map_key_inj: "map key xs = map key ys \<longleftrightarrow> xs = ys"
  using inj_key by (simp add: inj_map_eq_map)

lemma remdups_sort_key: "remdups_adj (sort_key key xs) = remdups_adj (sort_key key ys) \<longleftrightarrow> set xs = set ys"
proof
  assume "remdups_adj (sort_key key xs) = remdups_adj (sort_key key ys)"
  then show "set xs = set ys" by (metis remdups_adj_set set_sort)
next
  assume eq: "set xs = set ys"
  have m: "map key (remdups_adj (sort_key key zs)) = remdups_adj (sort (map key zs))" for zs
  proof -
    have "map key (sort_key key zs) = sort (map key zs)"
      using sort_key_map [of "\<lambda>x. x" key zs] by (simp add: comp_def)
    then show ?thesis using remdups_adj_map_injective [OF inj_key] by metis
  qed
  have "remdups_adj (sort (map key zs)) = sorted_list_of_set (key ` set zs)" for zs
    by (rule sorted_distinct_set_unique) (auto intro: sorted_remdups_distinct)
  then have "map key (remdups_adj (sort_key key xs)) = map key (remdups_adj (sort_key key ys))"
    unfolding m using eq by simp
  then show "remdups_adj (sort_key key xs) = remdups_adj (sort_key key ys)" by (simp only: map_key_inj)
qed

end

interpretation ek: total_key entityKey
  by unfold_locales (auto simp: entityKey_def intro!: attachedEntity.equality)

interpretation ck: total_key consumerKey
  by unfold_locales (auto simp: consumerKey_def intro!: impactConsumer.equality)

interpretation sk: total_key serviceKey
  by unfold_locales (auto simp: serviceKey_def intro!: impactService.equality)


text \<open>A service listed twice is not the same as listed once, although the source's comment says
  every member is de-duplicated.\<close>

lemma impact_duplicates_counted:
  "impactNormalized (im\<lparr>im_Removed := [s, s]\<rparr>) \<noteq> impactNormalized (im\<lparr>im_Removed := [s]\<rparr>)"
  by (simp add: impactNormalized_def)

lemma fingerprint_Inr:
  "Fingerprint k r d = Inr h \<longleftrightarrow> unitSep \<notin> set k \<and> unitSep \<notin> set r \<and> unitSep \<notin> set d \<and> k \<noteq> [] \<and> r \<noteq> [] \<and>
    h = sha256Label (fingerprintText k r d)"
proof -
  have "strContains f [unitSep] \<longleftrightarrow> unitSep \<in> set f" for f
    by (auto simp: strContains_iff dest: split_list)
  then show ?thesis by (auto simp: Fingerprint_def)
qed



text \<open>The state precondition does not depend on the order in which the entities were read.\<close>

lemma state_precondition_order_independent:
  assumes "as_RoleID s = as_RoleID t" "as_BoundaryARN s = as_BoundaryARN t"
    "as_BoundaryDocumentHash s = as_BoundaryDocumentHash t" "mset (as_AttachmentSet s) = mset (as_AttachmentSet t)"
  shows "StatePreconditionHash s = StatePreconditionHash t"
proof -
  have "stateNormalized s = stateNormalized t"
    using assms ek.sort_key_mset by (auto simp: stateNormalized_def intro!: artifactStateFacts.equality)
  then show ?thesis by (simp only: StatePreconditionHash_def stateCanonical_def assms(1-3))
qed

end
