(* ===== verification/Decode.thy ===== *)
theory Decode
  imports PolicyDoc HashProps
begin

section \<open>Decoding IAM policy documents (internal/igagov/canonical.go, decoding)\<close>

text \<open>
  \<^verbatim>\<open>DecodePolicyText\<close> undoes AWS's percent-encoding, \<^verbatim>\<open>DecodePolicyDocument\<close> reads the
  JSON and normalises statements. Errors keep what was wrong, not the wording. The Go map of a
  principal is the association list of its entries in ascending order of the type.
\<close>

subsection \<open>Text\<close>

fun pathUnescape :: "string \<Rightarrow> string option" where
  "pathUnescape [] = Some []"
| "pathUnescape (c # r) =
    (if c = CHR ''%'' then
       (case r of
          a # b # r' \<Rightarrow>
            (case (hexVal a, hexVal b) of
               (Some x, Some y) \<Rightarrow> map_option ((#) (byte (16 * x + y))) (pathUnescape r')
             | _ \<Rightarrow> None)
        | _ \<Rightarrow> None)
     else map_option ((#) c) (pathUnescape r))"

datatype statementError =
    StatementNotObject | SidNotString | BadEffect | NonStringEntry string | NotStringOrArray string
  | PrincipalString string | PrincipalKind string | ConditionNotObject | OperatorNotObject string
  | ConditionValue | NoEffect | ActionChoice | PrincipalChoice | ResourceChoice

datatype documentError =
    UrlDecode | NotIJSON jsonError | DocumentNotObject | VersionNotString | IdNotString | NoStatement
  | StatementKind | BadStatement nat statementError

definition DecodePolicyText :: "string \<Rightarrow> documentError + string" where
  "DecodePolicyText text' =
    (let t = trimSpace text' in
     if hasPrefix t ''{'' then Inr t
     else (case pathUnescape t of None \<Rightarrow> Inl UrlDecode | Some u \<Rightarrow> Inr (trimSpace u)))"

datatype canonicalDocumentError = BadText documentError | NotCanonicalJSON jsonError | ErrNotStorable

definition CanonicalDocument :: "string \<Rightarrow> canonicalDocumentError + (string \<times> string)" where
  "CanonicalDocument text' =
    (case DecodePolicyText text' of
       Inl e \<Rightarrow> Inl (BadText e)
     | Inr raw \<Rightarrow>
         (case Canonicalize raw of
            Inl e \<Rightarrow> Inl (NotCanonicalJSON e)
          | Inr c \<Rightarrow> if checkStorable c then Inr (c, ContentHash c) else Inl ErrNotStorable))"

definition DocumentHash :: "string \<Rightarrow> canonicalDocumentError + string" where
  "DocumentHash text' = bindR (CanonicalDocument text') (\<lambda>(c, h). Inr h)"

subsection \<open>Statements\<close>

fun stringEntries :: "string \<Rightarrow> json list \<Rightarrow> statementError + string list" where
  "stringEntries name [] = Inr []"
| "stringEntries name (v # vs) =
    (case v of
       JString s \<Rightarrow> bindR (stringEntries name vs) (\<lambda>ss. Inr (s # ss))
     | _ \<Rightarrow> Inl (NonStringEntry name))"

definition stringOrArray :: "json \<Rightarrow> string \<Rightarrow> statementError + string list" where
  "stringOrArray v name =
    (case v of
       JString s \<Rightarrow> Inr [s]
     | JArray vs \<Rightarrow> stringEntries name vs
     | _ \<Rightarrow> Inl (NotStringOrArray name))"

definition putEntry :: "string \<Rightarrow> 'a \<Rightarrow> (string \<times> 'a) list \<Rightarrow> (string \<times> 'a) list" where
  "putEntry k v m = insort_key fst (k, v) (filter (\<lambda>e. fst e \<noteq> k) m)"

fun principalMembers :: "string \<Rightarrow> principal \<Rightarrow> (string \<times> json) list \<Rightarrow> statementError + principal" where
  "principalMembers name p [] = Inr p"
| "principalMembers name p ((k, v) # ms) =
    bindR (stringOrArray v (name @ ''.'' @ k)) (\<lambda>vals.
      principalMembers name
        \<lparr>pr_Wildcard = (pr_Wildcard p \<or> (k = ''AWS'' \<and> ''*'' \<in> set vals)), pr_Values = putEntry k vals (pr_Values p)\<rparr> ms)"

definition decodePrincipal :: "json \<Rightarrow> string \<Rightarrow> statementError + principal" where
  "decodePrincipal v name =
    (case v of
       JString s \<Rightarrow> if s \<noteq> ''*'' then Inl (PrincipalString name) else Inr \<lparr>pr_Wildcard = True, pr_Values = []\<rparr>
     | JObject ms \<Rightarrow> principalMembers name \<lparr>pr_Wildcard = False, pr_Values = []\<rparr> ms
     | _ \<Rightarrow> Inl (PrincipalKind name))"

definition conditionValueText :: "json \<Rightarrow> statementError + string" where
  "conditionValueText v =
    (case v of
       JString s \<Rightarrow> Inr s
     | JBool b \<Rightarrow> Inr (writeCanonical v)
     | JNumber f \<Rightarrow> Inr (writeCanonical v)
     | JNull \<Rightarrow> Inr (writeCanonical v)
     | _ \<Rightarrow> Inl ConditionValue)"

fun conditionTexts :: "json list \<Rightarrow> statementError + string list" where
  "conditionTexts [] = Inr []"
| "conditionTexts (v # vs) =
    bindR (conditionValueText v) (\<lambda>s. bindR (conditionTexts vs) (\<lambda>ss. Inr (s # ss)))"

definition conditionValues :: "json \<Rightarrow> statementError + string list" where
  "conditionValues v =
    (case v of
       JArray vs \<Rightarrow> conditionTexts vs
     | _ \<Rightarrow> bindR (conditionValueText v) (\<lambda>s. Inr [s]))"

fun operatorEntries :: "string \<Rightarrow> (string \<times> json) list \<Rightarrow> statementError + conditionEntry list" where
  "operatorEntries op [] = Inr []"
| "operatorEntries op ((k, v) # ms) =
    bindR (conditionValues v) (\<lambda>vals.
    bindR (operatorEntries op ms) (\<lambda>es. Inr (\<lparr>ce_Operator = op, ce_Key = k, ce_Values = vals\<rparr> # es)))"

fun conditionEntries :: "(string \<times> json) list \<Rightarrow> statementError + conditionEntry list" where
  "conditionEntries [] = Inr []"
| "conditionEntries ((op, v) # ms) =
    (case v of
       JObject ks \<Rightarrow>
         bindR (operatorEntries op ks) (\<lambda>es. bindR (conditionEntries ms) (\<lambda>rest. Inr (es @ rest)))
     | _ \<Rightarrow> Inl (OperatorNotObject op))"

definition conditionKey :: "conditionEntry \<Rightarrow> string \<times> string" where
  "conditionKey e = (ce_Operator e, ce_Key e)"

definition decodeCondition :: "json \<Rightarrow> statementError + conditionEntry list" where
  "decodeCondition v =
    (case v of
       JObject ms \<Rightarrow> bindR (conditionEntries ms) (\<lambda>es. Inr (sort_key conditionKey es))
     | _ \<Rightarrow> Inl ConditionNotObject)"

text \<open>
  The loop over a statement's members: the statement so far, and whether Action and NotAction
  were seen.
\<close>

type_synonym statementState = "statement \<times> bool \<times> bool"

definition statementMember :: "statementState \<Rightarrow> string \<times> json \<Rightarrow> statementError + statementState" where
  "statementMember s m =
    (let (st, hasAction, hasNotAction) = s; (k, v) = m in
     if k = ''Sid'' then
       (case v of JString t \<Rightarrow> Inr (st\<lparr>st_Sid := t\<rparr>, hasAction, hasNotAction) | _ \<Rightarrow> Inl SidNotString)
     else if k = ''Effect'' then
       (case v of
          JString t \<Rightarrow> if t \<noteq> EffectAllow \<and> t \<noteq> EffectDeny then Inl BadEffect
                       else Inr (st\<lparr>st_Effect := t\<rparr>, hasAction, hasNotAction)
        | _ \<Rightarrow> Inl BadEffect)
     else if k = ''Action'' then
       bindR (stringOrArray v k) (\<lambda>l. Inr (st\<lparr>st_Action := l\<rparr>, True, hasNotAction))
     else if k = ''NotAction'' then
       bindR (stringOrArray v k) (\<lambda>l. Inr (st\<lparr>st_NotAction := l\<rparr>, hasAction, True))
     else if k = ''Resource'' then
       bindR (stringOrArray v k) (\<lambda>l. Inr (st\<lparr>st_Resource := Some l\<rparr>, hasAction, hasNotAction))
     else if k = ''NotResource'' then
       bindR (stringOrArray v k) (\<lambda>l. Inr (st\<lparr>st_NotResource := Some l\<rparr>, hasAction, hasNotAction))
     else if k = ''Principal'' then
       bindR (decodePrincipal v k) (\<lambda>p. Inr (st\<lparr>st_Principal := Some p\<rparr>, hasAction, hasNotAction))
     else if k = ''NotPrincipal'' then
       bindR (decodePrincipal v k) (\<lambda>p. Inr (st\<lparr>st_NotPrincipal := Some p\<rparr>, hasAction, hasNotAction))
     else if k = ''Condition'' then
       bindR (decodeCondition v) (\<lambda>c. Inr (st\<lparr>st_Conditions := c\<rparr>, hasAction, hasNotAction))
     else Inr (st\<lparr>st_Unknown := st_Unknown st @ [k]\<rparr>, hasAction, hasNotAction))"

fun statementMembers :: "statementState \<Rightarrow> (string \<times> json) list \<Rightarrow> statementError + statementState" where
  "statementMembers s [] = Inr s"
| "statementMembers s (m # ms) = bindR (statementMember s m) (\<lambda>s'. statementMembers s' ms)"

definition emptyStatement :: "string \<Rightarrow> statement" where
  "emptyStatement raw = \<lparr>st_Sid = [], st_Effect = [], st_Action = [], st_NotAction = [], st_IsNotAction = False,
    st_Resource = None, st_NotResource = None, st_Principal = None, st_NotPrincipal = None, st_Conditions = [],
    st_Raw = raw, st_Unknown = []\<rparr>"

definition decodeStatement :: "json \<Rightarrow> statementError + statement" where
  "decodeStatement v =
    (case v of
       JObject ms \<Rightarrow>
         bindR (statementMembers (emptyStatement (writeCanonical v), False, False) ms) (\<lambda>(st, hasAction, hasNotAction).
           if st_Effect st = [] then Inl NoEffect
           else if hasAction = hasNotAction then Inl ActionChoice
           else if st_Principal st \<noteq> None \<and> st_NotPrincipal st \<noteq> None then Inl PrincipalChoice
           else if st_Resource st \<noteq> None \<and> st_NotResource st \<noteq> None then Inl ResourceChoice
           else Inr (st\<lparr>st_IsNotAction := hasNotAction, st_Unknown := sort (st_Unknown st)\<rparr>))
     | _ \<Rightarrow> Inl StatementNotObject)"

subsection \<open>Documents\<close>

fun documentMembers ::
  "policyDocument \<times> json option \<Rightarrow> (string \<times> json) list \<Rightarrow> documentError + (policyDocument \<times> json option)" where
  "documentMembers s [] = Inr s"
| "documentMembers (doc, stmts) ((k, v) # ms) =
    (if k = ''Version'' then
       (case v of JString t \<Rightarrow> documentMembers (doc\<lparr>pd_Version := t\<rparr>, stmts) ms | _ \<Rightarrow> Inl VersionNotString)
     else if k = ''Id'' then
       (case v of JString t \<Rightarrow> documentMembers (doc\<lparr>pd_ID := t\<rparr>, stmts) ms | _ \<Rightarrow> Inl IdNotString)
     else if k = ''Statement'' then documentMembers (doc, Some v) ms
     else documentMembers (doc, stmts) ms)"

fun decodeStatements :: "nat \<Rightarrow> json list \<Rightarrow> documentError + statement list" where
  "decodeStatements i [] = Inr []"
| "decodeStatements i (v # vs) =
    (case decodeStatement v of
       Inl e \<Rightarrow> Inl (BadStatement i e)
     | Inr st \<Rightarrow> bindR (decodeStatements (i + 1) vs) (\<lambda>sts. Inr (st # sts)))"

fun statementList :: "json option \<Rightarrow> documentError + json list" where
  "statementList None = Inl NoStatement"
| "statementList (Some (JObject ms)) = Inr [JObject ms]"
| "statementList (Some (JArray vs)) = Inr vs"
| "statementList (Some _) = Inl StatementKind"

definition documentOf :: "json \<Rightarrow> documentError + policyDocument" where
  "documentOf v =
    (case v of
       JObject ms \<Rightarrow>
         bindR (documentMembers (\<lparr>pd_Version = [], pd_ID = [], pd_Statements = []\<rparr>, None) ms) (\<lambda>(doc, stmts).
         bindR (statementList stmts) (\<lambda>list.
         bindR (decodeStatements 0 list) (\<lambda>sts. Inr (doc\<lparr>pd_Statements := sts\<rparr>))))
     | _ \<Rightarrow> Inl DocumentNotObject)"

definition DecodePolicyDocument :: "string \<Rightarrow> documentError + policyDocument" where
  "DecodePolicyDocument text' =
    bindR (DecodePolicyText text') (\<lambda>raw.
      (case parseJSON raw of Inl e \<Rightarrow> Inl (NotIJSON e) | Inr v \<Rightarrow> documentOf v))"

end
