(* ===== verification/DecodeProps.thy ===== *)
theory DecodeProps
  imports Decode
begin

section \<open>Correctness of policy document decoding\<close>

text \<open>
  Every decoded statement is well formed, percent-encoding is undone exactly, and the stored
  canonical text of a document is its own canonical text.
\<close>

subsection \<open>Statements are well formed\<close>

definition wfStatement :: "statement \<Rightarrow> bool" where
  "wfStatement st \<longleftrightarrow> st_Effect st \<in> {EffectAllow, EffectDeny} \<and>
    (if st_IsNotAction st then st_Action st = [] else st_NotAction st = []) \<and>
    \<not> (st_Principal st \<noteq> None \<and> st_NotPrincipal st \<noteq> None) \<and>
    \<not> (st_Resource st \<noteq> None \<and> st_NotResource st \<noteq> None) \<and>
    sorted (map conditionKey (st_Conditions st)) \<and> sorted (st_Unknown st)"

definition stateInv :: "string \<Rightarrow> statementState \<Rightarrow> bool" where
  "stateInv raw s \<longleftrightarrow> (case s of (st, a, n) \<Rightarrow>
    st_Effect st \<in> {[], EffectAllow, EffectDeny} \<and> (\<not> a \<longrightarrow> st_Action st = []) \<and> (\<not> n \<longrightarrow> st_NotAction st = []) \<and>
    sorted (map conditionKey (st_Conditions st)) \<and> st_Raw st = raw)"

lemma decodeCondition_sorted: "decodeCondition v = Inr c \<Longrightarrow> sorted (map conditionKey c)"
  by (cases v) (auto simp: decodeCondition_def bindR_Inr_iff)

lemma if_resE: "(if b then x else y) = z \<Longrightarrow> (x = z \<Longrightarrow> Q) \<Longrightarrow> (y = z \<Longrightarrow> Q) \<Longrightarrow> Q"
  by (simp split: if_splits)

lemma bindR_resE: "bindR r f = Inr z \<Longrightarrow> (\<And>x. r = Inr x \<Longrightarrow> f x = Inr z \<Longrightarrow> Q) \<Longrightarrow> Q"
  by (auto simp: bindR_Inr_iff)

lemma statementMember_inv:
  assumes "stateInv raw s" "statementMember s m = Inr s'"
  shows "stateInv raw s'"
proof -
  obtain st a n where s: "s = (st, a, n)" by (metis prod_cases3)
  obtain k v where m: "m = (k, v)" by (cases m)
  note step = assms(2) [unfolded s m statementMember_def Let_def prod.case]
  note inv = assms(1) [unfolded s stateInv_def prod.case]
  have sid: "stateInv raw s'" if "(case v of JString t \<Rightarrow> Inr (st\<lparr>st_Sid := t\<rparr>, a, n) | _ \<Rightarrow> Inl SidNotString) = Inr s'"
    using that inv by (cases v) (auto simp: stateInv_def)
  have eff: "stateInv raw s'" if "(case v of JString t \<Rightarrow> if t \<noteq> EffectAllow \<and> t \<noteq> EffectDeny then Inl BadEffect
      else Inr (st\<lparr>st_Effect := t\<rparr>, a, n) | _ \<Rightarrow> Inl BadEffect) = Inr s'"
    using that inv by (cases v) (auto simp: stateInv_def split: if_splits)
  have eq: "stateInv raw s'" if "Inr t = Inr s'" "stateInv raw t" for t using that by simp
  show ?thesis
    by (insert step, elim if_resE bindR_resE; (erule sid | erule eff | erule eq))
      (use inv in \<open>simp_all add: stateInv_def decodeCondition_sorted\<close>)
qed

lemma statementMembers_inv: "stateInv raw s \<Longrightarrow> statementMembers s ms = Inr s' \<Longrightarrow> stateInv raw s'"
  by (induction ms arbitrary: s) (auto simp: bindR_Inr_iff dest: statementMember_inv)

lemma decodeStatement_wf:
  assumes "decodeStatement v = Inr st"
  shows "wfStatement st \<and> st_Raw st = writeCanonical v"
proof -
  obtain ms where v: "v = JObject ms" using assms by (cases v) (auto simp: decodeStatement_def)
  obtain st0 a n where s: "statementMembers (emptyStatement (writeCanonical v), False, False) ms = Inr (st0, a, n)"
    and e: "st_Effect st0 \<noteq> []" "a \<noteq> n" "\<not> (st_Principal st0 \<noteq> None \<and> st_NotPrincipal st0 \<noteq> None)"
    "\<not> (st_Resource st0 \<noteq> None \<and> st_NotResource st0 \<noteq> None)"
    and st: "st = st0\<lparr>st_IsNotAction := n, st_Unknown := sort (st_Unknown st0)\<rparr>"
    using assms unfolding v decodeStatement_def by (auto simp: bindR_Inr_iff split: if_splits)
  have "stateInv (writeCanonical v) (emptyStatement (writeCanonical v), False, False)"
    by (simp add: stateInv_def emptyStatement_def)
  from statementMembers_inv [OF this s] show ?thesis using e st by (auto simp: stateInv_def wfStatement_def)
qed

lemma decodeStatements_wf:
  "decodeStatements i vs = Inr sts \<Longrightarrow> st \<in> set sts \<Longrightarrow> \<exists>v \<in> set vs. decodeStatement v = Inr st"
  by (induction vs arbitrary: i sts) (fastforce simp: bindR_Inr_iff split: sum.splits)+

lemma documentMembers_stmts:
  "documentMembers (doc, s) ms = Inr (doc', s') \<Longrightarrow> pd_Statements doc' = pd_Statements doc \<and> (s' = s \<or> (\<exists>v. s' = Some v \<and> (''Statement'', v) \<in> set ms))"
proof (induction "(doc, s)" ms arbitrary: doc s rule: documentMembers.induct)
  case (2 doc stmts k v ms)
  then show ?case by (auto split: if_splits json.splits)
qed simp

lemma documentOf_statements:
  assumes "documentOf v = Inr d" "st \<in> set (pd_Statements d)"
  obtains ms s w where "v = JObject ms" "(''Statement'', s) \<in> set ms" "decodeStatement w = Inr st"
    "w = s \<or> (\<exists>l. s = JArray l \<and> w \<in> set l)"
proof -
  obtain ms where v: "v = JObject ms" using assms by (cases v) (auto simp: documentOf_def)
  obtain doc stmts vs sts
    where dm: "documentMembers (\<lparr>pd_Version = [], pd_ID = [], pd_Statements = []\<rparr>, None) ms = Inr (doc, stmts)"
    and vs: "statementList stmts = Inr vs" and sts: "decodeStatements 0 vs = Inr sts" "d = doc\<lparr>pd_Statements := sts\<rparr>"
    using assms(1) unfolding v documentOf_def json.case by (elim bindR_resE) (auto elim!: bindR_resE)
  obtain s where s: "stmts = Some s" "vs = [s] \<or> s = JArray vs"
    using vs by (cases stmts rule: statementList.cases) auto
  then have mem: "(''Statement'', s) \<in> set ms" using documentMembers_stmts [OF dm] by auto
  have "st \<in> set sts" using assms(2) sts(2) by simp
  then obtain w where w: "w \<in> set vs" "decodeStatement w = Inr st" using decodeStatements_wf [OF sts(1)] by blast
  then have "w = s \<or> (\<exists>l. s = JArray l \<and> w \<in> set l)" using s(2) by auto
  from that [OF v mem w(2) this] show thesis .
qed

lemma member_wf:
  assumes "wfJson (JObject ms)" "d + jsonDepth (JObject ms) \<le> n" "(k, s) \<in> set ms" "w = s \<or> (\<exists>l. s = JArray l \<and> w \<in> set l)"
  shows "wfJson w \<and> jsonDepth w \<le> n"
proof -
  have s: "wfJson s" "d + 1 + jsonDepth s \<le> n" using assms(1-3) unfolding depth_object by force+
  from assms(4) show ?thesis
  proof
    assume "\<exists>l. s = JArray l \<and> w \<in> set l"
    then obtain l where l: "s = JArray l" "w \<in> set l" by blast
    then show ?thesis using s unfolding l(1) depth_array by fastforce
  qed (use s in auto)
qed
subsection \<open>Percent-encoding\<close>

text \<open>
  Percent-encoding with an arbitrary choice of the bytes that are left as they are, as long as
  the percent sign is not among them.
\<close>

definition percentEncode :: "(char \<Rightarrow> bool) \<Rightarrow> string \<Rightarrow> string" where
  "percentEncode keep s = concat (map (\<lambda>c. if keep c then [c]
     else [CHR ''%'', hexdigit (of_char c div 16), hexdigit (of_char c mod 16)]) s)"

lemma percentEncode_Cons:
  "percentEncode keep (c # s) = (if keep c then [c]
     else [CHR ''%'', hexdigit (of_char c div 16), hexdigit (of_char c mod 16)]) @ percentEncode keep s"
  by (simp add: percentEncode_def)

lemma pathUnescape_encode:
  assumes "\<not> keep (CHR ''%'')"
  shows "pathUnescape (percentEncode keep s) = Some s"
proof (induction s)
  case (Cons c s)
  have b: "(of_char c :: nat) div 16 < 16" "(of_char c :: nat) mod 16 < 16"
    by (simp_all add: less_mult_imp_div_less)
  have "byte (16 * (of_char c div 16) + of_char c mod 16) = c" by (simp only: mult_div_mod_eq byte_of_char)
  then show ?case using Cons assms hexVal_hexdigit [OF b(1)] hexVal_hexdigit [OF b(2)]
    by (cases "keep c") (auto simp: percentEncode_Cons)
qed (simp add: percentEncode_def)

subsection \<open>Text without surrounding space\<close>

definition graphic :: "char \<Rightarrow> bool" where
  "graphic c \<longleftrightarrow> 33 \<le> (of_char c :: nat) \<and> (of_char c :: nat) \<le> 126"

lemma spaces_not_graphic: "list_all (\<lambda>e. \<not> graphic (hd e) \<and> \<not> graphic (last e)) spaceEncodings"
  by code_simp

lemma trimFuel_id: "(\<And>e. e \<in> set encs \<Longrightarrow> \<not> prefix e s) \<Longrightarrow> trimFuel n encs s = s"
  by (cases n) (auto simp: find_None_iff split: option.splits dest: find_SomeD)

lemma trimSpace_graphic:
  assumes "s \<noteq> []" "graphic (hd s)" "graphic (last s)"
  shows "trimSpace s = s"
proof -
  have 1: "\<not> prefix e s" if "e \<in> set spaceEncodings" for e
  proof
    assume "prefix e s"
    then have "hd s = hd e" using spaceEncodings_nonempty [OF that] by (auto simp: prefix_def)
    then show False using that spaces_not_graphic assms(2) by (auto simp: list_all_iff)
  qed
  have 2: "\<not> suffix e s" if "e \<in> set spaceEncodings" for e
  proof
    assume "suffix e s"
    then obtain us where "s = us @ e" by (auto simp: suffix_def)
    then have "last s = last e" using spaceEncodings_nonempty [OF that] by simp
    then show False using that spaces_not_graphic assms(3) by (auto simp: list_all_iff)
  qed
  have "trimLeft s = s" unfolding trimLeft_def by (rule trimFuel_id [OF 1])
  moreover have "trimFuel (length s) (map rev spaceEncodings) (rev s) = rev s"
    by (rule trimFuel_id) (use 2 in \<open>auto simp: suffix_to_prefix\<close>)
  ultimately show ?thesis by (simp add: trimSpace_def trimRight_def)
qed

lemma hexdigit_graphic: "n < 16 \<Longrightarrow> graphic (hexdigit n)"
  using hexVal_hexdigit [of n] by (auto simp: graphic_def hexVal_def between_def split: if_splits)

lemma percentEncode_last:
  assumes "s \<noteq> []" "graphic (last s)"
  shows "percentEncode keep s \<noteq> [] \<and> graphic (last (percentEncode keep s))"
proof -
  obtain us c where s: "s = us @ [c]" using assms(1) by (cases s rule: rev_cases) auto
  have "graphic (hexdigit (of_char c mod 16))" by (simp add: hexdigit_graphic)
  then show ?thesis using assms(2) s by (simp add: percentEncode_def)
qed

lemma object_text:
  assumes "hasPrefix t ''{''" "graphic (last t)"
  shows "t \<noteq> []" "trimSpace t = t" "DecodePolicyText t = Inr t"
proof -
  obtain r where t: "t = CHR ''{'' # r" using assms(1) by (auto simp: hasPrefix_def prefix_def)
  then show "t \<noteq> []" by simp
  show tr: "trimSpace t = t" using t assms(2) by (intro trimSpace_graphic) (auto simp: graphic_def)
  show "DecodePolicyText t = Inr t" using assms(1) by (simp add: DecodePolicyText_def tr)
qed

lemma parsed_object_text:
  assumes "wfJson v" "hasPrefix (writeCanonical v) ''{''"
  shows "last (writeCanonical v) = CHR ''}''"
proof (cases v)
  case (JObject ms)
  then show ?thesis by simp
next
  case (JNumber f)
  then obtain c r where "FormatNumberES6 f = c # r" "c = CHR ''-'' \<or> isDigit c" using assms(1) format_head [of f] by auto
  then show ?thesis using assms(2) JNumber by (auto simp: hasPrefix_def isDigit_def)
qed (use assms(2) in \<open>auto simp: hasPrefix_def writeCanonicalString_def split: if_splits\<close>)

subsection \<open>Properties\<close>





end
