(* ===== verification/Live.thy ===== *)
theory Live
  imports DecodeProps Intent
begin

section \<open>The live read, its state and role eligibility (internal/igagov/compile.go)\<close>

text \<open>
  What a discovery-role read returns, the artifact state it gives, the apply precondition, the
  role eligibility rules and the control a plan belongs to. Go maps that are only looked up are
  association lists; a missing key of \<open>lv_Policies\<close> is a policy that was not read, a
  \<^term>\<open>None\<close> under a key is NoSuchEntity.
\<close>

subsection \<open>Vocabulary\<close>

definition AuthSecPolicyPath :: string where [go_consts]: "AuthSecPolicyPath = ''/authsec/''"
definition AuthSecBoundaryPrefix :: string where [go_consts]: "AuthSecBoundaryPrefix = ''AuthSecBoundary-''"
definition AuthSecBoundarySid :: string where [go_consts]: "AuthSecBoundarySid = ''AuthSecAllowAllExceptRemoved''"
definition PolicyVersion20121017 :: string where [go_consts]: "PolicyVersion20121017 = ''2012-10-17''"
definition MaxPolicyChars :: int where [go_consts]: "MaxPolicyChars = 6144"
definition MaxPolicyNameLen :: int where [go_consts]: "MaxPolicyNameLen = 128"
definition MaxPolicyVersions :: int where [go_consts]: "MaxPolicyVersions = 5"
definition TagManagedBy :: string where [go_consts]: "TagManagedBy = ''authsec:managed-by''"
definition TagWorkspace :: string where [go_consts]: "TagWorkspace = ''authsec:workspace''"
definition TagControl :: string where [go_consts]: "TagControl = ''authsec:control''"
definition TagPolicy :: string where [go_consts]: "TagPolicy = ''authsec:policy''"
definition TagChange :: string where [go_consts]: "TagChange = ''authsec:change''"
definition TagManagedByValue :: string where [go_consts]: "TagManagedByValue = ''authsec''"
definition RoleTagManagedBy :: string where [go_consts]: "RoleTagManagedBy = ''ManagedBy''"
definition RoleTagManagedByValue :: string where [go_consts]: "RoleTagManagedByValue = ''AuthSec''"
definition RoleTagProtected :: string where [go_consts]: "RoleTagProtected = ''authsec:protected''"
definition ContinuityImmutable :: string where [go_consts]: "ContinuityImmutable = ''immutable''"
definition ContinuityRecognition :: string where [go_consts]: "ContinuityRecognition = ''recognition_only''"
definition pathServiceLinked :: string where [go_consts]: "pathServiceLinked = ''/aws-service-role/''"
definition pathAWSReserved :: string where [go_consts]: "pathAWSReserved = ''/aws-reserved/''"
definition domainRoleDefinition :: string where [go_consts]: "domainRoleDefinition = ''authsec.igagov.role_definition.v1''"
definition DeploymentPlaceholder :: string where [go_consts]: "DeploymentPlaceholder = ''${deployment_id}''"

definition RefuseRoleGone :: string where [go_consts]: "RefuseRoleGone = ''role_gone''"
definition RefuseRoleRecreated :: string where [go_consts]: "RefuseRoleRecreated = ''role_recreated''"
definition RefuseServiceLinked :: string where [go_consts]: "RefuseServiceLinked = ''service_linked_role''"
definition RefuseAWSReserved :: string where [go_consts]: "RefuseAWSReserved = ''aws_reserved_role''"
definition RefuseAuthSecManagedRole :: string where [go_consts]: "RefuseAuthSecManagedRole = ''authsec_managed_role''"
definition RefuseProtectedRole :: string where [go_consts]: "RefuseProtectedRole = ''protected_role''"
definition RefuseRecognitionOnly :: string where [go_consts]: "RefuseRecognitionOnly = ''recognition_only_identity''"

text \<open>
  Errors: a \<^verbatim>\<open>CompileError\<close> with its code and reasons, and the errors of the functions
  below it, which keep what failed but not the wording.
\<close>

definition ErrCodeInvalidIntent :: string where [go_consts]: "ErrCodeInvalidIntent = ''invalid_intent''"
definition ErrCodeEvidenceUntrusted :: string where [go_consts]: "ErrCodeEvidenceUntrusted = ''evidence_untrusted''"
definition ErrCodeEvidenceMismatch :: string where [go_consts]: "ErrCodeEvidenceMismatch = ''evidence_mismatch''"
definition ErrCodeLiveIncomplete :: string where [go_consts]: "ErrCodeLiveIncomplete = ''live_read_incomplete''"
definition ErrCodeNoArtifact :: string where [go_consts]: "ErrCodeNoArtifact = ''no_artifact_to_remove''"
definition ErrCodeInput :: string where [go_consts]: "ErrCodeInput = ''invalid_input''"

datatype compileError =
    CompileError string "string list"
  | HashFailed hashError
  | DocumentFailed canonicalDocumentError
  | DecodeFailed documentError
  | PlanViolates "string list"
  | UnknownFactKind string
  | NoFacts
  | NotDirect
  | OpNotInPlan
  | NoNamespace
  | NotANamespace string
  | NotSubset
  | NilDereference

definition hashed :: "hashError + 'a \<Rightarrow> compileError + 'a" where
  "hashed r = (case r of Inl e \<Rightarrow> Inl (HashFailed e) | Inr x \<Rightarrow> Inr x)"

definition documented :: "canonicalDocumentError + 'a \<Rightarrow> compileError + 'a" where
  "documented r = (case r of Inl e \<Rightarrow> Inl (DocumentFailed e) | Inr x \<Rightarrow> Inr x)"

definition decoded :: "documentError + 'a \<Rightarrow> compileError + 'a" where
  "decoded r = (case r of Inl e \<Rightarrow> Inl (DecodeFailed e) | Inr x \<Rightarrow> Inr x)"

lemma lifted_Inr [simp]:
  "hashed r = Inr x \<longleftrightarrow> r = Inr x" "documented d = Inr y \<longleftrightarrow> d = Inr y" "decoded c = Inr z \<longleftrightarrow> c = Inr z"
  by (cases r; cases d; cases c; auto simp: hashed_def documented_def decoded_def)+

record refusal =
  rf_Code :: string
  rf_Detail :: string

abbreviation Refusal :: "string \<Rightarrow> string \<Rightarrow> refusal" where
  "Refusal c d \<equiv> \<lparr>rf_Code = c, rf_Detail = d\<rparr>"

definition refusalString :: "refusal \<Rightarrow> string" where
  "refusalString r = (if rf_Detail r = [] then rf_Code r else rf_Code r @ '': '' @ rf_Detail r)"

subsection \<open>The live read\<close>

record liveRole =
  lr_RoleID :: string
  lr_ARN :: string
  lr_Name :: string
  lr_Path :: string
  lr_AccountID :: string
  lr_Partition :: string
  lr_Tags :: tags
  lr_Continuity :: string
  lr_BoundaryARN :: string
  lr_ManagedPolicies :: "policyRef list"
  lr_InlinePolicies :: "policyRef list"
  lr_TrustPolicyHash :: string
  lr_Documents :: "(string \<times> string) list"

record livePolicy =
  lp_ARN :: string
  lp_Path :: string
  lp_Name :: string
  lp_Tags :: tags
  lp_DefaultDocument :: string
  lp_VersionCount :: int
  lp_AttachmentSet :: "attachedEntity list"

record liveRead =
  lv_ReadAt :: gotime
  lv_Role :: "liveRole option"
  lv_Policies :: "(string \<times> livePolicy option) list"
  lv_Roles :: "(string \<times> liveRole option) list"
  lv_Bindings :: "(string \<times> string) list"

definition liveRolePartition :: "liveRole \<Rightarrow> string" where
  "liveRolePartition r =
    (if lr_Partition r \<noteq> [] then lr_Partition r
     else (case splitN (lr_ARN r) (CHR '':'') 3 of
             [a, b, c] \<Rightarrow> if b \<noteq> [] then b else ''aws''
           | _ \<Rightarrow> ''aws''))"

definition liveRoleRef :: "liveRole \<Rightarrow> roleRef" where
  "liveRoleRef r = \<lparr>rr_RoleID = lr_RoleID r, rr_ARN = lr_ARN r, rr_Name = lr_Name r,
    rr_AccountID = lr_AccountID r, rr_Partition = liveRolePartition r\<rparr>"

definition policyDocumentHash :: "livePolicy \<Rightarrow> compileError + string" where
  "policyDocumentHash p = documented (DocumentHash (lp_DefaultDocument p))"

definition otherUsers :: "attachedEntity list \<Rightarrow> string \<Rightarrow> attachedEntity list" where
  "otherUsers set' roleID = sort_key entityKey
    (filter (\<lambda>e. \<not> (ae_Kind e = ''role'' \<and> ae_ID e = roleID \<and> ae_Usage e = UsageBoundary)) set')"

definition livePolicyOf :: "liveRead \<Rightarrow> string \<Rightarrow> compileError + livePolicy option" where
  "livePolicyOf lr arn =
    (case map_of (lv_Policies lr) arn of
       None \<Rightarrow> Inl (CompileError ErrCodeLiveIncomplete [''policy '' @ arn @ '' was not read''])
     | Some p \<Rightarrow> Inr p)"

definition ArtifactState :: "liveRead \<Rightarrow> compileError + artifactStateFacts" where
  "ArtifactState live =
    (case lv_Role live of
       None \<Rightarrow> Inl (CompileError ErrCodeLiveIncomplete [''the role was not found''])
     | Some r \<Rightarrow>
         let arn = lr_BoundaryARN r;
             s = \<lparr>as_RoleID = lr_RoleID r, as_BoundaryARN = None, as_BoundaryDocumentHash = None, as_AttachmentSet = []\<rparr>
         in if arn = [] then Inr (stateNormalized s)
            else bindR (livePolicyOf live arn) (\<lambda>p.
              (case p of
                 None \<Rightarrow> Inl (CompileError ErrCodeLiveIncomplete [''the role's boundary '' @ arn @ '' returned NoSuchEntity''])
               | Some p \<Rightarrow>
                   bindR (policyDocumentHash p) (\<lambda>h.
                     Inr (stateNormalized (s\<lparr>as_BoundaryARN := Some arn, as_BoundaryDocumentHash := Some h,
                       as_AttachmentSet := lp_AttachmentSet p\<rparr>))))))"

definition protectionTags :: "tags \<Rightarrow> tags" where
  "protectionTags ts = filter (\<lambda>kv. fst kv = RoleTagManagedBy \<or> fst kv = RoleTagProtected) ts"

definition ApplyPreconditionFor :: "liveRead \<Rightarrow> compileError + applyPrecondition" where
  "ApplyPreconditionFor live =
    bindR (ArtifactState live) (\<lambda>st.
      (case lv_Role live of
         None \<Rightarrow> Inl (CompileError ErrCodeLiveIncomplete [''the role was not found''])
       | Some r \<Rightarrow> Inr \<lparr>ap_ArtifactState = st, ap_RoleARN = lr_ARN r, ap_RolePath = lr_Path r,
           ap_ProtectionTags = protectionTags (lr_Tags r), ap_ManagedPolicies = lr_ManagedPolicies r,
           ap_InlinePolicies = lr_InlinePolicies r\<rparr>))"

definition roleDefinitionHash :: "liveRole \<Rightarrow> compileError + string" where
  "roleDefinitionHash r = hashed (HashCanonicalTagged domainRoleDefinition (JObject
    [(''role_arn'', jstr (lr_ARN r)), (''role_path'', jstr (lr_Path r)),
     (''protection_tags'', tagsJSON (protectionTags (lr_Tags r))),
     (''managed_policies'', JArray (map refJSON (sortedRefs (lr_ManagedPolicies r)))),
     (''inline_policies'', JArray (map refJSON (sortedRefs (lr_InlinePolicies r))))]))"

subsection \<open>Eligibility\<close>

definition RoleEligibility :: "liveRole \<Rightarrow> refusal list" where
  "RoleEligibility r =
    (if hasPrefix (lr_Path r) pathServiceLinked then [Refusal RefuseServiceLinked (''path '' @ lr_Path r)]
     else if hasPrefix (lr_Path r) pathAWSReserved then [Refusal RefuseAWSReserved (''path '' @ lr_Path r)]
     else []) @
    (if equalFold (tagval (lr_Tags r) RoleTagManagedBy) RoleTagManagedByValue
     then [Refusal RefuseAuthSecManagedRole ''tagged ManagedBy=AuthSec''] else []) @
    (if equalFold (tagval (lr_Tags r) RoleTagProtected) ''true''
     then [Refusal RefuseProtectedRole ''tagged authsec:protected=true''] else []) @
    (if lr_Continuity r = ContinuityRecognition
     then [Refusal RefuseRecognitionOnly ''identity continuity is recognition_only''] else [])"

definition checkIncarnation :: "liveRead \<Rightarrow> string \<Rightarrow> refusal list" where
  "checkIncarnation live roleID =
    (case lv_Role live of
       None \<Rightarrow> [Refusal RefuseRoleGone (''role '' @ roleID @ '' returned NoSuchEntity'')]
     | Some r \<Rightarrow>
         if lr_RoleID r \<noteq> roleID
         then [Refusal RefuseRoleRecreated (''live RoleId '' @ lr_RoleID r @ '' is not '' @ roleID)]
         else [])"

subsection \<open>Controls\<close>

record controlRef =
  co_ID :: string
  co_PolicyID :: string
  co_AccountID :: string
  co_RoleID :: string
  co_WorkspaceRef :: string
  co_OwnedPolicyARNs :: "string list"

definition validControl :: "controlRef \<Rightarrow> bool" where
  "validControl c \<longleftrightarrow> \<not> (co_ID c = [] \<or> co_RoleID c = [] \<or> \<not> reAccount (co_AccountID c) \<or> co_WorkspaceRef c = [])"

definition owns :: "controlRef \<Rightarrow> string \<Rightarrow> bool" where
  "owns c arn \<longleftrightarrow> arn \<in> set (co_OwnedPolicyARNs c)"

definition ownerValue :: "tags \<Rightarrow> string" where
  "ownerValue ts =
    (if tagval ts TagManagedBy \<noteq> TagManagedByValue then ''customer''
     else ''authsec:'' @ tagval ts TagWorkspace @ '':'' @ tagval ts TagControl)"

definition controlOwner :: "controlRef \<Rightarrow> string" where
  "controlOwner c = ''authsec:'' @ co_WorkspaceRef c @ '':'' @ co_ID c"

definition createTags :: "controlRef \<Rightarrow> tags" where
  "createTags c = [(TagManagedBy, TagManagedByValue), (TagWorkspace, co_WorkspaceRef c), (TagControl, co_ID c),
    (TagPolicy, co_PolicyID c), (TagChange, DeploymentPlaceholder)]"

definition changeTags :: "controlRef \<Rightarrow> tags" where
  "changeTags c = [(TagPolicy, co_PolicyID c), (TagChange, DeploymentPlaceholder)]"

definition AuthSecBoundaryARN :: "string \<Rightarrow> string \<Rightarrow> string \<Rightarrow> string" where
  "AuthSecBoundaryARN part account roleID =
    ''arn:'' @ part @ '':iam::'' @ account @ '':policy'' @ AuthSecPolicyPath @ AuthSecBoundaryPrefix @ roleID"

definition SplitCopyARN :: "string \<Rightarrow> string \<Rightarrow> string \<Rightarrow> string \<Rightarrow> string \<Rightarrow> string \<times> string" where
  "SplitCopyARN part account path sharedName roleID =
    (let path' = (if path = [] then ''/'' else path); name = sharedName @ ''-'' @ roleID
     in (''arn:'' @ part @ '':iam::'' @ account @ '':policy'' @ path' @ name, name))"

definition isAuthSecPath :: "string \<Rightarrow> bool" where
  "isAuthSecPath arn = strContains arn ('':policy'' @ AuthSecPolicyPath)"

definition RecoveryPolicyARN :: "string \<Rightarrow> string \<Rightarrow> string \<Rightarrow> string \<Rightarrow> string \<times> string" where
  "RecoveryPolicyARN part account roleID deploymentID =
    (let hex = filter (\<lambda>c. c \<noteq> CHR ''-'') (toLower deploymentID);
         name = AuthSecBoundaryPrefix @ roleID @ ''-u'' @ take 8 hex
     in (''arn:'' @ part @ '':iam::'' @ account @ '':policy'' @ AuthSecPolicyPath @ name, name))"

subsection \<open>One control per role\<close>

record liveControl =
  lc_ID :: string
  lc_PolicyID :: string
  lc_AccountID :: string
  lc_RoleID :: string
  lc_State :: string

datatype controlError = RoleControlledByPolicy string string

definition governs :: "string \<Rightarrow> string \<Rightarrow> liveControl \<Rightarrow> bool" where
  "governs accountID roleID c \<longleftrightarrow> \<not> (lc_State c = ''removed'' \<or> lc_AccountID c \<noteq> accountID \<or> lc_RoleID c \<noteq> roleID)"

definition ResolveControl :: "liveControl list \<Rightarrow> string \<Rightarrow> string \<Rightarrow> string \<Rightarrow> controlError + liveControl option" where
  "ResolveControl controls accountID roleID policyID =
    (case find (governs accountID roleID) controls of
       None \<Rightarrow> Inr None
     | Some c \<Rightarrow>
         if lc_PolicyID c \<noteq> policyID then Inl (RoleControlledByPolicy (lc_ID c) (lc_PolicyID c))
         else Inr (Some c))"

end
