(* ===== verification/Plan.thy ===== *)
theory Plan
  imports Live
begin

section \<open>Plans and their facts (internal/igagov/compile.go, recover.go, split.go)\<close>

text \<open>
  The records of a compiled plan: its operations, facts and diff, what narrowing, the
  first-attachment proof and a split record in it, the hashes a plan is sealed with and the
  storage checks it must pass.
\<close>

subsection \<open>Vocabulary\<close>

definition PlanApply :: string where [go_consts]: "PlanApply = ''apply''"
definition PlanUndo :: string where [go_consts]: "PlanUndo = ''undo''"
definition PlanRemoveControl :: string where [go_consts]: "PlanRemoveControl = ''remove_control''"
definition PlanSplit :: string where [go_consts]: "PlanSplit = ''split''"
definition PlanSplitRevert :: string where [go_consts]: "PlanSplitRevert = ''split_revert''"
definition EligibilityEligible :: string where [go_consts]: "EligibilityEligible = ''eligible''"
definition EligibilityIaCOnly :: string where [go_consts]: "EligibilityIaCOnly = ''iac_only''"
definition EligibilityIneligible :: string where [go_consts]: "EligibilityIneligible = ''ineligible''"
definition AttachmentPresent :: string where [go_consts]: "AttachmentPresent = ''present''"
definition AttachmentAbsent :: string where [go_consts]: "AttachmentAbsent = ''absent''"
definition AttachmentUnchanged :: string where [go_consts]: "AttachmentUnchanged = ''unchanged''"
definition DispositionKeep :: string where [go_consts]: "DispositionKeep = ''keep''"
definition DispositionDelete :: string where [go_consts]: "DispositionDelete = ''delete''"
definition DispositionRetainShared :: string where [go_consts]: "DispositionRetainShared = ''retain_shared''"
definition BasisLiveRead :: string where [go_consts]: "BasisLiveRead = ''live_read''"

definition SelectOldestNonDefault :: string where [go_consts]: "SelectOldestNonDefault = ''oldest_non_default''"
definition SelectAllNonDefault :: string where [go_consts]: "SelectAllNonDefault = ''all_non_default''"

definition OpCreatePolicy :: string where [go_consts]: "OpCreatePolicy = ''CreatePolicy''"
definition OpCreatePolicyVersion :: string where [go_consts]: "OpCreatePolicyVersion = ''CreatePolicyVersion''"
definition OpDeletePolicyVersion :: string where [go_consts]: "OpDeletePolicyVersion = ''DeletePolicyVersion''"
definition OpTagPolicy :: string where [go_consts]: "OpTagPolicy = ''TagPolicy''"
definition OpDeletePolicy :: string where [go_consts]: "OpDeletePolicy = ''DeletePolicy''"
definition OpPutRolePermissionsBoundary :: string where [go_consts]: "OpPutRolePermissionsBoundary = ''PutRolePermissionsBoundary''"
definition OpDeleteRolePermissionsBoundary :: string where
  [go_consts]: "OpDeleteRolePermissionsBoundary = ''DeleteRolePermissionsBoundary''"
definition OpCreateRole :: string where [go_consts]: "OpCreateRole = ''CreateRole''"
definition OpBindSubject :: string where [go_consts]: "OpBindSubject = ''BindSubject''"
definition OpDeleteRole :: string where [go_consts]: "OpDeleteRole = ''DeleteRole''"

subsection \<open>Operations\<close>

record planOp =
  op_Op :: string
  op_RoleName :: string
  op_RoleARN :: string
  op_PolicyARN :: string
  op_PolicyName :: string
  op_Path :: string
  op_DocumentHash :: string
  op_SetAsDefault :: bool
  op_Tags :: tags
  op_Select :: string
  op_IfVersionsAtLeast :: int
  op_SubjectARN :: string
  op_TrustPolicyHash :: string
  op_ResourceARN :: string
  op_Principal :: string
  op_InlineName :: string
  op_InstanceProfile :: string
  op_OnlyIfUnused :: bool
  op_Binding :: string
  op_Steps :: "string list"

text \<open>An operation with every field but its name left out.\<close>

definition newOp :: "string \<Rightarrow> planOp" where
  "newOp name = \<lparr>op_Op = name, op_RoleName = [], op_RoleARN = [], op_PolicyARN = [], op_PolicyName = [], op_Path = [],
    op_DocumentHash = [], op_SetAsDefault = False, op_Tags = [], op_Select = [], op_IfVersionsAtLeast = 0,
    op_SubjectARN = [], op_TrustPolicyHash = [], op_ResourceARN = [], op_Principal = [], op_InlineName = [],
    op_InstanceProfile = [], op_OnlyIfUnused = False, op_Binding = [], op_Steps = []\<rparr>"

definition opJSON :: "planOp \<Rightarrow> json" where
  "opJSON p = JObject ((''op'', jstr (op_Op p)) # omitempty ''role_name'' (op_RoleName p) @
    omitempty ''role_arn'' (op_RoleARN p) @ omitempty ''policy_arn'' (op_PolicyARN p) @
    omitempty ''policy_name'' (op_PolicyName p) @ omitempty ''path'' (op_Path p) @
    omitempty ''document_hash'' (op_DocumentHash p) @
    (if op_SetAsDefault p then [(''set_as_default'', JBool True)] else []) @
    (if op_Tags p = [] then [] else [(''tags'', tagsJSON (op_Tags p))]) @
    omitempty ''select'' (op_Select p) @
    (if op_IfVersionsAtLeast p = 0 then [] else [(''if_versions_at_least'', jint (op_IfVersionsAtLeast p))]) @
    omitempty ''subject_arn'' (op_SubjectARN p) @ omitempty ''trust_policy_hash'' (op_TrustPolicyHash p) @
    omitempty ''resource_arn'' (op_ResourceARN p) @ omitempty ''principal'' (op_Principal p) @
    omitempty ''inline_name'' (op_InlineName p) @ omitempty ''instance_profile'' (op_InstanceProfile p) @
    (if op_OnlyIfUnused p then [(''only_if_unused'', JBool True)] else []) @
    omitempty ''binding'' (op_Binding p) @
    (if op_Steps p = [] then [] else [(''steps'', JArray (map jstr (op_Steps p)))]))"

definition pruneOp :: "string \<Rightarrow> planOp" where
  "pruneOp arn = (newOp OpDeletePolicyVersion)\<lparr>op_PolicyARN := arn, op_Select := SelectOldestNonDefault,
    op_IfVersionsAtLeast := MaxPolicyVersions\<rparr>"

subsection \<open>Facts\<close>

definition FactRole :: string where [go_consts]: "FactRole = ''role_incarnation''"
definition FactRoleDefinition :: string where [go_consts]: "FactRoleDefinition = ''role_definition''"
definition FactRoleBoundary :: string where [go_consts]: "FactRoleBoundary = ''role_boundary''"
definition FactPolicyDocument :: string where [go_consts]: "FactPolicyDocument = ''policy_document''"
definition FactPolicyOwner :: string where [go_consts]: "FactPolicyOwner = ''policy_owner''"
definition FactPolicyUsers :: string where [go_consts]: "FactPolicyUsers = ''policy_users''"
definition FactBinding :: string where [go_consts]: "FactBinding = ''workload_binding''"
definition FactNewRole :: string where [go_consts]: "FactNewRole = ''new_role''"
definition ValueNone :: string where [go_consts]: "ValueNone = ''none''"
definition ValueAbsent :: string where [go_consts]: "ValueAbsent = ''absent''"

record fact =
  fc_Key :: string
  fc_Kind :: string
  fc_Subject :: string
  fc_Before :: string
  fc_After :: string
  fc_OnlyBefore :: bool

definition Changes :: "fact \<Rightarrow> bool" where
  "Changes f \<longleftrightarrow> fc_Before f \<noteq> fc_After f"

definition factKey :: "string \<Rightarrow> string \<Rightarrow> string" where
  "factKey kind subject = (if subject = [] then kind else kind @ '':'' @ subject)"

definition newFact :: "string \<Rightarrow> string \<Rightarrow> string \<Rightarrow> string \<Rightarrow> fact" where
  "newFact kind subject before after = \<lparr>fc_Key = factKey kind subject, fc_Kind = kind, fc_Subject = subject,
    fc_Before = before, fc_After = after, fc_OnlyBefore = False\<rparr>"

definition factRole :: "string \<Rightarrow> fact" where
  "factRole roleID = newFact FactRole [] roleID roleID"

definition factBoundary :: "string \<Rightarrow> string \<Rightarrow> fact" where
  "factBoundary before after = newFact FactRoleBoundary [] before after"

definition factPolicyDoc :: "string \<Rightarrow> string \<Rightarrow> string \<Rightarrow> fact" where
  "factPolicyDoc arn before after = newFact FactPolicyDocument arn before after"

definition factPolicyOwner :: "string \<Rightarrow> string \<Rightarrow> string \<Rightarrow> fact" where
  "factPolicyOwner arn before after = newFact FactPolicyOwner arn before after"

definition usersValue :: "attachedEntity list \<Rightarrow> string" where
  "usersValue set' =
    (case CanonicalizeValue (JArray (map entityJSON (sort_key entityKey set'))) of
       Inl _ \<Rightarrow> CHR 0x00 # ''invalid''
     | Inr c \<Rightarrow> c)"

definition factPolicyUsers :: "string \<Rightarrow> attachedEntity list \<Rightarrow> attachedEntity list \<Rightarrow> fact" where
  "factPolicyUsers arn before after = newFact FactPolicyUsers arn (usersValue before) (usersValue after)"

definition sortFacts :: "fact list \<Rightarrow> fact list" where
  "sortFacts fs = sort_key fc_Key fs"

subsection \<open>What a plan records\<close>

definition NarrowKept :: string where [go_consts]: "NarrowKept = ''kept''"
definition NarrowNarrowed :: string where [go_consts]: "NarrowNarrowed = ''narrowed''"
definition NarrowDeleted :: string where [go_consts]: "NarrowDeleted = ''deleted''"

record narrowedStatement =
  ns_Index :: int
  ns_Sid :: string
  ns_Effect :: string
  ns_Result :: string
  ns_RemovedActions :: "string list"

record narrowing =
  nw_Statements :: "narrowedStatement list"
  nw_Changed :: bool
  nw_SubsetProof :: bool

record incompleteForm =
  if_Form :: string
  if_Region :: string
  if_State :: string

record blocker =
  bl_Kind :: string
  bl_Form :: string
  bl_Region :: string
  bl_Resource :: string
  bl_Sid :: string

record firstAttachmentProof =
  fp_ScanRunID :: string
  fp_Incomplete :: "incompleteForm list"
  fp_Blockers :: "blocker list"
  fp_Unanalysed :: "unanalysedItem list"
  fp_CoveredByGaps :: "string list"

record compatibilityItem =
  ci_Kind :: string
  ci_Resource :: string
  ci_Form :: string
  ci_Principal :: string
  ci_Handling :: string

record splitDetail =
  sd_SourceRoleARN :: string
  sd_NewRoleARN :: string
  sd_NewRoleHash :: string
  sd_SubjectKind :: string
  sd_SubjectARN :: string
  sd_SubjectARNs :: "string list"
  sd_FromWorkloadKeys :: "string list"
  sd_Compatibility :: "compatibilityItem list"

definition Subjects :: "splitDetail \<Rightarrow> string list" where
  "Subjects d = (if sd_SubjectARNs d \<noteq> [] then sd_SubjectARNs d else [sd_SubjectARN d])"

record boundaryRef =
  br_ARN :: string
  br_DocumentHash :: string

abbreviation BoundaryRef :: "string \<Rightarrow> string \<Rightarrow> boundaryRef" where
  "BoundaryRef a h \<equiv> \<lparr>br_ARN = a, br_DocumentHash = h\<rparr>"

record planDiff =
  df_Case :: string
  df_BoundaryBefore :: "boundaryRef option"
  df_BoundaryAfter :: "boundaryRef option"
  df_NewlyExcluded :: "string list"
  df_AlreadyExcluded :: "string list"
  df_NewlyUnexcluded :: "string list"
  df_Narrowing :: "narrowing option"
  df_FirstAttachment :: "firstAttachmentProof option"
  df_Split :: "splitDetail option"
  df_Notes :: "string list"
  df_Facts :: "fact list"

record archivedDocument =
  ad_Hash :: string
  ad_Canonical :: string

record plan =
  pl_ControlID :: string
  pl_Kind :: string
  pl_Delivery :: string
  pl_Eligibility :: string
  pl_IneligibleReason :: string
  pl_Refusals :: "refusal list"
  pl_Basis :: string
  pl_BasisReadAt :: gotime
  pl_Precondition :: string
  pl_PreconditionHash :: string
  pl_BeforeDocumentHash :: "string option"
  pl_DesiredAttachment :: string
  pl_DesiredBoundaryARN :: "string option"
  pl_DesiredDocumentHash :: "string option"
  pl_ReplacedBoundaryARN :: "string option"
  pl_ArtifactDisposition :: string
  pl_BundleHash :: string
  pl_EvidenceRev :: int
  pl_ResourcePolicyScanRunID :: "string option"
  pl_FirstAttachment :: bool
  pl_Unanalysed :: "unanalysedItem list"
  pl_Impact :: impact
  pl_ImpactHash :: string
  pl_Ops :: "planOp list"
  pl_Diff :: planDiff
  pl_PlanHash :: string
  pl_MaterialHash :: string
  pl_GapRefs :: "gapRef list"
  pl_Documents :: "archivedDocument list"
  pl_Facts :: "fact list"

definition Eligible :: "plan \<Rightarrow> bool" where
  "Eligible p \<longleftrightarrow> pl_Eligibility p \<noteq> EligibilityIneligible"

definition HashInput :: "plan \<Rightarrow> planHashInput" where
  "HashInput p = \<lparr>ph_ControlID = pl_ControlID p, ph_Kind = pl_Kind p, ph_Delivery = pl_Delivery p,
    ph_DesiredAttachment = pl_DesiredAttachment p, ph_DesiredBoundaryARN = pl_DesiredBoundaryARN p,
    ph_DesiredDocumentHash = pl_DesiredDocumentHash p, ph_ReplacedBoundaryARN = pl_ReplacedBoundaryARN p,
    ph_ArtifactDisposition = pl_ArtifactDisposition p, ph_BundleHash = pl_BundleHash p,
    ph_EvidenceRev = pl_EvidenceRev p, ph_ResourcePolicyScanRunID = pl_ResourcePolicyScanRunID p,
    ph_FirstAttachment = pl_FirstAttachment p, ph_Unanalysed = pl_Unanalysed p,
    ph_PreconditionHash = pl_PreconditionHash p, ph_Ops = Some (JArray (map opJSON (pl_Ops p)))\<rparr>"

definition PoliciesToRead :: "plan \<Rightarrow> string list" where
  "PoliciesToRead p = sortedUnique (map fc_Subject (filter (\<lambda>f. fc_Kind f = FactPolicyDocument) (pl_Facts p)))"

text \<open>The storage checks, each with the name of the constraint it mirrors.\<close>

definition ineligibleChk :: "plan \<Rightarrow> bool" where
  "ineligibleChk p \<longleftrightarrow> (pl_Eligibility p = EligibilityIneligible) = (pl_IneligibleReason p \<noteq> [])"

definition attachmentChk :: "plan \<Rightarrow> bool" where
  "attachmentChk p \<longleftrightarrow> pl_Eligibility p = EligibilityIneligible \<or>
    (if pl_DesiredAttachment p = AttachmentPresent
     then \<not> (pl_DesiredBoundaryARN p = None \<or> pl_DesiredDocumentHash p = None)
     else \<not> (pl_DesiredBoundaryARN p \<noteq> None \<or> pl_DesiredDocumentHash p \<noteq> None))"

definition isSplit :: "plan \<Rightarrow> bool" where
  "isSplit p \<longleftrightarrow> pl_Kind p = PlanSplit \<or> pl_Kind p = PlanSplitRevert"

definition kindChk :: "plan \<Rightarrow> bool" where
  "kindChk p \<longleftrightarrow> \<not> (isSplit p \<noteq> (pl_DesiredAttachment p = AttachmentUnchanged) \<or>
    (pl_Kind p = PlanApply \<and> pl_DesiredAttachment p \<noteq> AttachmentPresent) \<or>
    (isSplit p \<and> pl_Delivery p \<noteq> DeliveryIaCPR \<and> pl_Delivery p \<noteq> DeliveryExport))"

definition dispositionChk :: "plan \<Rightarrow> bool" where
  "dispositionChk p \<longleftrightarrow> \<not> (
    (pl_DesiredAttachment p = AttachmentAbsent \<and> pl_ArtifactDisposition p \<noteq> DispositionDelete \<and>
      pl_ArtifactDisposition p \<noteq> DispositionRetainShared) \<or>
    (pl_Kind p \<noteq> PlanUndo \<and> pl_Kind p \<noteq> PlanRemoveControl \<and> pl_ArtifactDisposition p \<noteq> DispositionKeep) \<or>
    (pl_ArtifactDisposition p \<noteq> DispositionKeep \<and>
      (pl_ReplacedBoundaryARN p = None \<or>
       (pl_DesiredBoundaryARN p \<noteq> None \<and> pl_ReplacedBoundaryARN p = pl_DesiredBoundaryARN p))))"

definition firstAttachmentChk :: "plan \<Rightarrow> bool" where
  "firstAttachmentChk p \<longleftrightarrow> \<not> (pl_FirstAttachment p \<and>
    (pl_DesiredAttachment p \<noteq> AttachmentPresent \<or> pl_ResourcePolicyScanRunID p = None))"

definition CheckStorable :: "plan \<Rightarrow> string list" where
  "CheckStorable p =
    (if ineligibleChk p then [] else [''iga_gov_plan_ineligible_chk'']) @
    (if attachmentChk p then [] else [''iga_gov_plan_attachment_chk'']) @
    (if kindChk p then [] else [''iga_gov_plan_kind_chk'']) @
    (if dispositionChk p then [] else [''iga_gov_plan_disposition_chk'']) @
    (if firstAttachmentChk p then [] else [''iga_gov_plan_first_attachment_chk''])"

subsection \<open>Building and sealing\<close>

definition refuse :: "refusal list \<Rightarrow> plan \<Rightarrow> plan" where
  "refuse rs p = p\<lparr>pl_Refusals := pl_Refusals p @ rs\<rparr>"

definition archive :: "string \<Rightarrow> string \<Rightarrow> plan \<Rightarrow> plan" where
  "archive hash text' p =
    (if \<exists>d \<in> set (pl_Documents p). ad_Hash d = hash then p
     else p\<lparr>pl_Documents := sort_key ad_Hash (pl_Documents p @ [\<lparr>ad_Hash = hash, ad_Canonical = text'\<rparr>])\<rparr>)"

definition archiveText :: "string \<Rightarrow> plan \<Rightarrow> compileError + (string \<times> plan)" where
  "archiveText text' p =
    bindR (documented (CanonicalDocument text')) (\<lambda>(c, h). Inr (h, archive h c p))"

text \<open>The first part of \<open>seal\<close>: a refused plan has no operations.\<close>

definition settle :: "plan \<Rightarrow> plan" where
  "settle p =
    (let q = (if pl_Refusals p = [] then p
              else p\<lparr>pl_Eligibility := EligibilityIneligible,
                     pl_IneligibleReason := joinWith ''; '' (map refusalString (pl_Refusals p)),
                     pl_Ops := []\<rparr>);
         fs = sortFacts (pl_Facts q)
     in q\<lparr>pl_Facts := fs, pl_Diff := (pl_Diff q)\<lparr>df_Facts := fs\<rparr>, pl_Impact := impactNormalized (pl_Impact q)\<rparr>)"

definition seal :: "plan \<Rightarrow> compileError + plan" where
  "seal p =
    (let q = settle p in
     bindR (hashed (ImpactHash (pl_Impact q))) (\<lambda>ih.
     bindR (hashed (PlanHash (HashInput q))) (\<lambda>ph.
     bindR (hashed (MaterialHash \<lparr>mh_Plan = HashInput q, mh_ImpactHash = ih, mh_Gaps = pl_GapRefs q\<rparr>)) (\<lambda>mh.
       let r = q\<lparr>pl_ImpactHash := ih, pl_PlanHash := ph, pl_MaterialHash := mh\<rparr> in
       if CheckStorable r = [] then Inr r else Inl (PlanViolates (CheckStorable r))))))"

end
