(* ===== verification/Recover.thy ===== *)
theory Recover
  imports Plan
begin

section \<open>Classification and recovery (internal/igagov/recover.go)\<close>

text \<open>
  The single classifier: each fact of a plan is given its observed value from a live read, and
  the plan's class follows; for direct delivery only the states after a prefix of the operations
  count. Built on it, the resolution of an operation whose outcome is unknown and the reading of
  one AWS response.
\<close>

subsection \<open>Dedicated roles (split.go)\<close>

definition domainDedicatedRole :: string where [go_consts]: "domainDedicatedRole = ''authsec.igagov.dedicated_role.v1''"

definition dedicatedSpecHash :: "string \<Rightarrow> string list \<Rightarrow> policyRef list \<Rightarrow> string \<Rightarrow> compileError + string" where
  "dedicatedSpecHash trust managed inline boundary = hashed (HashCanonicalTagged domainDedicatedRole (JObject
    [(''trust_policy_hash'', jstr trust), (''managed_policy_arns'', JArray (map jstr (sortedUnique managed))),
     (''inline_policies'', JArray (map refJSON (sortedRefs inline))), (''boundary_arn'', jstr boundary)]))"

definition dedicatedRoleHash :: "liveRole \<Rightarrow> compileError + string" where
  "dedicatedRoleHash r = dedicatedSpecHash (lr_TrustPolicyHash r) (map pf_Ref (lr_ManagedPolicies r))
    (lr_InlinePolicies r) (lr_BoundaryARN r)"

subsection \<open>Observation\<close>

definition factRoleID :: "fact list \<Rightarrow> string" where
  "factRoleID facts = foldl (\<lambda>r f. if fc_Kind f = FactRole then fc_Before f else r) [] facts"

definition observePolicy :: "string \<Rightarrow> fact \<Rightarrow> livePolicy option \<Rightarrow> compileError + string" where
  "observePolicy roleID f p =
    (case p of
       None \<Rightarrow> Inr (if fc_Kind f = FactPolicyUsers then usersValue [] else ValueAbsent)
     | Some p \<Rightarrow>
         if fc_Kind f = FactPolicyDocument then policyDocumentHash p
         else if fc_Kind f = FactPolicyOwner then Inr (ownerValue (lp_Tags p))
         else Inr (usersValue (otherUsers (lp_AttachmentSet p) roleID)))"

definition observeFact :: "string \<Rightarrow> liveRead \<Rightarrow> fact \<Rightarrow> compileError + string" where
  "observeFact roleID live f =
    (let k = fc_Kind f in
     if k = FactRole then
       Inr (case lv_Role live of None \<Rightarrow> ValueAbsent | Some r \<Rightarrow> lr_RoleID r)
     else if k = FactRoleDefinition then
       (case lv_Role live of None \<Rightarrow> Inr ValueAbsent | Some r \<Rightarrow> roleDefinitionHash r)
     else if k = FactRoleBoundary then
       Inr (case lv_Role live of
              None \<Rightarrow> ValueAbsent
            | Some r \<Rightarrow> if lr_BoundaryARN r = [] then ValueNone else lr_BoundaryARN r)
     else if k = FactPolicyDocument \<or> k = FactPolicyOwner \<or> k = FactPolicyUsers then
       (case map_of (lv_Policies live) (fc_Subject f) of
          None \<Rightarrow> Inl (CompileError ErrCodeLiveIncomplete [''policy '' @ fc_Subject f @ '' was not read''])
        | Some p \<Rightarrow> observePolicy roleID f p)
     else if k = FactBinding then
       (case map_of (lv_Bindings live) (fc_Subject f) of
          None \<Rightarrow> Inl (CompileError ErrCodeLiveIncomplete [''binding of '' @ fc_Subject f @ '' was not read''])
        | Some b \<Rightarrow> Inr b)
     else if k = FactNewRole then
       (case map_of (lv_Roles live) (fc_Subject f) of
          None \<Rightarrow> Inl (CompileError ErrCodeLiveIncomplete [''role '' @ fc_Subject f @ '' was not read''])
        | Some None \<Rightarrow> Inr ValueAbsent
        | Some (Some r) \<Rightarrow> dedicatedRoleHash r)
     else Inl (UnknownFactKind k))"

text \<open>The observed values in the order of the facts; a later entry for a key replaces an earlier.\<close>

type_synonym observation = "(string \<times> string) list"

definition observed :: "observation \<Rightarrow> string \<Rightarrow> string" where
  "observed obs k = derefOr (map_of (rev obs) k) []"

fun observeAll :: "string \<Rightarrow> liveRead \<Rightarrow> fact list \<Rightarrow> compileError + observation" where
  "observeAll roleID live [] = Inr []"
| "observeAll roleID live (f # fs) =
    bindR (observeFact roleID live f) (\<lambda>v. bindR (observeAll roleID live fs) (\<lambda>vs. Inr ((fc_Key f, v) # vs)))"

definition ObserveFacts :: "fact list \<Rightarrow> liveRead \<Rightarrow> compileError + observation" where
  "ObserveFacts facts live = observeAll (factRoleID facts) live facts"

subsection \<open>Classification\<close>

definition ClassBefore :: string where [go_consts]: "ClassBefore = ''before''"
definition ClassIntermediate :: string where [go_consts]: "ClassIntermediate = ''intermediate''"
definition ClassAfter :: string where [go_consts]: "ClassAfter = ''after''"
definition ClassConflict :: string where [go_consts]: "ClassConflict = ''conflict''"
definition AtBefore :: string where [go_consts]: "AtBefore = ''before''"
definition AtAfter :: string where [go_consts]: "AtAfter = ''after''"
definition AtBoth :: string where [go_consts]: "AtBoth = ''both''"
definition AtNeither :: string where [go_consts]: "AtNeither = ''neither''"
definition ConflictRoleGone :: string where [go_consts]: "ConflictRoleGone = ''role_gone''"
definition ConflictRoleRecreated :: string where [go_consts]: "ConflictRoleRecreated = ''role_recreated''"
definition ConflictOwnedElsewhere :: string where [go_consts]: "ConflictOwnedElsewhere = ''artifact_owned_elsewhere''"
definition ConflictConsumersChanged :: string where [go_consts]: "ConflictConsumersChanged = ''artifact_consumers_changed''"
definition ConflictChangedOutside :: string where [go_consts]: "ConflictChangedOutside = ''artifact_changed_outside_authsec''"
definition ConflictPlanChanged :: string where [go_consts]: "ConflictPlanChanged = ''plan_changed''"
definition ConflictNotAPrefix :: string where [go_consts]: "ConflictNotAPrefix = ''not_a_prefix_of_op_order''"
definition ConflictRoleDefinition :: string where [go_consts]: "ConflictRoleDefinition = ''role_definition_changed''"
definition ConflictBindingUnexpected :: string where [go_consts]: "ConflictBindingUnexpected = ''binding_unexpected''"

record factResult =
  fr_Fact :: fact
  fr_Observed :: string
  fr_At :: string

record classification =
  cl_Class :: string
  cl_NextOp :: int
  cl_Visible :: int
  cl_Total :: int
  cl_Facts :: "factResult list"
  cl_Conflicts :: "factResult list"
  cl_Reason :: string

definition opEffects :: "planOp \<Rightarrow> string list" where
  "opEffects p =
    (if op_Op p = OpCreatePolicy then [factKey FactPolicyDocument (op_PolicyARN p), factKey FactPolicyOwner (op_PolicyARN p)]
     else if op_Op p = OpCreatePolicyVersion then [factKey FactPolicyDocument (op_PolicyARN p)]
     else if op_Op p = OpDeletePolicy then [factKey FactPolicyDocument (op_PolicyARN p), factKey FactPolicyOwner (op_PolicyARN p)]
     else if op_Op p = OpPutRolePermissionsBoundary \<or> op_Op p = OpDeleteRolePermissionsBoundary then
       (if op_RoleARN p \<noteq> [] then [] else [FactRoleBoundary])
     else if op_Op p = OpCreateRole \<or> op_Op p = OpDeleteRole then [factKey FactNewRole (op_RoleARN p)]
     else if op_Op p = OpBindSubject then [factKey FactBinding (op_SubjectARN p)]
     else [])"

definition OpObservable :: "planOp \<Rightarrow> bool" where
  "OpObservable p \<longleftrightarrow> opEffects p \<noteq> []"

text \<open>The keys at their after value once \<open>k\<close> operations ran, for every \<open>k\<close>.\<close>

fun prefixFrom :: "string list \<Rightarrow> planOp list \<Rightarrow> string list list" where
  "prefixFrom cur [] = [cur]"
| "prefixFrom cur (p # ops) = cur # prefixFrom (cur @ opEffects p) ops"

definition prefixStates :: "planOp list \<Rightarrow> string list list" where
  "prefixStates ops = prefixFrom [] ops"

definition factPosition :: "fact \<Rightarrow> string \<Rightarrow> string" where
  "factPosition f v =
    (if v = fc_Before f \<and> v = fc_After f then AtBoth
     else if v = fc_Before f then AtBefore
     else if v = fc_After f then AtAfter
     else AtNeither)"

definition factResultOf :: "observation \<Rightarrow> fact \<Rightarrow> factResult" where
  "factResultOf obs f = \<lparr>fr_Fact = f, fr_Observed = observed obs (fc_Key f),
    fr_At = factPosition f (observed obs (fc_Key f))\<rparr>"

definition positions :: "factResult list \<Rightarrow> string \<Rightarrow> string" where
  "positions rs k = derefOr (map_of (rev (map (\<lambda>r. (fc_Key (fr_Fact r), fr_At r)) rs)) k) []"

definition conflictReason :: "plan \<Rightarrow> factResult list \<Rightarrow> string" where
  "conflictReason p cs =
    (let has = (\<lambda>kind. find (\<lambda>r. fc_Kind (fr_Fact r) = kind) cs) in
     case has FactRole of
       Some r \<Rightarrow> if fr_Observed r = ValueAbsent then ConflictRoleGone else ConflictRoleRecreated
     | None \<Rightarrow>
         if (case has FactPolicyOwner of Some r \<Rightarrow> hasPrefix (fr_Observed r) ''authsec:'' | None \<Rightarrow> False)
         then ConflictOwnedElsewhere
         else if has FactPolicyUsers \<noteq> None then ConflictConsumersChanged
         else if has FactBinding \<noteq> None then ConflictBindingUnexpected
         else if pl_Kind p = PlanUndo \<or> pl_Kind p = PlanRemoveControl \<or> pl_Kind p = PlanSplitRevert
         then ConflictChangedOutside
         else ConflictPlanChanged)"

text \<open>Whether every changing fact is where a set of executed keys puts it.\<close>

definition matchesState :: "fact list \<Rightarrow> (string \<Rightarrow> string) \<Rightarrow> string list \<Rightarrow> bool" where
  "matchesState facts pos st \<longleftrightarrow>
    list_all (\<lambda>f. fc_OnlyBefore f \<or> \<not> Changes f \<or> pos (fc_Key f) = (if fc_Key f \<in> set st then AtAfter else AtBefore)) facts"

fun firstMatch :: "fact list \<Rightarrow> (string \<Rightarrow> string) \<Rightarrow> nat \<Rightarrow> string list list \<Rightarrow> nat option" where
  "firstMatch facts pos k [] = None"
| "firstMatch facts pos k (st # sts) = (if matchesState facts pos st then Some k else firstMatch facts pos (k + 1) sts)"

definition classifyObserved :: "plan \<Rightarrow> fact list \<Rightarrow> observation \<Rightarrow> classification" where
  "classifyObserved p facts obs =
    (let rs = map (factResultOf obs) facts;
         pos = positions rs;
         live = filter (\<lambda>r. \<not> fc_OnlyBefore (fr_Fact r)) rs;
         moving = filter (\<lambda>r. Changes (fr_Fact r)) live;
         conflicts = filter (\<lambda>r. fr_At r = AtNeither) live;
         anyBefore = (\<exists>r \<in> set live. fr_At r = AtBefore);
         anyAfter = (\<exists>r \<in> set live. fr_At r = AtAfter);
         mismatch = filter (\<lambda>r. fc_OnlyBefore (fr_Fact r) \<and> fr_At r \<noteq> AtBoth) rs;
         c = \<lparr>cl_Class = [], cl_NextOp = - 1, cl_Visible = int (length (filter (\<lambda>r. fr_At r = AtAfter) moving)),
              cl_Total = int (length moving), cl_Facts = rs, cl_Conflicts = conflicts, cl_Reason = []\<rparr>
     in if conflicts \<noteq> [] then c\<lparr>cl_Class := ClassConflict, cl_Reason := conflictReason p conflicts\<rparr>
        else if anyBefore \<and> \<not> anyAfter \<and> mismatch \<noteq> [] then
          c\<lparr>cl_Class := ClassConflict, cl_Conflicts := [last mismatch], cl_Reason := ConflictRoleDefinition\<rparr>
        else
          (let c' = c\<lparr>cl_Class := (if anyBefore \<and> \<not> anyAfter then ClassBefore
                                   else if anyBefore \<and> anyAfter then ClassIntermediate else ClassAfter)\<rparr>
           in if pl_Delivery p \<noteq> DeliveryDirect then c'
              else (case firstMatch facts pos 0 (prefixStates (pl_Ops p)) of
                      Some k \<Rightarrow> c'\<lparr>cl_NextOp := int k\<rparr>
                    | None \<Rightarrow> c'\<lparr>cl_Class := ClassConflict, cl_Reason := ConflictNotAPrefix\<rparr>)))"

definition Classify :: "plan \<Rightarrow> liveRead \<Rightarrow> compileError + classification" where
  "Classify p live =
    (if pl_Facts p = [] then Inl NoFacts
     else bindR (ObserveFacts (pl_Facts p) live) (\<lambda>obs. Inr (classifyObserved p (pl_Facts p) obs)))"

subsection \<open>Per-operation recovery\<close>

definition ResolvedApplied :: string where [go_consts]: "ResolvedApplied = ''applied''"
definition ResolvedNotApplied :: string where [go_consts]: "ResolvedNotApplied = ''not_applied''"
definition ResolvedUnobservable :: string where [go_consts]: "ResolvedUnobservable = ''unobservable_idempotent''"
definition ResolvedConflict :: string where [go_consts]: "ResolvedConflict = ''conflict''"

record opResolution =
  or_Resolution :: string
  or_Classification :: classification

definition resultsMatch :: "factResult list \<Rightarrow> string list \<Rightarrow> bool" where
  "resultsMatch rs st \<longleftrightarrow>
    list_all (\<lambda>r. fc_OnlyBefore (fr_Fact r) \<or> \<not> Changes (fr_Fact r) \<or>
      fr_At r = (if fc_Key (fr_Fact r) \<in> set st then AtAfter else AtBefore)) rs"

definition ResolveUnknownOp :: "plan \<Rightarrow> int \<Rightarrow> liveRead \<Rightarrow> compileError + opResolution" where
  "ResolveUnknownOp p opIndex live =
    (if pl_Delivery p \<noteq> DeliveryDirect then Inl NotDirect
     else if opIndex < 0 \<or> opIndex \<ge> int (length (pl_Ops p)) then Inl OpNotInPlan
     else bindR (Classify p live) (\<lambda>cl.
       let i = nat opIndex; states = prefixStates (pl_Ops p) in
       Inr \<lparr>or_Resolution =
          (if cl_Class cl = ClassConflict then ResolvedConflict
           else if opEffects (pl_Ops p ! i) = [] then ResolvedUnobservable
           else if resultsMatch (cl_Facts cl) (states ! (i + 1)) then ResolvedApplied
           else if resultsMatch (cl_Facts cl) (states ! i) then ResolvedNotApplied
           else ResolvedConflict),
        or_Classification = cl\<rparr>))"

definition OutcomeOK :: string where [go_consts]: "OutcomeOK = ''ok''"
definition OutcomeRetryable :: string where [go_consts]: "OutcomeRetryable = ''retryable''"
definition OutcomeTerminal :: string where [go_consts]: "OutcomeTerminal = ''terminal''"
definition OutcomeRecognisedDone :: string where [go_consts]: "OutcomeRecognisedDone = ''recognised_done''"
definition OutcomeNotNeeded :: string where [go_consts]: "OutcomeNotNeeded = ''not_needed''"
definition OutcomeUnknown :: string where [go_consts]: "OutcomeUnknown = ''unknown''"

record opOutcome =
  oo_Outcome :: string
  oo_Reason :: string

abbreviation OpOutcome :: "string \<Rightarrow> string \<Rightarrow> opOutcome" where
  "OpOutcome o' r \<equiv> \<lparr>oo_Outcome = o', oo_Reason = r\<rparr>"

datatype responseKind = RespOK | RespError | RespNoAnswer

definition IsIAMThrottle :: "string \<Rightarrow> bool" where
  "IsIAMThrottle code \<longleftrightarrow>
    code \<in> {''Throttling'', ''ThrottlingException'', ''RequestLimitExceeded'', ''TooManyRequestsException''}"

text \<open>
  The recognition column: what an operation's error and the live read say of it. \<^term>\<open>None\<close>
  leaves the decision to the end of the table.
\<close>

definition recognise :: "plan \<Rightarrow> planOp \<Rightarrow> string \<Rightarrow> liveRead \<Rightarrow> opOutcome option" where
  "recognise p op' code live =
    (let pol = map_of (lv_Policies live) (op_PolicyARN op'); name = op_Op op' in
     if name = OpCreatePolicy then
       (if code = ''EntityAlreadyExists'' then
          (case pol of
             Some (Some pp) \<Rightarrow>
               if tagval (lp_Tags pp) TagManagedBy = TagManagedByValue \<and> tagval (op_Tags op') TagWorkspace \<noteq> [] \<and>
                  tagval (lp_Tags pp) TagWorkspace \<noteq> tagval (op_Tags op') TagWorkspace
               then Some (OpOutcome OutcomeTerminal ConflictOwnedElsewhere)
               else if policyDocumentHash pp = Inr (op_DocumentHash op') \<and>
                  tagval (lp_Tags pp) TagControl = tagval (op_Tags op') TagControl
               then Some (OpOutcome OutcomeRecognisedDone [])
               else Some (OpOutcome OutcomeTerminal ''blocked: exists with another document or control'')
           | _ \<Rightarrow> Some (OpOutcome OutcomeTerminal ''exists_but_unreadable''))
        else None)
     else if name = OpCreatePolicyVersion then
       (if (case pol of Some (Some pp) \<Rightarrow> policyDocumentHash pp = Inr (op_DocumentHash op') | _ \<Rightarrow> False)
        then Some (OpOutcome OutcomeNotNeeded [])
        else if code = ''LimitExceeded'' then Some (OpOutcome OutcomeTerminal ''version_limit_after_prune'')
        else None)
     else if name = OpDeletePolicyVersion then
       (if code = ''NoSuchEntity'' then Some (OpOutcome OutcomeRecognisedDone [])
        else if code = ''DeleteConflict'' then Some (OpOutcome OutcomeTerminal ''blocked: version is the default'')
        else None)
     else if name = OpTagPolicy then
       (if code = ''NoSuchEntity'' then Some (OpOutcome OutcomeTerminal ''blocked: policy gone'') else None)
     else if name = OpPutRolePermissionsBoundary then
       (if (case lv_Role live of Some r \<Rightarrow> lr_BoundaryARN r = op_PolicyARN op' | None \<Rightarrow> False)
        then Some (OpOutcome OutcomeRecognisedDone [])
        else if code = ''AccessDenied'' \<or> code = ''AccessDeniedException'' then Some (OpOutcome OutcomeTerminal ''binding_partial'')
        else if code = ''NoSuchEntity'' then Some (OpOutcome OutcomeTerminal ConflictRoleGone)
        else None)
     else if name = OpDeleteRolePermissionsBoundary then
       (case lv_Role live of
          None \<Rightarrow> None
        | Some r \<Rightarrow>
            if lr_BoundaryARN r = [] then Some (OpOutcome OutcomeRecognisedDone [])
            else if list_ex (\<lambda>f. fc_Kind f = FactRoleBoundary \<and> lr_BoundaryARN r \<noteq> fc_Before f) (pl_Facts p)
            then Some (OpOutcome OutcomeTerminal ''blocked: another boundary is attached'')
            else None)
     else if name = OpDeletePolicy then
       (if code = ''NoSuchEntity'' then Some (OpOutcome OutcomeRecognisedDone [])
        else if code = ''DeleteConflict'' then Some (OpOutcome OutcomeTerminal ''attached_elsewhere'')
        else None)
     else None)"

definition ClassifyOpResponse :: "plan \<Rightarrow> int \<Rightarrow> responseKind \<Rightarrow> string \<Rightarrow> liveRead \<Rightarrow> opOutcome" where
  "ClassifyOpResponse p opIndex kind code live =
    (if opIndex < 0 \<or> opIndex \<ge> int (length (pl_Ops p)) then OpOutcome OutcomeTerminal ''op_not_in_plan''
     else (case kind of
       RespOK \<Rightarrow> OpOutcome OutcomeOK []
     | RespNoAnswer \<Rightarrow> OpOutcome OutcomeUnknown ''no_answer_not_retried''
     | RespError \<Rightarrow>
         if IsIAMThrottle code then OpOutcome OutcomeRetryable ''throttled''
         else if code \<in> {''ServiceFailure'', ''InternalFailure'', ''ServiceUnavailable''}
         then OpOutcome OutcomeUnknown ''service_failure_not_retried''
         else (case recognise p (pl_Ops p ! nat opIndex) code live of
                 Some r \<Rightarrow> r
               | None \<Rightarrow>
                   if code = ''LimitExceeded'' then OpOutcome OutcomeTerminal ''quota_exceeded''
                   else OpOutcome OutcomeTerminal code)))"

end
