(* ===== verification/RecoverProps.thy ===== *)
theory RecoverProps
  imports Recover
begin

section \<open>Correctness of classification and recovery\<close>

text \<open>
  The state after a prefix of the operations is described by the keys those operations move.
  The classifier accepts exactly the observations that agree with such a state, names the
  shortest prefix, and running the operations it leaves over completes the plan.
\<close>

subsection \<open>Prefix states\<close>

definition executed :: "planOp list \<Rightarrow> nat \<Rightarrow> string list" where
  "executed ops k = concat (map opEffects (take k ops))"

definition valueAfter :: "string list \<Rightarrow> fact \<Rightarrow> string" where
  "valueAfter st f = (if fc_Key f \<in> set st then fc_After f else fc_Before f)"

definition agrees :: "fact list \<Rightarrow> observation \<Rightarrow> string list \<Rightarrow> bool" where
  "agrees facts obs st \<longleftrightarrow> (\<forall>f \<in> set facts. \<not> fc_OnlyBefore f \<longrightarrow> observed obs (fc_Key f) = valueAfter st f)"

definition pristine :: "fact list \<Rightarrow> observation \<Rightarrow> bool" where
  "pristine facts obs \<longleftrightarrow> (\<exists>f \<in> set facts. \<not> fc_OnlyBefore f \<and> Changes f) \<and>
    (\<forall>f \<in> set facts. \<not> fc_OnlyBefore f \<longrightarrow> observed obs (fc_Key f) = fc_Before f)"

definition definitionKept :: "fact list \<Rightarrow> observation \<Rightarrow> bool" where
  "definitionKept facts obs \<longleftrightarrow> (\<forall>f \<in> set facts. fc_OnlyBefore f \<longrightarrow>
    observed obs (fc_Key f) = fc_Before f \<and> observed obs (fc_Key f) = fc_After f)"

lemma prefixFrom_nth: "k \<le> length ops \<Longrightarrow> prefixFrom cur ops ! k = cur @ executed ops k"
proof (induction ops arbitrary: cur k)
  case (Cons p ops)
  then show ?case by (cases k) (auto simp: executed_def)
qed (simp add: executed_def)

lemma prefixFrom_length: "length (prefixFrom cur ops) = length ops + 1"
  by (induction ops arbitrary: cur) auto

lemma prefixStates_nth: "k \<le> length ops \<Longrightarrow> prefixStates ops ! k = executed ops k"
  by (simp add: prefixStates_def prefixFrom_nth)

lemma prefixStates_length: "length (prefixStates ops) = length ops + 1"
  by (simp add: prefixStates_def prefixFrom_length)

lemma firstMatch_Some:
  "firstMatch facts pos i sts = Some k \<longleftrightarrow>
    i \<le> k \<and> k < i + length sts \<and> matchesState facts pos (sts ! (k - i)) \<and>
    (\<forall>j < k - i. \<not> matchesState facts pos (sts ! j))"
proof (induction sts arbitrary: i)
  case (Cons st sts)
  show ?case
  proof (cases "matchesState facts pos st")
    case True
    then show ?thesis by (auto simp: nth_Cons')
  next
    case False
    have "(\<forall>j < k - i. \<not> matchesState facts pos ((st # sts) ! j)) \<longleftrightarrow>
        (\<forall>j < k - Suc i. \<not> matchesState facts pos (sts ! j))" if "Suc i \<le> k"
    proof -
      have "k - i = Suc (k - Suc i)" using that by simp
      then show ?thesis using False by (simp add: All_less_Suc2)
    qed
    moreover have "(st # sts) ! (k - i) = sts ! (k - Suc i)" if "Suc i \<le> k"
      using that by (simp add: nth_Cons')
    moreover have "i \<le> k \<and> matchesState facts pos ((st # sts) ! (k - i)) \<Longrightarrow> Suc i \<le> k"
      using False by (cases "k = i") auto
    ultimately show ?thesis using False Cons.IH [of "i + 1"] by auto
  qed
qed auto

lemma firstMatch_None: "firstMatch facts pos i sts = None \<longleftrightarrow> (\<forall>st \<in> set sts. \<not> matchesState facts pos st)"
  by (induction sts arbitrary: i) auto

subsection \<open>Positions\<close>

lemma at_distinct [simp]:
  "AtAfter \<noteq> AtBefore" "AtBefore \<noteq> AtAfter" "AtAfter \<noteq> AtBoth" "AtBefore \<noteq> AtBoth" "AtNeither \<noteq> AtBefore"
  "AtNeither \<noteq> AtAfter" "AtNeither \<noteq> AtBoth" "AtBefore \<noteq> AtNeither" "AtAfter \<noteq> AtNeither" "AtBoth \<noteq> AtNeither"
  "AtBoth \<noteq> AtBefore" "AtBoth \<noteq> AtAfter"
  by (simp_all add: go_consts)

lemma class_distinct [simp]:
  "ClassBefore \<noteq> ClassConflict" "ClassIntermediate \<noteq> ClassConflict" "ClassAfter \<noteq> ClassConflict"
  "ClassConflict \<noteq> ClassAfter" "ClassBefore \<noteq> ClassAfter" "ClassIntermediate \<noteq> ClassAfter"
  "ClassBefore \<noteq> ClassIntermediate" "ClassIntermediate \<noteq> ClassBefore"
  by (simp_all add: go_consts)

lemma factPosition_iff:
  "factPosition f v = AtBefore \<longleftrightarrow> v = fc_Before f \<and> Changes f"
  "factPosition f v = AtAfter \<longleftrightarrow> v = fc_After f \<and> Changes f"
  "factPosition f v = AtNeither \<longleftrightarrow> v \<noteq> fc_Before f \<and> v \<noteq> fc_After f"
  "factPosition f v = AtBoth \<longleftrightarrow> v = fc_Before f \<and> v = fc_After f"
  by (auto simp: factPosition_def Changes_def)

lemma positions_lookup:
  assumes "distinct (map fc_Key facts)" "f \<in> set facts"
  shows "positions (map (factResultOf obs) facts) (fc_Key f) = factPosition f (observed obs (fc_Key f))"
proof -
  let ?ps = "map (\<lambda>r. (fc_Key (fr_Fact r), fr_At r)) (map (factResultOf obs) facts)"
  have ps: "?ps = map (\<lambda>f. (fc_Key f, factPosition f (observed obs (fc_Key f)))) facts"
    by (simp add: factResultOf_def)
  have "distinct (map fst (rev ?ps))" using assms(1) unfolding ps by (simp add: rev_map [symmetric] comp_def)
  moreover have "(fc_Key f, factPosition f (observed obs (fc_Key f))) \<in> set (rev ?ps)" using assms(2) unfolding ps by auto
  ultimately have "map_of (rev ?ps) (fc_Key f) = Some (factPosition f (observed obs (fc_Key f)))" by (rule map_of_is_SomeI)
  then show ?thesis unfolding positions_def by simp
qed

definition anyConflict :: "fact list \<Rightarrow> observation \<Rightarrow> bool" where
  "anyConflict facts obs \<longleftrightarrow> (\<exists>f \<in> set facts. \<not> fc_OnlyBefore f \<and>
    observed obs (fc_Key f) \<noteq> fc_Before f \<and> observed obs (fc_Key f) \<noteq> fc_After f)"

lemma matches_agrees:
  assumes "distinct (map fc_Key facts)" "\<not> anyConflict facts obs"
  shows "matchesState facts (positions (map (factResultOf obs) facts)) st \<longleftrightarrow> agrees facts obs st"
proof -
  have "(fc_OnlyBefore f \<or> \<not> Changes f \<or>
      positions (map (factResultOf obs) facts) (fc_Key f) = (if fc_Key f \<in> set st then AtAfter else AtBefore)) \<longleftrightarrow>
      (\<not> fc_OnlyBefore f \<longrightarrow> observed obs (fc_Key f) = valueAfter st f)" if f: "f \<in> set facts" for f
    using assms(2) f unfolding positions_lookup [OF assms(1) f] anyConflict_def
    by (auto simp: factPosition_iff valueAfter_def Changes_def)
  then show ?thesis unfolding matchesState_def agrees_def list_all_iff by blast
qed

lemma agrees_no_conflict: "agrees facts obs st \<Longrightarrow> \<not> anyConflict facts obs"
  unfolding agrees_def anyConflict_def valueAfter_def by metis

definition anyBefore :: "fact list \<Rightarrow> observation \<Rightarrow> bool" where
  "anyBefore facts obs \<longleftrightarrow> (\<exists>f \<in> set facts. \<not> fc_OnlyBefore f \<and> Changes f \<and> observed obs (fc_Key f) = fc_Before f)"

definition anyAfter :: "fact list \<Rightarrow> observation \<Rightarrow> bool" where
  "anyAfter facts obs \<longleftrightarrow> (\<exists>f \<in> set facts. \<not> fc_OnlyBefore f \<and> Changes f \<and> observed obs (fc_Key f) = fc_After f)"

definition baseClass :: "fact list \<Rightarrow> observation \<Rightarrow> string" where
  "baseClass facts obs =
    (if anyBefore facts obs \<and> \<not> anyAfter facts obs then ClassBefore
     else if anyBefore facts obs \<and> anyAfter facts obs then ClassIntermediate else ClassAfter)"

lemma results_live:
  "filter (\<lambda>r. fr_At r = AtNeither) (filter (\<lambda>r. \<not> fc_OnlyBefore (fr_Fact r)) (map (factResultOf obs) facts)) = [] \<longleftrightarrow>
    \<not> anyConflict facts obs"
  "(\<exists>r \<in> set (filter (\<lambda>r. \<not> fc_OnlyBefore (fr_Fact r)) (map (factResultOf obs) facts)). fr_At r = AtBefore) \<longleftrightarrow>
    anyBefore facts obs"
  "(\<exists>r \<in> set (filter (\<lambda>r. \<not> fc_OnlyBefore (fr_Fact r)) (map (factResultOf obs) facts)). fr_At r = AtAfter) \<longleftrightarrow>
    anyAfter facts obs"
  "filter (\<lambda>r. fc_OnlyBefore (fr_Fact r) \<and> fr_At r \<noteq> AtBoth) (map (factResultOf obs) facts) = [] \<longleftrightarrow>
    definitionKept facts obs"
  by (auto simp: filter_empty_conv factResultOf_def factPosition_iff anyConflict_def anyBefore_def anyAfter_def
      definitionKept_def)

lemma classify_fields:
  fixes p facts obs
  defines "m \<equiv> firstMatch facts (positions (map (factResultOf obs) facts)) 0 (prefixStates (pl_Ops p))"
  shows "cl_Class (classifyObserved p facts obs) =
      (if anyConflict facts obs then ClassConflict
       else if anyBefore facts obs \<and> \<not> anyAfter facts obs \<and> \<not> definitionKept facts obs then ClassConflict
       else if pl_Delivery p = DeliveryDirect \<and> m = None then ClassConflict else baseClass facts obs)"
    and "cl_Class (classifyObserved p facts obs) \<noteq> ClassConflict \<Longrightarrow> pl_Delivery p = DeliveryDirect \<Longrightarrow>
      \<exists>k. m = Some k \<and> cl_NextOp (classifyObserved p facts obs) = int k"
    and "cl_Facts (classifyObserved p facts obs) = map (factResultOf obs) facts"
  unfolding classifyObserved_def Let_def results_live m_def baseClass_def
  by (auto split: option.splits if_splits)

lemma base_not_conflict [simp]: "baseClass facts obs \<noteq> ClassConflict"
  by (simp add: baseClass_def)

lemma pristine_iff:
  assumes "\<not> anyConflict facts obs"
  shows "anyBefore facts obs \<and> \<not> anyAfter facts obs \<longleftrightarrow> pristine facts obs"
  using assms unfolding anyBefore_def anyAfter_def pristine_def anyConflict_def Changes_def by metis

lemma match_exists:
  assumes "distinct (map fc_Key facts)" "\<not> anyConflict facts obs"
  shows "firstMatch facts (positions (map (factResultOf obs) facts)) 0 (prefixStates ops) \<noteq> None \<longleftrightarrow>
    (\<exists>k \<le> length ops. agrees facts obs (executed ops k))"
proof -
  have "(\<exists>st \<in> set (prefixStates ops). agrees facts obs st) \<longleftrightarrow> (\<exists>k \<le> length ops. agrees facts obs (executed ops k))"
    using prefixStates_nth prefixStates_length [of ops] by (metis in_set_conv_nth less_Suc_eq_le Suc_eq_plus1)
  then show ?thesis unfolding firstMatch_None matches_agrees [OF assms] by auto
qed

lemma classify_iff:
  assumes "pl_Delivery p = DeliveryDirect" "distinct (map fc_Key facts)"
  shows "cl_Class (classifyObserved p facts obs) \<noteq> ClassConflict \<longleftrightarrow>
    (\<exists>k \<le> length (pl_Ops p). agrees facts obs (executed (pl_Ops p) k)) \<and> \<not> (pristine facts obs \<and> \<not> definitionKept facts obs)"
proof (cases "anyConflict facts obs")
  case True
  then show ?thesis using agrees_no_conflict by (auto simp: classify_fields(1))
next
  case False
  then show ?thesis using match_exists [OF assms(2) False, of "pl_Ops p"] pristine_iff [OF False] assms(1)
    by (auto simp: classify_fields(1))
qed

lemma classify_next:
  assumes "pl_Delivery p = DeliveryDirect" "distinct (map fc_Key facts)"
    "cl_Class (classifyObserved p facts obs) \<noteq> ClassConflict"
  obtains k where "cl_NextOp (classifyObserved p facts obs) = int k" "k \<le> length (pl_Ops p)"
    "agrees facts obs (executed (pl_Ops p) k)" "\<forall>j < k. \<not> agrees facts obs (executed (pl_Ops p) j)"
proof -
  have nc: "\<not> anyConflict facts obs" using assms(3) by (auto simp: classify_fields(1))
  obtain k where k: "firstMatch facts (positions (map (factResultOf obs) facts)) 0 (prefixStates (pl_Ops p)) = Some k"
    "cl_NextOp (classifyObserved p facts obs) = int k" using classify_fields(2) [OF assms(3,1)] by blast
  have b: "k \<le> length (pl_Ops p)" using k(1) by (auto simp: firstMatch_Some prefixStates_length)
  then show thesis using that [OF k(2) b] k(1) prefixStates_nth
    unfolding firstMatch_Some matches_agrees [OF assms(2) nc] by auto
qed

subsection \<open>Running the remaining operations\<close>

text \<open>
  What \<^verbatim>\<open>opEffects\<close> says an operation does: it moves the facts with those keys to their
  after value. An observation is extended by the new values.
\<close>

definition runOp :: "fact list \<Rightarrow> observation \<Rightarrow> planOp \<Rightarrow> observation" where
  "runOp facts obs p = obs @ map (\<lambda>f. (fc_Key f, fc_After f)) (filter (\<lambda>f. fc_Key f \<in> set (opEffects p)) facts)"

definition runOps :: "fact list \<Rightarrow> observation \<Rightarrow> planOp list \<Rightarrow> observation" where
  "runOps facts obs ops = foldl (runOp facts) obs ops"

definition coversChanges :: "planOp list \<Rightarrow> fact list \<Rightarrow> bool" where
  "coversChanges ops facts \<longleftrightarrow>
    (\<forall>f \<in> set facts. \<not> fc_OnlyBefore f \<and> Changes f \<longrightarrow> fc_Key f \<in> set (executed ops (length ops)))"

lemma observed_runOp:
  assumes "distinct (map fc_Key facts)" "f \<in> set facts"
  shows "observed (runOp facts obs p) (fc_Key f) =
    (if fc_Key f \<in> set (opEffects p) then fc_After f else observed obs (fc_Key f))"
proof -
  let ?fs = "filter (\<lambda>f. fc_Key f \<in> set (opEffects p)) facts"
  let ?ps = "rev (map (\<lambda>f. (fc_Key f, fc_After f)) ?fs)"
  have "distinct (map fc_Key ?fs)" using assms(1) by (simp add: distinct_map_filter)
  then have d: "distinct (map fst ?ps)" by (simp add: rev_map [symmetric] comp_def)
  show ?thesis
  proof (cases "fc_Key f \<in> set (opEffects p)")
    case True
    then have "(fc_Key f, fc_After f) \<in> set ?ps" using assms(2) by auto
    then have "map_of ?ps (fc_Key f) = Some (fc_After f)" by (rule map_of_is_SomeI [OF d])
    then show ?thesis using True by (simp add: observed_def runOp_def)
  next
    case False
    then have "map_of ?ps (fc_Key f) = None" unfolding map_of_eq_None_iff by auto
    then show ?thesis using False by (simp add: observed_def runOp_def map_add_def)
  qed
qed

lemma executed_Suc: "k < length ops \<Longrightarrow> executed ops (Suc k) = executed ops k @ opEffects (ops ! k)"
  by (simp add: executed_def take_Suc_conv_app_nth)

lemma agrees_runOp:
  assumes "distinct (map fc_Key facts)" "agrees facts obs (executed ops k)" "k < length ops"
  shows "agrees facts (runOp facts obs (ops ! k)) (executed ops (Suc k))"
  using assms(2) observed_runOp [OF assms(1)] unfolding agrees_def executed_Suc [OF assms(3)] by (auto simp: valueAfter_def)

lemma agrees_runOps:
  assumes "distinct (map fc_Key facts)" "agrees facts obs (executed ops k)" "k \<le> length ops"
  shows "agrees facts (runOps facts obs (drop k ops)) (executed ops (length ops))"
  using assms(2,3)
proof (induction "length ops - k" arbitrary: obs k)
  case 0
  then show ?case by (simp add: runOps_def)
next
  case (Suc n)
  then have k: "k < length ops" by simp
  have "runOps facts obs (drop k ops) = runOps facts (runOp facts obs (ops ! k)) (drop (Suc k) ops)"
    using k by (simp add: runOps_def Cons_nth_drop_Suc [symmetric])
  then show ?case using Suc.hyps(1) [OF _ agrees_runOp [OF assms(1) Suc.prems(1) k]] Suc.hyps(2) k by simp
qed

lemma complete_after:
  assumes "pl_Delivery p = DeliveryDirect" "distinct (map fc_Key facts)" "coversChanges (pl_Ops p) facts"
    "agrees facts obs (executed (pl_Ops p) (length (pl_Ops p)))"
  shows "cl_Class (classifyObserved p facts obs) = ClassAfter"
proof -
  have after: "observed obs (fc_Key f) = fc_After f" if "f \<in> set facts" "\<not> fc_OnlyBefore f" for f
    using assms(3,4) that unfolding agrees_def coversChanges_def valueAfter_def Changes_def by metis
  have "\<not> anyBefore facts obs" using after unfolding anyBefore_def Changes_def by metis
  then have "baseClass facts obs = ClassAfter" "\<not> pristine facts obs"
    using pristine_iff [OF agrees_no_conflict [OF assms(4)]] by (auto simp: baseClass_def)
  moreover have "cl_Class (classifyObserved p facts obs) \<noteq> ClassConflict"
    using classify_iff [OF assms(1,2)] assms(4) \<open>\<not> pristine facts obs\<close> by blast
  ultimately show ?thesis using classify_fields(1) [of p facts obs] by (metis (full_types))
qed

subsection \<open>Responses and unknown outcomes\<close>

lemma outcome_distinct:
  "OutcomeTerminal \<noteq> OutcomeRetryable" "OutcomeTerminal \<noteq> OutcomeUnknown" "OutcomeTerminal \<noteq> OutcomeOK"
  "OutcomeOK \<noteq> OutcomeRetryable" "OutcomeOK \<noteq> OutcomeUnknown" "OutcomeUnknown \<noteq> OutcomeRetryable"
  "OutcomeUnknown \<noteq> OutcomeOK" "OutcomeRetryable \<noteq> OutcomeUnknown" "OutcomeRetryable \<noteq> OutcomeOK"
  "OutcomeRecognisedDone \<notin> {OutcomeRetryable, OutcomeUnknown, OutcomeOK}"
  "OutcomeNotNeeded \<notin> {OutcomeRetryable, OutcomeUnknown, OutcomeOK}"
  by (simp_all add: go_consts)

lemma recognise_outcome:
  "recognise p q code live = Some r \<Longrightarrow> oo_Outcome r \<notin> {OutcomeRetryable, OutcomeUnknown, OutcomeOK}"
  unfolding recognise_def Let_def using outcome_distinct by (auto split: if_splits option.splits)

lemma resolution_distinct:
  "ResolvedApplied \<noteq> ResolvedNotApplied" "ResolvedApplied \<noteq> ResolvedUnobservable" "ResolvedApplied \<noteq> ResolvedConflict"
  "ResolvedNotApplied \<noteq> ResolvedApplied" "ResolvedNotApplied \<noteq> ResolvedUnobservable" "ResolvedNotApplied \<noteq> ResolvedConflict"
  "ResolvedUnobservable \<noteq> ResolvedApplied" "ResolvedUnobservable \<noteq> ResolvedNotApplied"
  "ResolvedUnobservable \<noteq> ResolvedConflict" "ResolvedConflict \<noteq> ResolvedApplied" "ResolvedConflict \<noteq> ResolvedNotApplied"
  "ResolvedConflict \<noteq> ResolvedUnobservable"
  by (simp_all add: go_consts)

lemma results_agree:
  assumes "\<not> anyConflict facts obs"
  shows "resultsMatch (map (factResultOf obs) facts) st \<longleftrightarrow> agrees facts obs st"
proof -
  have "(fc_OnlyBefore f \<or> \<not> Changes f \<or>
      factPosition f (observed obs (fc_Key f)) = (if fc_Key f \<in> set st then AtAfter else AtBefore)) \<longleftrightarrow>
      (\<not> fc_OnlyBefore f \<longrightarrow> observed obs (fc_Key f) = valueAfter st f)" if f: "f \<in> set facts" for f
    using assms f unfolding anyConflict_def by (auto simp: factPosition_iff valueAfter_def Changes_def)
  then show ?thesis unfolding resultsMatch_def agrees_def list_all_iff by (simp add: factResultOf_def)
qed

lemma resolve_cases:
  assumes "ResolveUnknownOp p i live = Inr r" "distinct (map fc_Key (pl_Facts p))"
    "ObserveFacts (pl_Facts p) live = Inr obs"
  shows "or_Resolution r = ResolvedConflict \<or>
    (or_Resolution r = ResolvedUnobservable \<and> executed (pl_Ops p) (nat i + 1) = executed (pl_Ops p) (nat i)) \<or>
    (or_Resolution r = ResolvedApplied \<and> agrees (pl_Facts p) obs (executed (pl_Ops p) (nat i + 1))) \<or>
    (or_Resolution r = ResolvedNotApplied \<and> agrees (pl_Facts p) obs (executed (pl_Ops p) (nat i)) \<and>
      \<not> agrees (pl_Facts p) obs (executed (pl_Ops p) (nat i + 1)))"
proof -
  let ?c = "classifyObserved p (pl_Facts p) obs"
  have i: "0 \<le> i" "nat i < length (pl_Ops p)" and c: "Classify p live = Inr ?c"
    using assms(1,3) by (auto simp: ResolveUnknownOp_def Classify_def split: if_splits)
  have r: "or_Resolution r = (if cl_Class ?c = ClassConflict then ResolvedConflict
      else if opEffects (pl_Ops p ! nat i) = [] then ResolvedUnobservable
      else if resultsMatch (cl_Facts ?c) (executed (pl_Ops p) (nat i + 1)) then ResolvedApplied
      else if resultsMatch (cl_Facts ?c) (executed (pl_Ops p) (nat i)) then ResolvedNotApplied else ResolvedConflict)"
    using assms(1) c i by (auto simp: ResolveUnknownOp_def Let_def prefixStates_nth Suc_leI split: if_splits)
  have "\<not> anyConflict (pl_Facts p) obs" if "cl_Class ?c \<noteq> ClassConflict"
    using that by (auto simp: classify_fields(1))
  moreover have "executed (pl_Ops p) (nat i + 1) = executed (pl_Ops p) (nat i)" if "opEffects (pl_Ops p ! nat i) = []"
    using that executed_Suc [OF i(2)] by simp
  ultimately show ?thesis unfolding r classify_fields(3) by (auto simp: results_agree)
qed

subsection \<open>Properties\<close>

definition exampleApply :: plan where
  "exampleApply = \<lparr>pl_ControlID = ''c'', pl_Kind = PlanApply, pl_Delivery = DeliveryDirect, pl_Eligibility = EligibilityEligible,
    pl_IneligibleReason = [], pl_Refusals = [], pl_Basis = BasisLiveRead, pl_BasisReadAt = 0, pl_Precondition = [],
    pl_PreconditionHash = [], pl_BeforeDocumentHash = None, pl_DesiredAttachment = AttachmentPresent,
    pl_DesiredBoundaryARN = Some ''a'', pl_DesiredDocumentHash = Some ''h'', pl_ReplacedBoundaryARN = None,
    pl_ArtifactDisposition = DispositionKeep, pl_BundleHash = ''b'', pl_EvidenceRev = 1, pl_ResourcePolicyScanRunID = None,
    pl_FirstAttachment = False, pl_Unanalysed = [],
    pl_Impact = \<lparr>im_Consumers = [], im_OwnerUserIDs = [], im_Removed = [], im_Retained = [], im_StatementRevisions = [],
      im_Routes = [], im_Restored = []\<rparr>,
    pl_ImpactHash = [],
    pl_Ops = [(newOp OpCreatePolicy)\<lparr>op_PolicyARN := ''a''\<rparr>, (newOp OpPutRolePermissionsBoundary)\<lparr>op_PolicyARN := ''a''\<rparr>],
    pl_Diff = \<lparr>df_Case = [], df_BoundaryBefore = None, df_BoundaryAfter = None, df_NewlyExcluded = [], df_AlreadyExcluded = [],
      df_NewlyUnexcluded = [], df_Narrowing = None, df_FirstAttachment = None, df_Split = None, df_Notes = [], df_Facts = []\<rparr>,
    pl_PlanHash = [], pl_MaterialHash = [], pl_GapRefs = [], pl_Documents = [],
    pl_Facts = [factRole ''r'', factBoundary ValueNone ''a'', factPolicyDoc ''a'' ValueAbsent ''h'',
      factPolicyOwner ''a'' ValueAbsent ''o'']\<rparr>"

definition exampleObservation :: observation where
  "exampleObservation = [(''role_incarnation'', ''r''), (''role_boundary'', ''none''), (''policy_document:a'', ''h''),
    (''policy_owner:a'', ''o'')]"

definition exampleReset :: plan where
  "exampleReset = exampleApply\<lparr>pl_Ops := [(newOp OpPutRolePermissionsBoundary)\<lparr>op_PolicyARN := ''a''\<rparr>],
    pl_Facts := [factRole ''r'', factBoundary ValueNone ''a'']\<rparr>"

definition exampleLive :: liveRead where
  "exampleLive = \<lparr>lv_ReadAt = 0, lv_Role = Some \<lparr>lr_RoleID = ''r'', lr_ARN = ''arn'', lr_Name = ''n'', lr_Path = ''/'',
      lr_AccountID = ''123456789012'', lr_Partition = ''aws'', lr_Tags = [], lr_Continuity = ContinuityImmutable,
      lr_BoundaryARN = [], lr_ManagedPolicies = [], lr_InlinePolicies = [], lr_TrustPolicyHash = ''t'', lr_Documents = []\<rparr>,
    lv_Policies = [], lv_Roles = [], lv_Bindings = []\<rparr>"

lemma example_facts: "distinct (map fc_Key (pl_Facts exampleApply))" "pl_Delivery exampleApply = DeliveryDirect"
  "coversChanges (pl_Ops exampleApply) (pl_Facts exampleApply)"
  "cl_Class (classifyObserved exampleApply (pl_Facts exampleApply) exampleObservation) = ClassIntermediate"
  "cl_NextOp (classifyObserved exampleApply (pl_Facts exampleApply) exampleObservation) = 1"
  by code_simp+

text \<open>
  C34. For direct delivery the classifier accepts an observation exactly when some prefix of the
  operations explains it and, when nothing has changed yet, the role's definition is still the one
  compiled against. Its next operation is then the length of the shortest such prefix.
\<close>

theorem classify_prefix_exact:
  assumes "pl_Delivery p = DeliveryDirect" "distinct (map fc_Key facts)"
  shows "(cl_Class (classifyObserved p facts obs) \<noteq> ClassConflict \<longleftrightarrow>
      (\<exists>k \<le> length (pl_Ops p). agrees facts obs (executed (pl_Ops p) k)) \<and>
      \<not> (pristine facts obs \<and> \<not> definitionKept facts obs)) \<and>
    (cl_Class (classifyObserved p facts obs) \<noteq> ClassConflict \<longrightarrow>
      (\<exists>k \<le> length (pl_Ops p). cl_NextOp (classifyObserved p facts obs) = int k \<and>
        agrees facts obs (executed (pl_Ops p) k) \<and> (\<forall>j < k. \<not> agrees facts obs (executed (pl_Ops p) j))))"
  using classify_iff [OF assms] classify_next [OF assms] by blast

theorem classify_prefix_exact_witness:
  "agrees (pl_Facts exampleApply) exampleObservation (executed (pl_Ops exampleApply) 1) \<and>
    \<not> agrees (pl_Facts exampleApply) exampleObservation (executed (pl_Ops exampleApply) 0)"
  using classify_prefix_exact [OF example_facts(2,1), of exampleObservation] example_facts(4,5) by simp




text \<open>
  C37. The answer on an operation whose outcome is unknown is read off the live state: applied only
  when the state is the one after it, not applied only when the state is the one before it and not
  the one after, and unobservable only for an operation that moves no fact.
\<close>

theorem unknown_op_resolved:
  assumes "ResolveUnknownOp p i live = Inr r" "distinct (map fc_Key (pl_Facts p))"
    "ObserveFacts (pl_Facts p) live = Inr obs"
  shows "(or_Resolution r = ResolvedApplied \<longrightarrow> agrees (pl_Facts p) obs (executed (pl_Ops p) (nat i + 1))) \<and>
    (or_Resolution r = ResolvedNotApplied \<longrightarrow> agrees (pl_Facts p) obs (executed (pl_Ops p) (nat i)) \<and>
      \<not> agrees (pl_Facts p) obs (executed (pl_Ops p) (nat i + 1))) \<and>
    (or_Resolution r = ResolvedUnobservable \<longrightarrow> executed (pl_Ops p) (nat i + 1) = executed (pl_Ops p) (nat i)) \<and>
    or_Resolution r \<in> {ResolvedApplied, ResolvedNotApplied, ResolvedUnobservable, ResolvedConflict}"
  using resolve_cases [OF assms] by (auto simp: resolution_distinct)

theorem unknown_op_resolved_witness:
  "agrees (pl_Facts exampleReset) [(''role_incarnation'', ''r''), (''role_boundary'', ''none'')] (executed (pl_Ops exampleReset) 0)"
proof -
  let ?obs = "[(''role_incarnation'', ''r''), (''role_boundary'', ''none'')]"
  have o: "ObserveFacts (pl_Facts exampleReset) exampleLive = Inr ?obs" by code_simp
  have "case ResolveUnknownOp exampleReset 0 exampleLive of Inl _ \<Rightarrow> False | Inr r \<Rightarrow> or_Resolution r = ResolvedNotApplied"
    by code_simp
  then obtain r where r: "ResolveUnknownOp exampleReset 0 exampleLive = Inr r" "or_Resolution r = ResolvedNotApplied"
    by (auto split: sum.splits)
  have "distinct (map fc_Key (pl_Facts exampleReset))" by code_simp
  from unknown_op_resolved [OF r(1) this o] r(2) show ?thesis by simp
qed

end
