(* ===== verification/Bundle.thy ===== *)
theory Bundle
  imports HashProps Intent
begin

section \<open>Evidence bundles (internal/igagov/bundle.go)\<close>

text \<open>
  A bundle is the canonical record of the evidence a plan rests on: its sources with the trust
  each one gets, the grants, the activity of the removed services, the routes and the gaps.
  \<open>BuildBundle\<close> derives the trust of every source, turns what was not analysed into gaps, sorts,
  hashes and classifies. The reading of a stored bundle with \<^verbatim>\<open>encoding/json\<close> is not modelled.
\<close>

subsection \<open>Time as text\<close>

text \<open>
  \<^verbatim>\<open>Time.UTC().Format(time.RFC3339Nano)\<close>: the civil date of a day number, two-digit fields, a
  fraction of a second without trailing zeros, and the zone Z.
\<close>

definition civilFromDays :: "int \<Rightarrow> int \<times> int \<times> int" where
  "civilFromDays n =
    (let z = n + 719468; era = z div 146097; doe = z mod 146097;
         yoe = (doe - doe div 1460 + doe div 36524 - doe div 146096) div 365;
         doy = doe - (365 * yoe + yoe div 4 - yoe div 100);
         mp = (5 * doy + 2) div 153;
         d = doy - (153 * mp + 2) div 5 + 1;
         m = (if mp < 10 then mp + 3 else mp - 9)
     in (yoe + era * 400 + (if m \<le> 2 then 1 else 0), m, d))"

definition padded :: "nat \<Rightarrow> int \<Rightarrow> string" where
  "padded w i = (let ds = natDigits (nat \<bar>i\<bar>)
    in (if i < 0 then ''-'' else []) @ replicate (w - length ds) (CHR ''0'') @ ds)"

definition fractionText :: "int \<Rightarrow> string" where
  "fractionText ns = (if ns = 0 then [] else CHR ''.'' # rev (dropWhile (\<lambda>c. c = CHR ''0'') (rev (padded 9 ns))))"

definition formatTime :: "gotime \<Rightarrow> string" where
  "formatTime t =
    (let ns = t mod 10 ^ 9; s = t div 10 ^ 9; (y, m, d) = civilFromDays (s div 86400); k = s mod 86400
     in padded 4 y @ ''-'' @ padded 2 m @ ''-'' @ padded 2 d @ ''T'' @ padded 2 (k div 3600) @ '':'' @
        padded 2 (k div 60 mod 60) @ '':'' @ padded 2 (k mod 60) @ fractionText ns @ ''Z'')"

definition tsv :: "gotime \<Rightarrow> string option" where
  "tsv t = (if t = zeroTime then None else Some (formatTime t))"

definition ts :: "gotime option \<Rightarrow> string option" where
  "ts t = (case t of None \<Rightarrow> None | Some u \<Rightarrow> tsv u)"

definition nilIfEmpty :: "string \<Rightarrow> string option" where
  "nilIfEmpty s = (if s = [] then None else Some s)"

subsection \<open>Vocabulary\<close>

definition BundleFormat :: string where [go_consts]: "BundleFormat = ''igagov.bundle/1''"
definition TrustTrusted :: string where [go_consts]: "TrustTrusted = ''trusted''"
definition TrustPartial :: string where [go_consts]: "TrustPartial = ''partial''"
definition TrustUntrusted :: string where [go_consts]: "TrustUntrusted = ''untrusted''"
definition SourceAWSPublication :: string where [go_consts]: "SourceAWSPublication = ''aws_publication''"
definition SourceK8sSweep :: string where [go_consts]: "SourceK8sSweep = ''k8s_sweep''"
definition GapResourcePolicyCoverage :: string where [go_consts]: "GapResourcePolicyCoverage = ''resource_policy_coverage''"
definition GapUnanalysedForm :: string where [go_consts]: "GapUnanalysedForm = ''unanalysed_form''"
definition GapPolicyUnparseable :: string where [go_consts]: "GapPolicyUnparseable = ''policy_unparseable''"
definition GapConsumersUnresolved :: string where [go_consts]: "GapConsumersUnresolved = ''consumers_unresolved''"
definition EvidenceCollected :: string where [go_consts]: "EvidenceCollected = ''collected''"
definition EvidenceNotCollected :: string where [go_consts]: "EvidenceNotCollected = ''not_collected''"

record trustRules =
  tr_MaxSourceAge :: int

definition DefaultTrustRules :: trustRules where
  "DefaultTrustRules = \<lparr>tr_MaxSourceAge = 24 * Hour\<rparr>"

record bundleSource =
  bs_Kind :: string
  bs_Rev :: int
  bs_PublishedAt :: "string option"
  bs_ConnectorID :: string
  bs_ConnectorRun :: string
  bs_Authenticated :: bool
  bs_Ordered :: bool
  bs_Trust :: string
  bs_TrustReasons :: "string list"
  bs_FreshnessHours :: int
  bs_ActivityReportGeneratedAt :: "string option"
  bs_ResourcePolicyCoverage :: string
  bs_ResourcePolicyRun :: "string option"

record bundleSourceInput =
  si_Kind :: string
  si_Rev :: int
  si_PublishedAt :: gotime
  si_ConnectorID :: string
  si_ConnectorRun :: string
  si_Authenticated :: bool
  si_Ordered :: bool
  si_ActivityReportGeneratedAt :: "gotime option"
  si_ResourcePolicyCoverage :: string
  si_ResourcePolicyRun :: string

record bundleTarget =
  bt_AccountID :: string
  bt_RoleID :: string
  bt_RoleARN :: string
  bt_EstateScope :: string

record bundleGrant =
  bg_PolicyARN :: string
  bg_AssignmentKind :: string
  bg_StatementKey :: string
  bg_StatementHash :: string
  bg_Services :: "string list"

record bundleActivity =
  ba_Service :: string
  ba_State :: string
  ba_Outcome :: string
  ba_LastAuthenticatedAt :: "string option"
  ba_GrantAgeBasis :: string
  ba_VerifiedGrantFrom :: "string option"
  ba_QualifiedDays :: int

definition ActivityFromQualification :: "qualification \<Rightarrow> bundleActivity" where
  "ActivityFromQualification q = \<lparr>ba_Service = q_Service q, ba_State = EvidenceCollected, ba_Outcome = q_Outcome q,
    ba_LastAuthenticatedAt = ts (q_LastAuthenticatedAt q), ba_GrantAgeBasis = q_GrantAgeBasis q,
    ba_VerifiedGrantFrom = ts (q_VerifiedGrantFrom q), ba_QualifiedDays = q_QualifiedDays q\<rparr>"

record gap =
  ga_Kind :: string
  ga_Key :: string
  ga_Service :: string
  ga_Form :: string
  ga_Region :: string
  ga_Resource :: string
  ga_Reason :: string
  ga_Count :: int

definition gapJSON :: "gap \<Rightarrow> json" where
  "gapJSON g = JObject ([(''kind'', jstr (ga_Kind g)), (''key'', jstr (ga_Key g))] @ omitempty ''service'' (ga_Service g) @
    omitempty ''form'' (ga_Form g) @ omitempty ''region'' (ga_Region g) @ omitempty ''resource'' (ga_Resource g) @
    omitempty ''reason'' (ga_Reason g) @ (if ga_Count g = 0 then [] else [(''count'', jint (ga_Count g))]))"

definition GapHash :: "gap \<Rightarrow> hashError + string" where
  "GapHash g = HashCanonicalTagged DomainGap (gapJSON g)"

record bundleFacts =
  bf_Format :: string
  bf_Catalog :: string
  bf_BuiltAt :: string
  bf_Sources :: "bundleSource list"
  bf_Target :: bundleTarget
  bf_RemovedServices :: "string list"
  bf_Grants :: "bundleGrant list"
  bf_Consumers :: "impactConsumer list"
  bf_ConsumersUnresolved :: int
  bf_Owners :: "string list"
  bf_Activity :: "bundleActivity list"
  bf_Routes :: "route list"
  bf_Gaps :: "gap list"

record bundleInput =
  bi_BuiltAt :: gotime
  bi_Sources :: "bundleSourceInput list"
  bi_Target :: bundleTarget
  bi_RemovedServices :: "string list"
  bi_Grants :: "bundleGrant list"
  bi_Consumers :: "impactConsumer list"
  bi_ConsumersUnresolved :: int
  bi_Owners :: "string list"
  bi_Activity :: "bundleActivity list"
  bi_RouteAnalyses :: "routeAnalysis list"

record evidenceBundle =
  bu_Facts :: bundleFacts
  bu_Canonical :: string
  bu_Hash :: string
  bu_Trust :: string
  bu_TrustReasons :: "string list"
  bu_GapRefs :: "gapRef list"

subsection \<open>Coverage, gaps and the trust of a source\<close>

definition emptyRole :: roleRef where
  "emptyRole = \<lparr>rr_RoleID = [], rr_ARN = [], rr_Name = [], rr_AccountID = [], rr_Partition = []\<rparr>"

definition formPartial :: "resourcePolicyEvidence \<Rightarrow> string list \<Rightarrow> policyBearingForm \<Rightarrow> bool" where
  "formPartial ev regions f \<longleftrightarrow> pf_State f = FormCollected \<and>
    list_ex (\<lambda>r. rt_Effect r = RouteEffectNotAnalysed \<and> rt_Form r = pf_Name f)
      (ra_Routes (AnalyzeRoutes (pf_Namespace f) emptyRole (Some (coverageOnly ev)) regions))"

definition SummarizeCoverage :: "resourcePolicyEvidence option \<Rightarrow> string list \<Rightarrow> string" where
  "SummarizeCoverage evd enabledRegions =
    (case evd of
       None \<Rightarrow> CoverageNotCollected
     | Some ev \<Rightarrow>
         if ev_Coverage ev = [] then CoverageNotCollected
         else if list_ex (formPartial ev enabledRegions) AllForms then CoveragePartial
         else CoverageComplete)"

abbreviation newGap :: "string \<Rightarrow> string \<Rightarrow> gap" where
  "newGap kind key \<equiv> \<lparr>ga_Kind = kind, ga_Key = key, ga_Service = [], ga_Form = [], ga_Region = [], ga_Resource = [],
    ga_Reason = [], ga_Count = 0\<rparr>"

definition gapFor :: "route \<Rightarrow> gap" where
  "gapFor r =
    (if rt_Reason r = ''form_not_collected'' then
       (newGap GapUnanalysedForm (''unanalysed_form:'' @ rt_Form r))
         \<lparr>ga_Service := rt_Service r, ga_Form := rt_Form r, ga_Reason := rt_Reason r\<rparr>
     else if rt_Reason r = ''policy_unparseable'' then
       (newGap GapPolicyUnparseable (''policy_unparseable:'' @ rt_Resource r))
         \<lparr>ga_Service := rt_Service r, ga_Form := rt_Form r, ga_Region := rt_Region r, ga_Resource := rt_Resource r,
          ga_Reason := rt_Reason r\<rparr>
     else if rt_Reason r = ''no_resource_policy_coverage'' then
       (newGap GapResourcePolicyCoverage (''resource_policy_coverage:'' @ rt_Service r @ '':*''))
         \<lparr>ga_Service := rt_Service r, ga_Reason := rt_Reason r\<rparr>
     else
       (newGap GapResourcePolicyCoverage (''resource_policy_coverage:'' @ rt_Form r @ '':'' @
          (if rt_Region r = [] then ''*'' else rt_Region r)))
         \<lparr>ga_Service := rt_Service r, ga_Form := rt_Form r, ga_Region := rt_Region r, ga_Reason := rt_Reason r\<rparr>)"

text \<open>The age of a source, and the reasons against it.\<close>

definition sourceAge :: "bundleSourceInput \<Rightarrow> gotime \<Rightarrow> int" where
  "sourceAge si builtAt = max 0 (timeSub builtAt (derefOr (si_ActivityReportGeneratedAt si) (si_PublishedAt si)))"

definition sourceCoverage :: "bundleSourceInput \<Rightarrow> string" where
  "sourceCoverage si =
    (if si_ResourcePolicyCoverage si = [] then CoverageNotCollected else si_ResourcePolicyCoverage si)"

definition sourceUntrusted :: "bundleSourceInput \<Rightarrow> gotime \<Rightarrow> trustRules \<Rightarrow> string list" where
  "sourceUntrusted si builtAt rules =
    (if si_Kind si \<noteq> SourceAWSPublication
     then (if si_Kind si = SourceK8sSweep then [''provider_not_supported:K-1''] else [''source_kind_not_supported''])
     else []) @
    (if \<not> si_Authenticated si then [''unauthenticated''] else []) @
    (if \<not> si_Ordered si then [''unordered''] else []) @
    (if sourceAge si builtAt > tr_MaxSourceAge rules then [''stale''] else [])"

definition sourcePartial :: "bundleSourceInput \<Rightarrow> string list" where
  "sourcePartial si =
    (if sourceCoverage si \<noteq> CoverageComplete then [''resource_policy_coverage_'' @ sourceCoverage si] else [])"

definition sourceTrust :: "bundleSourceInput \<Rightarrow> gotime \<Rightarrow> trustRules \<Rightarrow> bundleSource" where
  "sourceTrust si builtAt rules =
    (let untrusted = sourceUntrusted si builtAt rules; partial = sourcePartial si in
     \<lparr>bs_Kind = si_Kind si, bs_Rev = si_Rev si, bs_PublishedAt = tsv (si_PublishedAt si),
      bs_ConnectorID = si_ConnectorID si, bs_ConnectorRun = si_ConnectorRun si,
      bs_Authenticated = si_Authenticated si, bs_Ordered = si_Ordered si,
      bs_Trust = (if untrusted \<noteq> [] then TrustUntrusted else if partial \<noteq> [] then TrustPartial else TrustTrusted),
      bs_TrustReasons = sort (if untrusted \<noteq> [] then untrusted @ partial else partial),
      bs_FreshnessHours = sourceAge si builtAt div Hour,
      bs_ActivityReportGeneratedAt = ts (si_ActivityReportGeneratedAt si),
      bs_ResourcePolicyCoverage = sourceCoverage si, bs_ResourcePolicyRun = nilIfEmpty (si_ResourcePolicyRun si)\<rparr>)"

subsection \<open>The trust of a bundle\<close>

definition sourceReasons :: "bundleSource \<Rightarrow> string list" where
  "sourceReasons s = map (\<lambda>r. ''source '' @ bs_Kind s @ '':'' @ bs_ConnectorRun s @ '': '' @ r) (bs_TrustReasons s)"

definition untrustedReasons :: "bundleFacts \<Rightarrow> string list" where
  "untrustedReasons f =
    concat (map (\<lambda>s. if bs_Trust s = TrustUntrusted
        then (if bs_TrustReasons s = [] then [''source '' @ bs_Kind s @ '':'' @ bs_ConnectorRun s @ '': untrusted'']
              else sourceReasons s)
        else []) (bf_Sources f)) @
    map (\<lambda>svc. ''activity_not_collected:'' @ svc)
      (filter (\<lambda>svc. case map_of (rev (map (\<lambda>a. (ba_Service a, a)) (bf_Activity f))) svc of
           None \<Rightarrow> True | Some a \<Rightarrow> ba_State a \<noteq> EvidenceCollected) (bf_RemovedServices f))"

definition partialReasons :: "bundleFacts \<Rightarrow> string list" where
  "partialReasons f =
    concat (map (\<lambda>s. if bs_Trust s = TrustPartial then sourceReasons s else []) (bf_Sources f)) @
    map (\<lambda>g. ''gap '' @ ga_Key g) (bf_Gaps f)"

definition ClassifyBundleTrust :: "bundleFacts \<Rightarrow> string \<times> string list" where
  "ClassifyBundleTrust f =
    (let untrusted = untrustedReasons f; partial = partialReasons f in
     if untrusted \<noteq> [] then (TrustUntrusted, sortedUnique (untrusted @ partial))
     else if partial \<noteq> [] then (TrustPartial, sortedUnique partial)
     else (TrustTrusted, []))"

subsection \<open>Building\<close>

definition sourceJSON :: "bundleSource \<Rightarrow> json" where
  "sourceJSON s = JObject [(''kind'', jstr (bs_Kind s)), (''rev'', jint (bs_Rev s)), (''published_at'', jopt (bs_PublishedAt s)),
    (''connector_id'', jstr (bs_ConnectorID s)), (''connector_run'', jstr (bs_ConnectorRun s)),
    (''authenticated'', JBool (bs_Authenticated s)), (''ordered'', JBool (bs_Ordered s)), (''trust'', jstr (bs_Trust s)),
    (''trust_reasons'', JArray (map jstr (bs_TrustReasons s))), (''freshness_hours'', jint (bs_FreshnessHours s)),
    (''activity_report_generated_at'', jopt (bs_ActivityReportGeneratedAt s)),
    (''resource_policy_coverage'', jstr (bs_ResourcePolicyCoverage s)),
    (''resource_policy_run'', jopt (bs_ResourcePolicyRun s))]"

definition targetJSON :: "bundleTarget \<Rightarrow> json" where
  "targetJSON t = JObject [(''account_id'', jstr (bt_AccountID t)), (''role_id'', jstr (bt_RoleID t)),
    (''role_arn'', jstr (bt_RoleARN t)), (''estate_scope'', jstr (bt_EstateScope t))]"

definition grantJSON :: "bundleGrant \<Rightarrow> json" where
  "grantJSON g = JObject [(''policy_arn'', jstr (bg_PolicyARN g)), (''assignment_kind'', jstr (bg_AssignmentKind g)),
    (''statement_key'', jstr (bg_StatementKey g)), (''statement_hash'', jstr (bg_StatementHash g)),
    (''services'', JArray (map jstr (bg_Services g)))]"

definition activityJSON :: "bundleActivity \<Rightarrow> json" where
  "activityJSON a = JObject [(''service'', jstr (ba_Service a)), (''state'', jstr (ba_State a)),
    (''outcome'', jstr (ba_Outcome a)), (''last_authenticated_at'', jopt (ba_LastAuthenticatedAt a)),
    (''grant_age_basis'', jstr (ba_GrantAgeBasis a)), (''verified_grant_from'', jopt (ba_VerifiedGrantFrom a)),
    (''qualified_days'', jint (ba_QualifiedDays a))]"

definition bundleJSON :: "bundleFacts \<Rightarrow> json" where
  "bundleJSON f = JObject [(''format'', jstr (bf_Format f)), (''catalog'', jstr (bf_Catalog f)),
    (''built_at'', jstr (bf_BuiltAt f)), (''sources'', JArray (map sourceJSON (bf_Sources f))),
    (''target'', targetJSON (bf_Target f)), (''removed_services'', JArray (map jstr (bf_RemovedServices f))),
    (''grants'', JArray (map grantJSON (bf_Grants f))), (''consumers'', JArray (map consumerJSON (bf_Consumers f))),
    (''consumers_unresolved'', jint (bf_ConsumersUnresolved f)), (''owners'', JArray (map jstr (bf_Owners f))),
    (''activity'', JArray (map activityJSON (bf_Activity f))), (''routes'', JArray (map routeJSON (bf_Routes f))),
    (''gaps'', JArray (map gapJSON (bf_Gaps f)))]"

definition sourceKey :: "bundleSource \<Rightarrow> string \<times> string \<times> int \<times> string" where
  "sourceKey s = (bs_Kind s, bs_ConnectorID s, bs_Rev s, bs_ConnectorRun s)"

definition grantKey :: "bundleGrant \<Rightarrow> string \<times> string \<times> string" where
  "grantKey g = (bg_PolicyARN g, bg_StatementKey g, bg_StatementHash g)"

text \<open>The first service listed twice in a sorted activity list.\<close>

fun repeatedService :: "bundleActivity list \<Rightarrow> string option" where
  "repeatedService (a # b # as) = (if ba_Service a = ba_Service b then Some (ba_Service b) else repeatedService (b # as))"
| "repeatedService _ = None"

text \<open>The removed services' routes, and the gaps of those not analysed: a later gap of a key replaces an earlier.\<close>

definition removedRoutes :: "bundleInput \<Rightarrow> route list" where
  "removedRoutes bi =
    concat (map ra_Routes (filter (\<lambda>ra. ra_Service ra \<in> set (bi_RemovedServices bi)) (bi_RouteAnalyses bi)))"

definition allGaps :: "bundleInput \<Rightarrow> gap list" where
  "allGaps bi =
    map gapFor (filter (\<lambda>r. rt_Effect r = RouteEffectNotAnalysed) (removedRoutes bi)) @
    (if bi_ConsumersUnresolved bi > 0
     then [(newGap GapConsumersUnresolved GapConsumersUnresolved)\<lparr>ga_Count := bi_ConsumersUnresolved bi\<rparr>] else [])"

definition bundleGaps :: "bundleInput \<Rightarrow> gap list" where
  "bundleGaps bi =
    (let m = map (\<lambda>g. (ga_Key g, g)) (allGaps bi) in List.map_filter (map_of (rev m)) (sortedKeys m))"

definition bundleFactsOf :: "bundleInput \<Rightarrow> trustRules \<Rightarrow> bundleFacts" where
  "bundleFactsOf bi rules =
    \<lparr>bf_Format = BundleFormat, bf_Catalog = CatalogLabel, bf_BuiltAt = derefOr (tsv (bi_BuiltAt bi)) [],
     bf_Sources = sort_key sourceKey (map (\<lambda>s. sourceTrust s (bi_BuiltAt bi) rules) (bi_Sources bi)),
     bf_Target = (let t = bi_Target bi in
       if bt_EstateScope t = [] then t\<lparr>bt_EstateScope := ''aws:account:'' @ bt_AccountID t\<rparr> else t),
     bf_RemovedServices = sortedUnique (bi_RemovedServices bi),
     bf_Grants = sort_key grantKey (map (\<lambda>g. g\<lparr>bg_Services := sortedUnique (bg_Services g)\<rparr>) (bi_Grants bi)),
     bf_Consumers = uniqueConsumers (sort_key consumerKey (bi_Consumers bi)),
     bf_ConsumersUnresolved = bi_ConsumersUnresolved bi, bf_Owners = sortedUnique (bi_Owners bi),
     bf_Activity = sort_key ba_Service (bi_Activity bi),
     bf_Routes = SortRoutes (filter (\<lambda>r. rt_Effect r \<noteq> RouteEffectNotAnalysed) (removedRoutes bi)),
     bf_Gaps = bundleGaps bi\<rparr>"

datatype bundleError =
    NoSource | NoBuildTime | NoTarget | NegativeUnresolved | ActivityTwice string
  | BundleNotCanonical jsonError | BundleNotStorable | GapNotHashed hashError

fun gapRefsOf :: "gap list \<Rightarrow> bundleError + gapRef list" where
  "gapRefsOf [] = Inr []"
| "gapRefsOf (g # gs) =
    (case GapHash g of
       Inl e \<Rightarrow> Inl (GapNotHashed e)
     | Inr h \<Rightarrow> bindR (gapRefsOf gs) (\<lambda>rs. Inr (\<lparr>gr_Key = ga_Key g, gr_Hash = h\<rparr> # rs)))"

definition BuildBundle :: "bundleInput \<Rightarrow> trustRules \<Rightarrow> bundleError + evidenceBundle" where
  "BuildBundle bi rules =
    (if bi_Sources bi = [] then Inl NoSource
     else if bi_BuiltAt bi = zeroTime then Inl NoBuildTime
     else if \<not> reAccount (bt_AccountID (bi_Target bi)) \<or> bt_RoleID (bi_Target bi) = [] \<or> bt_RoleARN (bi_Target bi) = []
     then Inl NoTarget
     else if bi_ConsumersUnresolved bi < 0 then Inl NegativeUnresolved
     else let f = bundleFactsOf bi rules in
       case repeatedService (bf_Activity f) of
         Some s \<Rightarrow> Inl (ActivityTwice s)
       | None \<Rightarrow>
           (case CanonicalizeValue (bundleJSON f) of
              Inl e \<Rightarrow> Inl (BundleNotCanonical e)
            | Inr canon \<Rightarrow>
                if \<not> checkStorable canon then Inl BundleNotStorable
                else bindR (gapRefsOf (bf_Gaps f)) (\<lambda>refs.
                  Inr \<lparr>bu_Facts = f, bu_Canonical = canon, bu_Hash = ContentHash canon,
                       bu_Trust = fst (ClassifyBundleTrust f), bu_TrustReasons = snd (ClassifyBundleTrust f),
                       bu_GapRefs = refs\<rparr>)))"

end
