(* ===== verification/Storable.thy ===== *)
theory Storable
  imports HashProps
begin

section \<open>Values that always have a storable canonical text\<close>

text \<open>
  The structs the package hashes have fixed member names and a bounded depth, so their
  canonical text always exists (\<open>shallow\<close>); a text without escapes is always storable
  (\<open>plainJson\<close>).
\<close>

subsection \<open>Bounded depth and distinct names\<close>

definition shallow :: "nat \<Rightarrow> json \<Rightarrow> bool" where
  "shallow n v \<longleftrightarrow> jsonDepth v \<le> n \<and> keysDistinct v"

lemma shallow_array: "shallow (Suc n) (JArray vs) \<longleftrightarrow> (\<forall>v \<in> set vs. shallow n v)"
  using depth_array [of 0 vs "Suc n"] by (auto simp: shallow_def list_all_iff)

lemma shallow_object:
  "shallow (Suc n) (JObject ms) \<longleftrightarrow> distinct (map fst ms) \<and> (\<forall>kv \<in> set ms. shallow n (snd kv))"
  using depth_object [of 0 ms "Suc n"] by (auto simp: shallow_def list_all_iff)

lemma shallow_leaf [simp]:
  "shallow n (jstr s)" "shallow n (jopt v)" "shallow n (jint i)" "shallow n (JBool b)" "shallow n JNull"
  by (simp_all add: shallow_def)

lemma shallow_omitempty: "kv \<in> set (omitempty k s) \<Longrightarrow> shallow n (snd kv)"
  by (auto simp: omitempty_def split: if_splits)

lemma omitempty_fst: "set (map fst (omitempty k s)) \<subseteq> {k}" "distinct (map fst (omitempty k s))"
  by (simp_all add: omitempty_def)

lemma shallow_mono: "shallow m v \<Longrightarrow> m \<le> n \<Longrightarrow> shallow n v"
  by (simp add: shallow_def)

lemma shallow_canonical: "shallow n v \<Longrightarrow> n \<le> maxJSONDepth \<Longrightarrow> CanonicalizeValue v = Inr (writeCanonical v)"
  by (simp add: shallow_def CanonicalizeValue_def)

lemma shallow_hash: "shallow n v \<Longrightarrow> n \<le> maxJSONDepth \<Longrightarrow> canonical v = Inr (writeCanonical v)"
  by (simp add: shallow_canonical canonical_def)

lemma shallow_structs:
  "shallow (Suc n) (consumerJSON c)" "shallow (Suc n) (serviceJSON s)" "shallow (Suc n) (entityJSON e)"
  "shallow (Suc n) (refJSON r)" "shallow (Suc n) (gapRefJSON g)"
  by (simp_all add: shallow_object consumerJSON_def serviceJSON_def entityJSON_def refJSON_def gapRefJSON_def)

text \<open>Optional members: the names written are a subsequence of all names.\<close>

lemma distinct_subseq: "subseq xs ys \<Longrightarrow> distinct ys \<Longrightarrow> distinct xs"
  by (auto simp: subseq_conv_nths)

definition namesWithin :: "string list \<Rightarrow> (string \<times> json) list \<Rightarrow> bool" where
  "namesWithin ks ms \<longleftrightarrow> subseq (map fst ms) ks"

lemma names_Nil: "namesWithin [] []"
  by (simp add: namesWithin_def)

lemma names_member: "namesWithin ks ms \<Longrightarrow> namesWithin (k # ks) ((k, v) # ms)"
  by (simp add: namesWithin_def)

lemma names_optional:
  "namesWithin ks ms \<Longrightarrow> namesWithin (k # ks) (omitempty k s @ ms)"
  "namesWithin ks ms \<Longrightarrow> namesWithin (k # ks) ((if b then [] else [(k, v)]) @ ms)"
  "namesWithin ks ms \<Longrightarrow> namesWithin (k # ks) ((if b then [(k, v)] else []) @ ms)"
  by (auto simp: namesWithin_def omitempty_def)

lemma names_last:
  "namesWithin [k] (omitempty k s)" "namesWithin [k] (if b then [] else [(k, v)])" "namesWithin [k] (if b then [(k, v)] else [])"
  by (auto simp: namesWithin_def omitempty_def)

lemmas names_intros = names_Nil names_member names_optional names_last

lemma shallow_members:
  "namesWithin ks ms \<Longrightarrow> distinct ks \<Longrightarrow> \<forall>kv \<in> set ms. shallow n (snd kv) \<Longrightarrow> shallow (Suc n) (JObject ms)"
  by (simp add: shallow_object namesWithin_def distinct_subseq)

lemma shallow_route: "shallow (Suc n) (routeJSON r)"
  unfolding routeJSON_def
proof (rule shallow_members)
  show "namesWithin [''service'', ''form'', ''region'', ''resource'', ''principal'', ''effect'', ''reason'']
      ((''service'', jstr (rt_Service r)) # omitempty ''form'' (rt_Form r) @ omitempty ''region'' (rt_Region r) @
       omitempty ''resource'' (rt_Resource r) @ omitempty ''principal'' (rt_Principal r) @
       (''effect'', jstr (rt_Effect r)) # omitempty ''reason'' (rt_Reason r))"
    by (intro names_intros)
qed (auto dest: shallow_omitempty)

lemma shallow_unanalysed: "shallow (Suc n) (unanalysedJSON u)"
  unfolding unanalysedJSON_def
proof (rule shallow_members)
  show "namesWithin [''key'', ''form'', ''reason'']
      ((''key'', jstr (ui_Key u)) # omitempty ''form'' (ui_Form u) @ omitempty ''reason'' (ui_Reason u))"
    by (intro names_intros)
qed (auto dest: shallow_omitempty)

lemma shallow_impact: "shallow (Suc (Suc (Suc n))) (impactJSON im)"
  by (simp add: impactJSON_def shallow_object shallow_array shallow_structs shallow_route)

lemma ImpactHash_total: "\<exists>h. ImpactHash im = Inr h"
proof -
  have "3 \<le> maxJSONDepth" by (simp add: maxJSONDepth_def)
  then show ?thesis using shallow_hash [OF shallow_impact [of 0]]
    by (simp add: ImpactHash_def HashCanonicalTagged_def numeral_3_eq_3)
qed

subsection \<open>Text without escapes\<close>

definition plain :: "string \<Rightarrow> bool" where
  "plain s \<longleftrightarrow> list_all (\<lambda>c. 0x20 \<le> (of_char c :: nat) \<and> (of_char c :: nat) < 0x80 \<and> c \<noteq> CHR 0x22 \<and> c \<noteq> CHR 0x5C) s"

fun plainJson :: "json \<Rightarrow> bool" where
  "plainJson (JString s) = plain s"
| "plainJson (JArray vs) = list_all plainJson vs"
| "plainJson (JObject ms) = list_all (\<lambda>kv. plain (fst kv) \<and> plainJson (snd kv)) ms"
| "plainJson _ = True"

lemma plain_jstr: "plain s \<Longrightarrow> plainJson (jstr s)"
proof -
  assume "plain s"
  moreover from this have "list_all (\<lambda>c. (of_char c :: nat) < 0x80) s" by (auto simp: plain_def list_all_iff)
  ultimately show ?thesis by (simp add: jstr_def jsonText_id [OF ascii_valid])
qed

lemma plain_leaf:
  "pred_option plain v \<Longrightarrow> plainJson (jopt v)" "plainJson (jint i)"
  by (cases v; simp add: jopt_def plain_jstr jint_def split: option.splits)+

lemma plain_escape:
  assumes "0x20 \<le> (of_char c :: nat)" "c \<noteq> CHR 0x22" "c \<noteq> CHR 0x5C"
  shows "escapeByte c = [c]"
proof -
  have "c \<noteq> CHR 0x08" "c \<noteq> CHR 0x0C" "c \<noteq> CHR 0x0A" "c \<noteq> CHR 0x0D" "c \<noteq> CHR 0x09" using assms(1) by auto
  then show ?thesis using assms unfolding escapeByte_def by (simp only: if_False) simp
qed

lemma plain_string: "plain s \<Longrightarrow> CHR 0x5C \<notin> set (writeCanonicalString s)"
proof -
  assume "plain s"
  then have "concat (map escapeByte s) = s \<and> CHR 0x5C \<notin> set s"
    unfolding plain_def by (induction s) (auto simp: plain_escape)
  then show ?thesis by (simp add: writeCanonicalString_def)
qed

lemma itoa_no_backslash: "CHR 0x5C \<notin> set (itoa n)"
proof -
  have "CHR 0x5C \<notin> set (natDigits m)" for m
    using natDigits_isDigit [of m] by (auto simp: list_all_iff isDigit_def dest: bspec [where x = "CHR 0x5C"])
  then show ?thesis by (auto simp: itoa_def)
qed

lemma format_no_backslash: "CHR 0x5C \<notin> set (FormatNumberES6 f)"
proof -
  obtain d p where dp: "shortestDecimal f = (d, p)" by (cases "shortestDecimal f")
  have "CHR 0x5C \<notin> set (take n (itoa d))" "CHR 0x5C \<notin> set (drop n (itoa d))" for n
    using itoa_no_backslash [of d] by (auto dest: in_set_takeD in_set_dropD)
  then show ?thesis using itoa_no_backslash by (simp add: FormatNumberES6_def dp Let_def)
qed

lemma write_no_backslash: "plainJson v \<Longrightarrow> CHR 0x5C \<notin> set (writeCanonical v)"
proof (induction v)
  case (JArray vs)
  then show ?case using set_joinWith [of "'',''" "map writeCanonical vs"] by (fastforce simp: list_all_iff)
next
  case (JObject ms)
  have "CHR 0x5C \<notin> set (writeMember (k, writeCanonical v))" if "(k, v) \<in> set ms" for k v
  proof -
    have "plain k" "plainJson v" using JObject.prems that by (auto simp: list_all_iff)
    then show ?thesis using JObject.IH [OF that, of v] plain_string [of k] by (simp add: writeMember_def)
  qed
  then show ?case
    using set_joinWith [of "'',''" "map (\<lambda>(k, v). writeMember (k, writeCanonical v)) (sort_key (utf16 \<circ> fst) ms)"]
    unfolding write_object by fastforce
qed (simp_all add: format_no_backslash plain_string)

lemma plain_storable: "plainJson v \<Longrightarrow> checkStorable (writeCanonical v)"
  using write_no_backslash [of v] by (auto simp: checkStorable_def strContains_iff)

end
