(* ===== verification/BundleProps.thy ===== *)
theory BundleProps
  imports Bundle Storable
begin

section \<open>What the trust of a bundle means\<close>

text \<open>
  The trust of a bundle read as conditions on its input: which sources are reliable, whether the
  activity of the removed services was read and whether everything about them was analysed.
\<close>

subsection \<open>What trust means\<close>

definition sourceReliable :: "gotime \<Rightarrow> trustRules \<Rightarrow> bundleSourceInput \<Rightarrow> bool" where
  "sourceReliable builtAt rules si \<longleftrightarrow> si_Kind si = SourceAWSPublication \<and> si_Authenticated si \<and> si_Ordered si \<and>
    sourceAge si builtAt \<le> tr_MaxSourceAge rules"

definition activityRead :: "bundleInput \<Rightarrow> bool" where
  "activityRead bi \<longleftrightarrow> (\<forall>svc \<in> set (bi_RemovedServices bi).
    \<exists>a \<in> set (bi_Activity bi). ba_Service a = svc \<and> ba_State a = EvidenceCollected)"

definition fullyAnalysed :: "bundleInput \<Rightarrow> bool" where
  "fullyAnalysed bi \<longleftrightarrow> bi_ConsumersUnresolved bi = 0 \<and>
    (\<forall>ra \<in> set (bi_RouteAnalyses bi). ra_Service ra \<in> set (bi_RemovedServices bi) \<longrightarrow>
      (\<forall>r \<in> set (ra_Routes ra). rt_Effect r \<noteq> RouteEffectNotAnalysed))"

lemma trust_distinct [simp]:
  "TrustTrusted \<noteq> TrustPartial" "TrustTrusted \<noteq> TrustUntrusted" "TrustPartial \<noteq> TrustUntrusted"
  "TrustPartial \<noteq> TrustTrusted" "TrustUntrusted \<noteq> TrustTrusted" "TrustUntrusted \<noteq> TrustPartial"
  by (simp_all add: go_consts)

lemma sourceUntrusted_Nil: "sourceUntrusted si t rules = [] \<longleftrightarrow> sourceReliable t rules si"
  by (auto simp: sourceUntrusted_def sourceReliable_def)

lemma sourcePartial_Nil: "sourcePartial si = [] \<longleftrightarrow> si_ResourcePolicyCoverage si = CoverageComplete"
  by (auto simp: sourcePartial_def sourceCoverage_def go_consts)

lemma sourceTrust_trust:
  "bs_Trust (sourceTrust si t rules) = TrustUntrusted \<longleftrightarrow> \<not> sourceReliable t rules si"
  "bs_Trust (sourceTrust si t rules) = TrustPartial \<longleftrightarrow>
    sourceReliable t rules si \<and> si_ResourcePolicyCoverage si \<noteq> CoverageComplete"
  "bs_Trust (sourceTrust si t rules) = TrustTrusted \<longleftrightarrow>
    sourceReliable t rules si \<and> si_ResourcePolicyCoverage si = CoverageComplete"
  by (simp_all add: sourceTrust_def Let_def sourceUntrusted_Nil sourcePartial_Nil)

lemma sort_Nil_iff: "sort xs = [] \<longleftrightarrow> xs = []"
  by (metis set_sort set_empty)

lemma sourceTrust_reasons: "bs_TrustReasons (sourceTrust si t rules) = [] \<longleftrightarrow> bs_Trust (sourceTrust si t rules) = TrustTrusted"
  by (simp add: sourceTrust_def Let_def sort_Nil_iff)

lemma repeatedService_None:
  "sorted (map ba_Service as) \<Longrightarrow> repeatedService as = None \<longleftrightarrow> distinct (map ba_Service as)"
proof (induction as rule: repeatedService.induct)
  case (1 a b as)
  have "ba_Service a < ba_Service c" if "ba_Service a \<noteq> ba_Service b" "c \<in> set (b # as)" for c
    using 1(2) that by fastforce
  then show ?case using 1 by (auto dest: less_imp_neq)
qed auto

lemma map_of_rev_key:
  assumes "distinct (map key xs)"
  shows "map_of (rev (map (\<lambda>x. (key x, x)) xs)) k = Some x \<longleftrightarrow> x \<in> set xs \<and> key x = k"
proof -
  have "distinct (map fst (rev (map (\<lambda>x. (key x, x)) xs)))" using assms by (simp add: rev_map [symmetric] comp_def)
  then show ?thesis by (auto simp: map_of_eq_Some_iff)
qed

lemma bundleFactsOf_sel:
  "bf_Sources (bundleFactsOf bi rules) =
    sort_key sourceKey (map (\<lambda>s. sourceTrust s (bi_BuiltAt bi) rules) (bi_Sources bi))"
  "bf_Activity (bundleFactsOf bi rules) = sort_key ba_Service (bi_Activity bi)"
  "bf_RemovedServices (bundleFactsOf bi rules) = sortedUnique (bi_RemovedServices bi)"
  "bf_Gaps (bundleFactsOf bi rules) = bundleGaps bi"
  by (simp_all only: bundleFactsOf_def bundleFacts.select_convs)

lemma activity_lookup:
  assumes "distinct (map ba_Service as)"
  shows "(case map_of (rev (map (\<lambda>a. (ba_Service a, a)) as)) svc of
      None \<Rightarrow> True | Some a \<Rightarrow> ba_State a \<noteq> EvidenceCollected) \<longleftrightarrow>
    \<not> (\<exists>a \<in> set as. ba_Service a = svc \<and> ba_State a = EvidenceCollected)"
proof (cases "map_of (rev (map (\<lambda>a. (ba_Service a, a)) as)) svc")
  case None
  then have "a \<notin> set as \<or> ba_Service a \<noteq> svc" for a using map_of_rev_key [OF assms, of svc a] by auto
  then show ?thesis using None by auto
next
  case (Some a)
  then have u: "x \<in> set as \<and> ba_Service x = svc \<longleftrightarrow> x = a" for x using map_of_rev_key [OF assms, of svc x] by auto
  show ?thesis unfolding Some option.case using u by metis
qed

lemma concat_map_Nil: "concat (map f xs) = [] \<longleftrightarrow> (\<forall>x \<in> set xs. f x = [])"
  by auto

lemma unreliable_source:
  "(if bs_Trust s = TrustUntrusted
    then (if bs_TrustReasons s = [] then [x] else sourceReasons s) else []) = [] \<longleftrightarrow> bs_Trust s \<noteq> TrustUntrusted"
  by (simp add: sourceReasons_def)

lemma untrusted_iff:
  assumes "repeatedService (bf_Activity (bundleFactsOf bi rules)) = None"
  shows "untrustedReasons (bundleFactsOf bi rules) = [] \<longleftrightarrow>
    (\<forall>si \<in> set (bi_Sources bi). sourceReliable (bi_BuiltAt bi) rules si) \<and> activityRead bi"
proof -
  let ?as = "sort_key ba_Service (bi_Activity bi)"
  have d: "distinct (map ba_Service ?as)"
    using assms repeatedService_None [OF sorted_sort_key] unfolding bundleFactsOf_sel by blast
  have "map (\<lambda>svc. ''activity_not_collected:'' @ svc) (filter (\<lambda>svc. case map_of (rev (map (\<lambda>a. (ba_Service a, a)) ?as)) svc of
      None \<Rightarrow> True | Some a \<Rightarrow> ba_State a \<noteq> EvidenceCollected) (sortedUnique (bi_RemovedServices bi))) = [] \<longleftrightarrow> activityRead bi"
    unfolding activity_lookup [OF d] activityRead_def by (simp add: filter_empty_conv)
  then show ?thesis
    unfolding untrustedReasons_def bundleFactsOf_sel append_is_Nil_conv concat_map_Nil unreliable_source
    by (simp add: sourceTrust_trust)
qed

lemma bundleGaps_Nil: "bundleGaps bi = [] \<longleftrightarrow> fullyAnalysed bi \<or> bi_ConsumersUnresolved bi < 0 \<and>
    (\<forall>ra \<in> set (bi_RouteAnalyses bi). ra_Service ra \<in> set (bi_RemovedServices bi) \<longrightarrow>
      (\<forall>r \<in> set (ra_Routes ra). rt_Effect r \<noteq> RouteEffectNotAnalysed))"
proof -
  let ?m = "map (\<lambda>g. (ga_Key g, g)) (allGaps bi)"
  have "bundleGaps bi = [] \<longleftrightarrow> (\<forall>k \<in> fst ` set ?m. map_of (rev ?m) k = None)"
    unfolding bundleGaps_def Let_def sortedKeys_def by (simp add: map_filter_def filter_empty_conv)
  also have "\<dots> \<longleftrightarrow> allGaps bi = []" unfolding map_of_eq_None_iff by (cases "allGaps bi") auto
  finally show ?thesis unfolding allGaps_def removedRoutes_def fullyAnalysed_def
    by (auto simp: filter_empty_conv split: if_splits)
qed

lemma partial_source:
  assumes "sourceReliable t rules si"
  shows "(if bs_Trust (sourceTrust si t rules) = TrustPartial then sourceReasons (sourceTrust si t rules) else []) = [] \<longleftrightarrow>
    si_ResourcePolicyCoverage si = CoverageComplete"
  using assms by (simp add: sourceTrust_trust sourceReasons_def sourceTrust_reasons)

lemma partial_iff:
  assumes "\<forall>si \<in> set (bi_Sources bi). sourceReliable (bi_BuiltAt bi) rules si" "0 \<le> bi_ConsumersUnresolved bi"
  shows "partialReasons (bundleFactsOf bi rules) = [] \<longleftrightarrow>
    (\<forall>si \<in> set (bi_Sources bi). si_ResourcePolicyCoverage si = CoverageComplete) \<and> fullyAnalysed bi"
proof -
  have "map (\<lambda>g. ''gap '' @ ga_Key g) (bundleGaps bi) = [] \<longleftrightarrow> fullyAnalysed bi"
    using bundleGaps_Nil [of bi] assms(2) by auto
  then show ?thesis using assms(1)
    unfolding partialReasons_def bundleFactsOf_sel append_is_Nil_conv concat_map_Nil set_sort set_map
    by (simp add: partial_source cong: ball_cong if_weak_cong)
qed

definition bundleFrom :: "bundleFacts \<Rightarrow> bundleError + evidenceBundle" where
  "bundleFrom f =
    (case repeatedService (bf_Activity f) of
       Some s \<Rightarrow> Inl (ActivityTwice s)
     | None \<Rightarrow>
         (case CanonicalizeValue (bundleJSON f) of
            Inl e \<Rightarrow> Inl (BundleNotCanonical e)
          | Inr canon \<Rightarrow>
              if \<not> checkStorable canon then Inl BundleNotStorable
              else bindR (gapRefsOf (bf_Gaps f)) (\<lambda>refs.
                Inr \<lparr>bu_Facts = f, bu_Canonical = canon, bu_Hash = ContentHash canon,
                     bu_Trust = fst (ClassifyBundleTrust f), bu_TrustReasons = snd (ClassifyBundleTrust f),
                     bu_GapRefs = refs\<rparr>)))"

lemma bundleFrom_ok:
  assumes "bundleFrom f = Inr b"
  shows "bu_Facts b = f" "repeatedService (bf_Activity f) = None"
    "bu_Trust b = fst (ClassifyBundleTrust f)" "bu_TrustReasons b = snd (ClassifyBundleTrust f)"
    "bu_Hash b = ContentHash (bu_Canonical b)"
    "CanonicalizeValue (bundleJSON f) = Inr (bu_Canonical b)" "gapRefsOf (bf_Gaps f) = Inr (bu_GapRefs b)"
  using assms unfolding bundleFrom_def by (auto split: if_splits option.splits sum.splits simp: bindR_Inr_iff)

lemma BuildBundle_ok:
  assumes "BuildBundle bi rules = Inr b"
  shows "bundleFrom (bundleFactsOf bi rules) = Inr b" "0 \<le> bi_ConsumersUnresolved bi"
  using assms unfolding BuildBundle_def Let_def bundleFrom_def [symmetric] by (simp_all split: if_splits)

lemma classify_trust:
  "fst (ClassifyBundleTrust f) = TrustUntrusted \<longleftrightarrow> untrustedReasons f \<noteq> []"
  "fst (ClassifyBundleTrust f) = TrustTrusted \<longleftrightarrow> untrustedReasons f = [] \<and> partialReasons f = []"
  by (auto simp: ClassifyBundleTrust_def Let_def)

text \<open>
  C38. A bundle is untrusted exactly when a source is not a fresh, authenticated and ordered AWS
  publication or the activity of a removed service was not read. It is trusted exactly when, beyond
  that, every source covers its resource policies completely, every route of a removed service was
  analysed and every consumer is resolved.
\<close>

theorem bundle_trust_exact:
  assumes "BuildBundle bi rules = Inr b"
  shows "(bu_Trust b \<noteq> TrustUntrusted \<longleftrightarrow>
      (\<forall>si \<in> set (bi_Sources bi). sourceReliable (bi_BuiltAt bi) rules si) \<and> activityRead bi) \<and>
    (bu_Trust b = TrustTrusted \<longleftrightarrow>
      (\<forall>si \<in> set (bi_Sources bi). sourceReliable (bi_BuiltAt bi) rules si \<and> si_ResourcePolicyCoverage si = CoverageComplete) \<and>
      activityRead bi \<and> fullyAnalysed bi)"
proof -
  note ok = BuildBundle_ok [OF assms]
  note facts = bundleFrom_ok [OF ok(1)]
  show ?thesis unfolding facts(3) classify_trust untrusted_iff [OF facts(2)]
    using partial_iff [OF _ ok(2), of rules] by auto
qed

definition exampleBundle :: bundleInput where
  "exampleBundle = \<lparr>bi_BuiltAt = day 2026 11 1, bi_Sources = [\<lparr>si_Kind = SourceAWSPublication, si_Rev = 7,
      si_PublishedAt = day 2026 11 1, si_ConnectorID = ''c'', si_ConnectorRun = ''r'', si_Authenticated = True,
      si_Ordered = True, si_ActivityReportGeneratedAt = None, si_ResourcePolicyCoverage = CoverageComplete,
      si_ResourcePolicyRun = ''r''\<rparr>],
    bi_Target = \<lparr>bt_AccountID = ''123456789012'', bt_RoleID = ''AROA'', bt_RoleARN = ''arn'', bt_EstateScope = []\<rparr>,
    bi_RemovedServices = [], bi_Grants = [], bi_Consumers = [], bi_ConsumersUnresolved = 0, bi_Owners = [],
    bi_Activity = [], bi_RouteAnalyses = []\<rparr>"

lemma shallow_gap: "shallow (Suc n) (gapJSON g)"
  unfolding gapJSON_def append_Cons append_Nil
proof (rule shallow_members)
  show "namesWithin [''kind'', ''key'', ''service'', ''form'', ''region'', ''resource'', ''reason'', ''count'']
      ((''kind'', jstr (ga_Kind g)) # (''key'', jstr (ga_Key g)) # omitempty ''service'' (ga_Service g) @
       omitempty ''form'' (ga_Form g) @ omitempty ''region'' (ga_Region g) @ omitempty ''resource'' (ga_Resource g) @
       omitempty ''reason'' (ga_Reason g) @ (if ga_Count g = 0 then [] else [(''count'', jint (ga_Count g))]))"
    by (intro names_intros)
qed (auto dest: shallow_omitempty)

lemma shallow_bundle_parts:
  "shallow (Suc (Suc n)) (sourceJSON s)" "shallow (Suc n) (targetJSON t)" "shallow (Suc (Suc n)) (grantJSON g)"
  "shallow (Suc n) (activityJSON a)"
  by (simp_all add: sourceJSON_def targetJSON_def grantJSON_def activityJSON_def shallow_object shallow_array)

lemma shallow_bundle: "shallow (Suc (Suc (Suc (Suc n)))) (bundleJSON f)"
  by (simp add: bundleJSON_def shallow_object shallow_array shallow_bundle_parts shallow_structs shallow_route shallow_gap)

text \<open>The canonical text of a bundle always exists.\<close>

lemma bundle_canonical: "CanonicalizeValue (bundleJSON f) = Inr (writeCanonical (bundleJSON f))"
  by (rule shallow_canonical [OF shallow_bundle [of 0]]) (simp add: maxJSONDepth_def)

lemma plain_nil: "plain []"
  by (simp add: plain_def)

lemma plain_literals:
  "plain (c # s) \<longleftrightarrow> (0x20 \<le> (of_char c :: nat) \<and> (of_char c :: nat) < 0x80 \<and> c \<noteq> CHR 0x22 \<and> c \<noteq> CHR 0x5C) \<and> plain s"
  by (simp add: plain_def)

lemma exampleBundle_facts:
  "bundleFactsOf exampleBundle DefaultTrustRules =
    \<lparr>bf_Format = ''igagov.bundle/1'', bf_Catalog = CatalogLabel, bf_BuiltAt = ''2026-11-01T00:00:00Z'',
     bf_Sources = [\<lparr>bs_Kind = ''aws_publication'', bs_Rev = 7, bs_PublishedAt = Some ''2026-11-01T00:00:00Z'', bs_ConnectorID = ''c'',
       bs_ConnectorRun = ''r'', bs_Authenticated = True, bs_Ordered = True, bs_Trust = ''trusted'', bs_TrustReasons = [],
       bs_FreshnessHours = 0, bs_ActivityReportGeneratedAt = None, bs_ResourcePolicyCoverage = ''complete'',
       bs_ResourcePolicyRun = Some ''r''\<rparr>],
     bf_Target = \<lparr>bt_AccountID = ''123456789012'', bt_RoleID = ''AROA'', bt_RoleARN = ''arn'',
       bt_EstateScope = ''aws:account:123456789012''\<rparr>,
     bf_RemovedServices = [], bf_Grants = [], bf_Consumers = [], bf_ConsumersUnresolved = 0, bf_Owners = [],
     bf_Activity = [], bf_Routes = [], bf_Gaps = []\<rparr>"
  by code_simp

lemma exampleBundle_input:
  "bi_Sources exampleBundle \<noteq> []" "bi_BuiltAt exampleBundle \<noteq> zeroTime" "reAccount (bt_AccountID (bi_Target exampleBundle))"
  "bt_RoleID (bi_Target exampleBundle) \<noteq> []" "bt_RoleARN (bi_Target exampleBundle) \<noteq> []"
  "\<not> bi_ConsumersUnresolved exampleBundle < 0"
  by code_simp+

lemma exampleBundle_plain: "plainJson (bundleJSON (bundleFactsOf exampleBundle DefaultTrustRules))"
proof -
  have "plain CatalogLabel" by code_simp
  then show ?thesis unfolding exampleBundle_facts bundleJSON_def sourceJSON_def targetJSON_def
    by (simp add: plain_nil plain_literals plain_jstr plain_leaf)
qed

lemma exampleBundle_built: "\<exists>b. BuildBundle exampleBundle DefaultTrustRules = Inr b"
proof -
  let ?f = "bundleFactsOf exampleBundle DefaultTrustRules"
  have "repeatedService (bf_Activity ?f) = None" "bf_Gaps ?f = []" by (simp_all add: exampleBundle_facts)
  then show ?thesis
    using exampleBundle_input plain_storable [OF exampleBundle_plain] unfolding BuildBundle_def Let_def
    by (simp add: bundle_canonical)
qed

theorem bundle_trust_exact_witness:
  "\<exists>b. BuildBundle exampleBundle DefaultTrustRules = Inr b \<and> bu_Trust b = TrustTrusted"
proof -
  obtain b where b: "BuildBundle exampleBundle DefaultTrustRules = Inr b" using exampleBundle_built by blast
  have "list_all (\<lambda>si. sourceReliable (bi_BuiltAt exampleBundle) DefaultTrustRules si \<and>
      si_ResourcePolicyCoverage si = CoverageComplete) (bi_Sources exampleBundle) \<and>
      activityRead exampleBundle \<and> fullyAnalysed exampleBundle" by code_simp
  then show ?thesis using bundle_trust_exact [OF b] b by (simp add: list_all_iff)
qed

end
