(* ===== verification/Boundary.thy ===== *)
theory Boundary
  imports Plan Storable
begin

section \<open>Boundary documents (internal/igagov/compile.go)\<close>

text \<open>
  The exclusion-only boundary AuthSec writes, what a boundary excludes, and the narrowing of a
  customer's boundary with the check that the result is a subset. A document under construction
  is its JSON tree; a raw message is the tree it parses to.
\<close>

definition RefuseNotNarrowable :: string where [go_consts]: "RefuseNotNarrowable = ''customer_boundary_not_narrowable''"
definition RefuseNarrowedEmpty :: string where [go_consts]: "RefuseNarrowedEmpty = ''customer_boundary_would_be_empty''"

subsection \<open>Size\<close>

definition isSpaceRune :: "nat \<Rightarrow> bool" where
  "isSpaceRune r \<longleftrightarrow> (9 \<le> r \<and> r \<le> 13) \<or> r \<in> {0x20, 0x85, 0xA0, 0x1680, 0x2028, 0x2029, 0x202F, 0x205F, 0x3000} \<or>
    (0x2000 \<le> r \<and> r \<le> 0x200A)"

definition PolicyChars :: "string \<Rightarrow> int" where
  "PolicyChars text' = int (length (filter (\<lambda>r. \<not> isSpaceRune r) (runes text')))"

subsection \<open>The exclusion-only boundary\<close>

fun exclusionActions :: "string list \<Rightarrow> compileError + string list" where
  "exclusionActions [] = Inr []"
| "exclusionActions (s # ss) =
    (let ns = toLower (trimSpace s) in
     if \<not> reService ns then Inl (NotANamespace s)
     else bindR (exclusionActions ss) (\<lambda>as. Inr ((ns @ '':*'') # as)))"

definition exclusionJSON :: "string list \<Rightarrow> json" where
  "exclusionJSON actions = JObject
    [(''Version'', jstr PolicyVersion20121017),
     (''Statement'', JArray [JObject
       [(''Sid'', jstr AuthSecBoundarySid), (''Effect'', jstr EffectAllow),
        (''NotAction'', JArray (map jstr (sortedUnique actions))), (''Resource'', jstr ''*'')]])]"

definition ExcludeOnlyDocument :: "string list \<Rightarrow> compileError + (string \<times> string)" where
  "ExcludeOnlyDocument remove =
    (if remove = [] then Inl NoNamespace
     else bindR (exclusionActions remove) (\<lambda>actions.
          bindR (hashed (canonical (exclusionJSON actions))) (\<lambda>c. Inr (c, ContentHash c))))"

subsection \<open>What a boundary excludes\<close>

definition BoundaryExcludes :: "policyDocument \<Rightarrow> string \<Rightarrow> bool" where
  "BoundaryExcludes doc ns = list_all (\<lambda>st. \<not> GrantsNamespace st ns) (pd_Statements doc)"

definition decodeOptional :: "string option \<Rightarrow> compileError + policyDocument option" where
  "decodeOptional t =
    (case t of
       None \<Rightarrow> Inr None
     | Some text' \<Rightarrow> bindR (decoded (DecodePolicyDocument text')) (\<lambda>d. Inr (Some d)))"

definition excludedBy :: "policyDocument option \<Rightarrow> string \<Rightarrow> bool" where
  "excludedBy d ns = (case d of None \<Rightarrow> False | Some doc \<Rightarrow> BoundaryExcludes doc ns)"

definition ExclusionChanges ::
  "string option \<Rightarrow> string option \<Rightarrow> string list \<Rightarrow> compileError + (string list \<times> string list \<times> string list)" where
  "ExclusionChanges beforeText afterText candidates =
    bindR (decodeOptional beforeText) (\<lambda>b.
    bindR (decodeOptional afterText) (\<lambda>a.
      let nss = sortedUnique candidates in
      Inr (filter (\<lambda>ns. \<not> excludedBy b ns \<and> excludedBy a ns) nss,
           filter (\<lambda>ns. excludedBy b ns \<and> excludedBy a ns) nss,
           filter (\<lambda>ns. excludedBy b ns \<and> \<not> excludedBy a ns) nss)))"

definition literalNamespace :: "string \<Rightarrow> string option" where
  "literalNamespace p =
    (case SplitAction p of
       None \<Rightarrow> None
     | Some (ns, act) \<Rightarrow> if containsWild ns then None else Some (toLower ns))"

definition notActionNamespaces :: "string option \<Rightarrow> string list" where
  "notActionNamespaces text' =
    (case text' of
       None \<Rightarrow> []
     | Some t \<Rightarrow>
         (case DecodePolicyDocument t of
            Inl e \<Rightarrow> []
          | Inr d \<Rightarrow>
              concat (map (\<lambda>st. if st_Effect st \<noteq> EffectAllow \<or> \<not> st_IsNotAction st then []
                               else List.map_filter literalNamespace (st_NotAction st)) (pd_Statements d))))"

subsection \<open>Narrowing a customer's boundary\<close>

definition namespaceWildcard :: "string \<Rightarrow> bool" where
  "namespaceWildcard action =
    (case SplitAction action of None \<Rightarrow> True | Some (ns, act) \<Rightarrow> containsWild ns)"

text \<open>The format verb for a quoted string, on ASCII.\<close>

definition quotedByte :: "char \<Rightarrow> string" where
  "quotedByte c =
    (if c = CHR 0x22 then [CHR 0x5C, CHR 0x22]
     else if c = CHR 0x5C then [CHR 0x5C, CHR 0x5C]
     else if c = CHR 0x07 then [CHR 0x5C, CHR ''a'']
     else if c = CHR 0x08 then [CHR 0x5C, CHR ''b'']
     else if c = CHR 0x0C then [CHR 0x5C, CHR ''f'']
     else if c = CHR 0x0A then [CHR 0x5C, CHR ''n'']
     else if c = CHR 0x0D then [CHR 0x5C, CHR ''r'']
     else if c = CHR 0x09 then [CHR 0x5C, CHR ''t'']
     else if c = CHR 0x0B then [CHR 0x5C, CHR ''v'']
     else if (of_char c :: nat) < 0x20 \<or> c = CHR 0x7F then
       [CHR 0x5C, CHR ''x'', hexdigit (of_char c div 16), hexdigit (of_char c mod 16)]
     else [c])"

definition quoted :: "string \<Rightarrow> string" where
  "quoted s = CHR 0x22 # concat (map quotedByte s) @ [CHR 0x22]"

definition statementLabel :: "nat \<Rightarrow> statement \<Rightarrow> string" where
  "statementLabel i st = ''statement '' @ itoa (int i) @ '' ('' @ st_Sid st @ '') uses ''"

fun notNarrowable :: "nat \<Rightarrow> statement list \<Rightarrow> refusal option" where
  "notNarrowable i [] = None"
| "notNarrowable i (st # sts) =
    (if st_Effect st \<noteq> EffectAllow then notNarrowable (i + 1) sts
     else if st_IsNotAction st then Some (Refusal RefuseNotNarrowable (statementLabel i st @ ''NotAction''))
     else (case find namespaceWildcard (st_Action st) of
             Some a \<Rightarrow> Some (Refusal RefuseNotNarrowable (statementLabel i st @ quoted a))
           | None \<Rightarrow> notNarrowable (i + 1) sts))"

definition setMember :: "string \<Rightarrow> json \<Rightarrow> (string \<times> json) list \<Rightarrow> (string \<times> json) list" where
  "setMember k v ms = filter (\<lambda>m. fst m \<noteq> k) ms @ [(k, v)]"

text \<open>A raw message read as a map of members. Only objects are read this way.\<close>

definition rawMembers :: "string \<Rightarrow> (string \<times> json) list option" where
  "rawMembers raw =
    (case parseJSON raw of
       Inl e \<Rightarrow> None
     | Inr v \<Rightarrow> (case v of JObject ms \<Rightarrow> Some ms | _ \<Rightarrow> None))"

definition removesAction :: "string list \<Rightarrow> string \<Rightarrow> bool" where
  "removesAction remove a =
    (case SplitAction a of None \<Rightarrow> [] \<in> set (map toLower remove) | Some (ns, act) \<Rightarrow> toLower ns \<in> set (map toLower remove))"

text \<open>One statement: its record, and the message kept of it unless it is deleted.\<close>

definition narrowStatement ::
  "string list \<Rightarrow> nat \<Rightarrow> statement \<Rightarrow> compileError + (narrowedStatement \<times> json option)" where
  "narrowStatement remove i st =
    (let removed = filter (removesAction remove) (st_Action st);
         remaining = filter (\<lambda>a. \<not> removesAction remove a) (st_Action st);
         rec' = \<lparr>ns_Index = int i, ns_Sid = st_Sid st, ns_Effect = st_Effect st, ns_Result = NarrowKept, ns_RemovedActions = []\<rparr>
     in (case rawMembers (st_Raw st) of
           None \<Rightarrow> Inl (DecodeFailed DocumentNotObject)
         | Some ms \<Rightarrow>
             if st_Effect st \<noteq> EffectAllow \<or> removed = [] then Inr (rec', Some (JObject ms))
             else if remaining = []
             then Inr (rec'\<lparr>ns_Result := NarrowDeleted, ns_RemovedActions := removed\<rparr>, None)
             else Inr (rec'\<lparr>ns_Result := NarrowNarrowed, ns_RemovedActions := removed\<rparr>,
                       Some (JObject (setMember ''Action'' (JArray (map jstr remaining)) ms)))))"

fun narrowStatements ::
  "string list \<Rightarrow> nat \<Rightarrow> statement list \<Rightarrow> compileError + (narrowedStatement list \<times> json list)" where
  "narrowStatements remove i [] = Inr ([], [])"
| "narrowStatements remove i (st # sts) =
    bindR (narrowStatement remove i st) (\<lambda>(r, kept).
    bindR (narrowStatements remove (i + 1) sts) (\<lambda>(rs, ks). Inr (r # rs, (case kept of None \<Rightarrow> ks | Some k \<Rightarrow> k # ks))))"

definition withoutAction :: "string \<Rightarrow> string" where
  "withoutAction raw =
    (case parseJSON raw of
       Inr (JObject ms) \<Rightarrow>
         (case CanonicalizeValue (JObject (filter (\<lambda>m. fst m \<noteq> ''Action'') ms)) of
            Inl e \<Rightarrow> CHR 0x00 # ''invalid''
          | Inr c \<Rightarrow> c)
     | Inr JNull \<Rightarrow> ''null''
     | _ \<Rightarrow> CHR 0x00 # ''invalid'')"

fun orderedSubset :: "string list \<Rightarrow> string list \<Rightarrow> bool" where
  "orderedSubset [] os = True"
| "orderedSubset (a # as) [] = False"
| "orderedSubset (a # as) (b # os) = (if b = a then orderedSubset as os else orderedSubset (a # as) os)"

fun subsetRecords :: "statement list \<Rightarrow> narrowedStatement list \<Rightarrow> statement list \<Rightarrow> bool" where
  "subsetRecords os [] got = (got = [])"
| "subsetRecords [] (r # rs) got = False"
| "subsetRecords (o' # os) (r # rs) got =
    (if ns_Result r = NarrowDeleted then subsetRecords os rs got
     else (case got of
             [] \<Rightarrow> False
           | g # gs \<Rightarrow>
               withoutAction (st_Raw o') = withoutAction (st_Raw g) \<and> st_IsNotAction o' = st_IsNotAction g \<and>
               orderedSubset (st_Action g) (st_Action o') \<and>
               \<not> (ns_Result r = NarrowKept \<and> length (st_Action g) \<noteq> length (st_Action o')) \<and>
               subsetRecords os rs gs))"

definition subsetProof :: "policyDocument \<Rightarrow> string \<Rightarrow> narrowing \<Rightarrow> bool" where
  "subsetProof orig narrowed n =
    (case DecodePolicyDocument narrowed of
       Inl e \<Rightarrow> False
     | Inr got \<Rightarrow> subsetRecords (pd_Statements orig) (nw_Statements n) (pd_Statements got))"

datatype narrowResult = NarrowRefused refusal | NarrowedTo string string narrowing

definition narrowedDocument :: "(string \<times> json) list \<Rightarrow> json list \<Rightarrow> json" where
  "narrowedDocument members kept =
    (let wasObject = (case map_of members ''Statement'' of Some (JObject ms) \<Rightarrow> True | _ \<Rightarrow> False) in
     JObject (setMember ''Statement''
       (case kept of [k] \<Rightarrow> if wasObject then k else JArray kept | _ \<Rightarrow> JArray kept) members))"

definition NarrowCustomerBoundary :: "string \<Rightarrow> string list \<Rightarrow> compileError + narrowResult" where
  "NarrowCustomerBoundary text' remove =
    bindR (decoded (DecodePolicyDocument text')) (\<lambda>doc.
      (case notNarrowable 0 (pd_Statements doc) of
         Some r \<Rightarrow> Inr (NarrowRefused r)
       | None \<Rightarrow>
           bindR (decoded (DecodePolicyText text')) (\<lambda>raw.
             (case rawMembers raw of
                None \<Rightarrow> Inl (DecodeFailed DocumentNotObject)
              | Some members \<Rightarrow>
                  bindR (narrowStatements remove 0 (pd_Statements doc)) (\<lambda>(recs, kept).
                    if kept = [] then Inr (NarrowRefused (Refusal RefuseNarrowedEmpty ''every statement of the boundary would be deleted''))
                    else bindR (hashed (canonical (narrowedDocument members kept))) (\<lambda>c.
                      if \<not> checkStorable c then Inl (HashFailed NotStorable)
                      else
                        let n = \<lparr>nw_Statements = recs, nw_Changed = (\<exists>r \<in> set recs. ns_Result r \<noteq> NarrowKept), nw_SubsetProof = False\<rparr>
                        in if subsetProof doc c n then Inr (NarrowedTo c (ContentHash c) (n\<lparr>nw_SubsetProof := True\<rparr>))
                           else Inl NotSubset))))))"

end
