(* ===== verification/BoundaryProps.thy ===== *)
theory BoundaryProps
  imports Boundary
begin

section \<open>What the boundary documents exclude\<close>

text \<open>
  The documents AuthSec writes are read back by its own decoder: the exclusion-only boundary
  excludes exactly the namespaces asked for, and a narrowed customer boundary excludes exactly what
  the original excluded and the removed namespaces.
\<close>

subsection \<open>The members of a decoded statement\<close>

lemma if_condE: "(if b then x else y) = z \<Longrightarrow> (b \<Longrightarrow> x = z \<Longrightarrow> Q) \<Longrightarrow> (\<not> b \<Longrightarrow> y = z \<Longrightarrow> Q) \<Longrightarrow> Q"
  by (simp split: if_splits)

definition memberEffect :: "statementState \<Rightarrow> string \<Rightarrow> json \<Rightarrow> statementState \<Rightarrow> bool" where
  "memberEffect s k v s' \<longleftrightarrow> (case (s, s') of ((st, a, n), (st', a', n')) \<Rightarrow>
    (if k = ''Effect'' then v = JString (st_Effect st') else st_Effect st' = st_Effect st) \<and>
    (if k = ''Action'' then a' \<and> stringOrArray v k = Inr (st_Action st') else a' = a \<and> st_Action st' = st_Action st) \<and>
    (if k = ''NotAction'' then n' \<and> stringOrArray v k = Inr (st_NotAction st') else n' = n \<and> st_NotAction st' = st_NotAction st))"

lemma statementMember_effect:
  assumes "statementMember s (k, v) = Inr s'"
  shows "memberEffect s k v s'"
proof -
  obtain st a n where s: "s = (st, a, n)" by (metis prod_cases3)
  note step = assms [unfolded s statementMember_def Let_def prod.case]
  have sid: "memberEffect s k v s'" if "k = ''Sid''" "(case v of JString t \<Rightarrow> Inr (st\<lparr>st_Sid := t\<rparr>, a, n) | _ \<Rightarrow> Inl SidNotString) = Inr s'"
    using that by (cases v) (auto simp: memberEffect_def s)
  have eff: "memberEffect s k v s'" if "k = ''Effect''" "(case v of JString t \<Rightarrow> if t \<noteq> EffectAllow \<and> t \<noteq> EffectDeny then Inl BadEffect
      else Inr (st\<lparr>st_Effect := t\<rparr>, a, n) | _ \<Rightarrow> Inl BadEffect) = Inr s'"
    using that by (cases v) (auto simp: memberEffect_def s split: if_splits)
  have fin: "memberEffect s k v s'" if "Inr t = Inr s'" "memberEffect s k v t" for t using that by simp
  show ?thesis
    by (insert step, elim if_condE bindR_resE; (erule (1) sid | erule (1) eff | erule fin))
      (simp_all add: memberEffect_def s)
qed

definition membersEffect :: "statementState \<Rightarrow> (string \<times> json) list \<Rightarrow> statementState \<Rightarrow> bool" where
  "membersEffect s ms s' \<longleftrightarrow> (case (s, s') of ((st, a, n), (st', a', n')) \<Rightarrow>
    (case map_of ms ''Effect'' of None \<Rightarrow> st_Effect st' = st_Effect st | Some v \<Rightarrow> v = JString (st_Effect st')) \<and>
    (case map_of ms ''Action'' of None \<Rightarrow> a' = a \<and> st_Action st' = st_Action st
      | Some v \<Rightarrow> a' \<and> stringOrArray v ''Action'' = Inr (st_Action st')) \<and>
    (case map_of ms ''NotAction'' of None \<Rightarrow> n' = n \<and> st_NotAction st' = st_NotAction st
      | Some v \<Rightarrow> n' \<and> stringOrArray v ''NotAction'' = Inr (st_NotAction st')))"

lemma statementMembers_effect:
  "statementMembers s ms = Inr s' \<Longrightarrow> distinct (map fst ms) \<Longrightarrow> membersEffect s ms s'"
proof (induction ms arbitrary: s)
  case Nil
  then show ?case by (auto simp: membersEffect_def split: prod.splits)
next
  case (Cons m ms)
  obtain k v where m: "m = (k, v)" by (cases m)
  obtain s1 where s1: "statementMember s (k, v) = Inr s1" "statementMembers s1 ms = Inr s'"
    using Cons.prems(1) m by (auto simp: bindR_Inr_iff)
  have k: "map_of ms k = None" using Cons.prems(2) m by (simp add: map_of_eq_None_iff)
  from Cons.IH [OF s1(2)] Cons.prems(2) have "membersEffect s1 ms s'" by simp
  with statementMember_effect [OF s1(1)] k show ?case
    unfolding memberEffect_def membersEffect_def m by (auto split: prod.splits if_splits option.splits)
qed

lemma decodeStatement_lookup:
  assumes "decodeStatement (JObject ms) = Inr st" "distinct (map fst ms)"
  shows "map_of ms ''Effect'' = Some (JString (st_Effect st))"
    "st_IsNotAction st \<longleftrightarrow> map_of ms ''NotAction'' \<noteq> None"
    "st_Action st = (case map_of ms ''Action'' of None \<Rightarrow> [] | Some v \<Rightarrow> projr (stringOrArray v ''Action''))"
    "st_NotAction st = (case map_of ms ''NotAction'' of None \<Rightarrow> [] | Some v \<Rightarrow> projr (stringOrArray v ''NotAction''))"
    "\<And>v. map_of ms ''Action'' = Some v \<Longrightarrow> stringOrArray v ''Action'' = Inr (st_Action st)"
proof -
  obtain st0 a n where s: "statementMembers (emptyStatement (writeCanonical (JObject ms)), False, False) ms = Inr (st0, a, n)"
    and e: "st_Effect st0 \<noteq> []" "a \<noteq> n" and st: "st = st0\<lparr>st_IsNotAction := n, st_Unknown := sort (st_Unknown st0)\<rparr>"
    using assms(1) unfolding decodeStatement_def by (auto simp: bindR_Inr_iff split: if_splits)
  have eff: "membersEffect (emptyStatement (writeCanonical (JObject ms)), False, False) ms (st0, a, n)"
    by (rule statementMembers_effect [OF s assms(2)])
  show "map_of ms ''Effect'' = Some (JString (st_Effect st))"
    "st_IsNotAction st \<longleftrightarrow> map_of ms ''NotAction'' \<noteq> None"
    "st_Action st = (case map_of ms ''Action'' of None \<Rightarrow> [] | Some v \<Rightarrow> projr (stringOrArray v ''Action''))"
    "st_NotAction st = (case map_of ms ''NotAction'' of None \<Rightarrow> [] | Some v \<Rightarrow> projr (stringOrArray v ''NotAction''))"
    "\<And>v. map_of ms ''Action'' = Some v \<Longrightarrow> stringOrArray v ''Action'' = Inr (st_Action st)"
    using eff e unfolding st membersEffect_def by (auto simp: emptyStatement_def split: option.splits)
qed


subsection \<open>Statements of a document that was written\<close>

lemma documentMembers_lookup:
  "documentMembers (doc, s) ms = Inr (doc', s') \<Longrightarrow> distinct (map fst ms) \<Longrightarrow>
    pd_Statements doc' = pd_Statements doc \<and> s' = (case map_of ms ''Statement'' of None \<Rightarrow> s | Some v \<Rightarrow> Some v)"
proof (induction "(doc, s)" ms arbitrary: doc s rule: documentMembers.induct)
  case (2 doc stmts k v ms)
  show ?case
  proof (cases "k = ''Statement''")
    case True
    then have "map_of ms ''Statement'' = None" using "2.prems"(2) by (simp add: map_of_eq_None_iff)
    then show ?thesis using "2.hyps"(3) "2.prems" True by simp
  next
    case False
    then show ?thesis using 2 by (auto split: if_splits json.splits)
  qed
qed simp

lemma decodeStatements_all2:
  "decodeStatements i vs = Inr sts \<longleftrightarrow> list_all2 (\<lambda>v st. decodeStatement v = Inr st) vs sts"
proof (induction vs arbitrary: i sts)
  case (Cons v vs)
  then show ?case by (cases "decodeStatement v"; cases sts) (auto simp: bindR_Inr_iff)
qed auto

lemma documentOf_all2:
  assumes "documentOf (JObject ms) = Inr d" "distinct (map fst ms)"
  obtains vs where "statementList (map_of ms ''Statement'') = Inr vs"
    "list_all2 (\<lambda>v st. decodeStatement v = Inr st) vs (pd_Statements d)"
proof -
  obtain doc stmts vs sts
    where dm: "documentMembers (\<lparr>pd_Version = [], pd_ID = [], pd_Statements = []\<rparr>, None) ms = Inr (doc, stmts)"
    and vs: "statementList stmts = Inr vs" and sts: "decodeStatements 0 vs = Inr sts" "d = doc\<lparr>pd_Statements := sts\<rparr>"
    using assms(1) unfolding documentOf_def json.case by (elim bindR_resE) (auto elim!: bindR_resE)
  have "stmts = map_of ms ''Statement''" using documentMembers_lookup [OF dm assms(2)] by (auto split: option.splits)
  then show thesis using that [of vs] vs sts by (simp add: decodeStatements_all2)
qed

lemma object_write: "hasPrefix (writeCanonical (JObject ms)) ''{''" "graphic (last (writeCanonical (JObject ms)))"
  by (simp_all add: hasPrefix_def graphic_def)

lemma decode_written:
  assumes "wfJson (JObject ms)" "jsonDepth (JObject ms) \<le> maxJSONDepth"
  shows "DecodePolicyDocument (writeCanonical (JObject ms)) = documentOf (normJson (JObject ms))"
  using parse_written [OF assms] object_text(3) [OF object_write] by (simp add: DecodePolicyDocument_def)

lemma normJson_object:
  assumes "distinct (map fst ms)"
  obtains ns where "normJson (JObject ms) = JObject ns" "distinct (map fst ns)" "\<And>k. map_of ns k = map_option normJson (map_of ms k)"
proof -
  let ?ns = "map (\<lambda>(k, v). (k, normJson v)) (sort_key (utf16 \<circ> fst) ms)"
  have m: "map fst ?ns = map fst (sort_key (utf16 \<circ> fst) ms)" by auto
  have "distinct (map fst ?ns)" unfolding m using assms by (simp add: distinct_map)
  then show thesis using that [of ?ns] norm_object norm_lookup [OF assms] by blast
qed

lemma stringEntries_Inr: "stringEntries nm vs = Inr l \<longleftrightarrow> vs = map JString l"
proof (induction vs arbitrary: l)
  case (Cons v vs)
  then show ?case by (cases v; cases l) (auto simp: bindR_Inr_iff)
qed auto

lemma stringOrArray_Inr: "stringOrArray v nm = Inr l \<longleftrightarrow> (\<exists>s. v = JString s \<and> l = [s]) \<or> v = JArray (map JString l)"
  by (cases v) (auto simp: stringOrArray_def stringEntries_Inr)

lemma stringOrArray_norm: "stringOrArray v nm = Inr l \<Longrightarrow> stringOrArray (normJson v) nm = Inr l"
  by (auto simp: stringOrArray_Inr comp_def)

lemma stringOrArray_valid: "stringOrArray v nm = Inr l \<Longrightarrow> wfJson v \<Longrightarrow> list_all validUTF8 l"
  by (auto simp: stringOrArray_Inr list_all_iff)

lemma stringOrArray_jstr: "list_all validUTF8 l \<Longrightarrow> stringOrArray (normJson (JArray (map jstr l))) nm = Inr l"
  by (auto simp: stringOrArray_Inr jstr_def jsonText_id list_all_iff comp_def)

subsection \<open>The statements kept by narrowing\<close>

text \<open>A statement that was decoded: the value it came from, and the members of its raw text.\<close>

lemma decoded_statement:
  assumes "DecodePolicyDocument t = Inr d" "st \<in> set (pd_Statements d)"
  obtains w where "decodeStatement w = Inr st" "wfJson w" "jsonDepth w \<le> maxJSONDepth"
proof -
  obtain raw v where v: "parseJSON raw = Inr v" "documentOf v = Inr d"
    using assms(1) unfolding DecodePolicyDocument_def by (elim bindR_resE) (metis old.sum.simps(5) old.sum.simps(6) sum.distinct(1) sum.exhaust)
  obtain ms s w where ms: "v = JObject ms" "(''Statement'', s) \<in> set ms" "decodeStatement w = Inr st"
    "w = s \<or> (\<exists>l. s = JArray l \<and> w \<in> set l)" using documentOf_statements [OF v(2) assms(2)] .
  have "wfJson w \<and> jsonDepth w \<le> maxJSONDepth"
    using member_wf [of ms 0 maxJSONDepth, OF _ _ ms(2,4)] parse_wf [OF v(1)] ms(1) by simp
  then show thesis using that ms(3) by blast
qed

lemma raw_statement:
  assumes "decodeStatement w = Inr st" "wfJson w" "jsonDepth w \<le> maxJSONDepth"
  obtains ms where "rawMembers (st_Raw st) = Some ms" "wfJson (JObject ms)"
    "map_of ms ''Effect'' = Some (JString (st_Effect st))" "st_IsNotAction st \<longleftrightarrow> map_of ms ''NotAction'' \<noteq> None"
    "case map_of ms ''Action'' of None \<Rightarrow> st_Action st = [] | Some v \<Rightarrow> stringOrArray v ''Action'' = Inr (st_Action st)"
    "list_all validUTF8 (st_Action st)"
proof -
  obtain ws where w: "w = JObject ws" using assms(1) by (cases w) (auto simp: decodeStatement_def)
  have d: "distinct (map fst ws)" using assms(2) w by simp
  obtain ms where ms: "normJson w = JObject ms" "distinct (map fst ms)" "\<And>k. map_of ms k = map_option normJson (map_of ws k)"
    using normJson_object [OF d] w by blast
  have p: "parseJSON (st_Raw st) = Inr (JObject ms)"
    using parse_written [OF assms(2,3)] decodeStatement_wf [OF assms(1)] ms(1) by simp
  note look = decodeStatement_lookup [OF assms(1) [unfolded w] d]
  have act: "case map_of ws ''Action'' of None \<Rightarrow> st_Action st = [] | Some v \<Rightarrow> stringOrArray v ''Action'' = Inr (st_Action st)"
    using look(3,5) by (auto split: option.splits)
  have "wfJson v" if "map_of ws k = Some v" for k v using map_of_SomeD [OF that] assms(2) w by force
  then have "list_all validUTF8 (st_Action st)" using act stringOrArray_valid by (fastforce split: option.splits)
  moreover have "case map_of ms ''Action'' of None \<Rightarrow> st_Action st = [] | Some v \<Rightarrow> stringOrArray v ''Action'' = Inr (st_Action st)"
    using act unfolding ms(3) by (auto split: option.splits intro: stringOrArray_norm)
  moreover have "rawMembers (st_Raw st) = Some ms" by (simp add: rawMembers_def p)
  moreover have "map_of ms ''Effect'' = Some (JString (st_Effect st))" "st_IsNotAction st \<longleftrightarrow> map_of ms ''NotAction'' \<noteq> None"
    using look(1,2) by (simp_all add: ms(3))
  moreover have "wfJson (JObject ms)" using parse_wf [OF p] by simp
  ultimately show thesis using that by blast
qed


definition survives :: "string list \<Rightarrow> statement \<Rightarrow> bool" where
  "survives remove st \<longleftrightarrow> \<not> (st_Effect st = EffectAllow \<and> list_ex (removesAction remove) (st_Action st) \<and>
    list_all (removesAction remove) (st_Action st))"

definition narrowedAs :: "string list \<Rightarrow> statement \<Rightarrow> statement \<Rightarrow> bool" where
  "narrowedAs remove st g \<longleftrightarrow> st_Effect g = st_Effect st \<and> st_IsNotAction g = st_IsNotAction st \<and>
    st_Action g = (if st_Effect st = EffectAllow then filter (\<lambda>a. \<not> removesAction remove a) (st_Action st) else st_Action st)"

definition keptAs :: "string list \<Rightarrow> statement \<Rightarrow> json \<Rightarrow> bool" where
  "keptAs remove st v \<longleftrightarrow> (\<exists>ms. v = JObject ms) \<and> wfJson v \<and> (\<forall>g. decodeStatement (normJson v) = Inr g \<longrightarrow> narrowedAs remove st g)"

lemma map_of_filter_key: "map_of (filter (\<lambda>m. fst m \<noteq> k) ms) k' = (if k' = k then None else map_of ms k')"
  by (induction ms) auto

lemma setMember_lookup: "map_of (setMember k v ms) k' = (if k' = k then Some v else map_of ms k')"
  by (auto simp: setMember_def map_of_filter_key map_add_def split: option.splits)

lemma setMember_wf: "wfJson (JObject ms) \<Longrightarrow> wfJson v \<Longrightarrow> validUTF8 k \<Longrightarrow> wfJson (JObject (setMember k v ms))"
  by (auto simp: setMember_def distinct_map_filter)

lemma kept_statement:
  assumes "wfJson (JObject ms)" "map_of ms ''Effect'' = Some (JString (st_Effect st))"
    "st_IsNotAction st \<longleftrightarrow> map_of ms ''NotAction'' \<noteq> None"
    "case map_of ms ''Action'' of None \<Rightarrow> acts = [] | Some v \<Rightarrow> stringOrArray (normJson v) ''Action'' = Inr acts"
    "decodeStatement (normJson (JObject ms)) = Inr g"
  shows "st_Effect g = st_Effect st \<and> st_IsNotAction g = st_IsNotAction st \<and> st_Action g = acts"
proof -
  have d: "distinct (map fst ms)" using assms(1) by simp
  obtain ns where ns: "normJson (JObject ms) = JObject ns" "distinct (map fst ns)" "\<And>k. map_of ns k = map_option normJson (map_of ms k)"
    using normJson_object [OF d] by blast
  note look = decodeStatement_lookup [OF assms(5) [unfolded ns(1)] ns(2), unfolded ns(3)]
  have "st_Effect g = st_Effect st" using look(1) assms(2) by simp
  moreover have "st_IsNotAction g = st_IsNotAction st" using look(2) assms(3) by simp
  moreover have "st_Action g = acts" using look(3) assms(4) by (auto split: option.splits)
  ultimately show ?thesis by blast
qed

lemma filter_all_kept: "filter P xs = [] \<Longrightarrow> filter (\<lambda>x. \<not> P x) xs = xs"
  by (simp add: filter_empty_conv filter_id_conv)

lemma narrowStatement_kept:
  assumes "narrowStatement remove i st = Inr (r, k)"
    and w: "decodeStatement w = Inr st" "wfJson w" "jsonDepth w \<le> maxJSONDepth"
  shows "(k = None \<longleftrightarrow> \<not> survives remove st) \<and>
    (\<forall>v. k = Some v \<longrightarrow> keptAs remove st v)"
proof -
  obtain ms where ms: "rawMembers (st_Raw st) = Some ms" "wfJson (JObject ms)"
    "map_of ms ''Effect'' = Some (JString (st_Effect st))" "st_IsNotAction st \<longleftrightarrow> map_of ms ''NotAction'' \<noteq> None"
    "case map_of ms ''Action'' of None \<Rightarrow> st_Action st = [] | Some v \<Rightarrow> stringOrArray v ''Action'' = Inr (st_Action st)"
    "list_all validUTF8 (st_Action st)" using raw_statement [OF w] .
  let ?rem = "filter (removesAction remove) (st_Action st)" and ?stay = "filter (\<lambda>a. \<not> removesAction remove a) (st_Action st)"
  have sv: "survives remove st \<longleftrightarrow> \<not> (st_Effect st = EffectAllow \<and> ?rem \<noteq> [] \<and> ?stay = [])"
    by (auto simp: survives_def filter_empty_conv list_ex_iff list_all_iff)
  consider (same) "st_Effect st \<noteq> EffectAllow \<or> ?rem = []" "k = Some (JObject ms)"
    | (gone) "st_Effect st = EffectAllow" "?rem \<noteq> []" "?stay = []" "k = None"
    | (cut) "st_Effect st = EffectAllow" "?rem \<noteq> []" "?stay \<noteq> []" "k = Some (JObject (setMember ''Action'' (JArray (map jstr ?stay)) ms))"
  proof -
    note step = assms(1) [unfolded narrowStatement_def Let_def ms(1) option.case]
    show thesis by (insert step, elim if_condE) (use that in auto)
  qed
  then show ?thesis
  proof cases
    case same
    have "case map_of ms ''Action'' of None \<Rightarrow> st_Action st = [] | Some v \<Rightarrow> stringOrArray (normJson v) ''Action'' = Inr (st_Action st)"
      using ms(5) by (auto split: option.splits intro: stringOrArray_norm)
    from kept_statement [OF ms(2-4) this] show ?thesis using same ms(2) sv
      by (auto simp: keptAs_def narrowedAs_def filter_all_kept)
  next
    case gone
    then show ?thesis using sv by simp
  next
    case cut
    let ?v = "JArray (map jstr ?stay)" and ?ms = "setMember ''Action'' (JArray (map jstr ?stay)) ms"
    have valid: "list_all validUTF8 ?stay" using ms(6) by (auto simp: list_all_iff)
    have wf: "wfJson (JObject ?ms)" by (rule setMember_wf [OF ms(2)]) (auto simp: ascii_valid)
    have act: "case map_of ?ms ''Action'' of None \<Rightarrow> ?stay = [] | Some v \<Rightarrow> stringOrArray (normJson v) ''Action'' = Inr ?stay"
      using stringOrArray_jstr [OF valid] by (simp add: setMember_lookup)
    have look: "map_of ?ms ''Effect'' = Some (JString (st_Effect st))" "st_IsNotAction st \<longleftrightarrow> map_of ?ms ''NotAction'' \<noteq> None"
      using ms(3,4) by (simp_all add: setMember_lookup)
    have "narrowedAs remove st g" if "decodeStatement (normJson (JObject ?ms)) = Inr g" for g
      using kept_statement [OF wf look act that] cut(1) by (simp only: narrowedAs_def if_True simp_thms)
    then show ?thesis using cut(1-3) sv wf unfolding cut(4) keptAs_def by blast
  qed
qed


lemma narrowStatements_kept:
  assumes "narrowStatements remove i sts = Inr (recs, kept)"
    "\<And>st. st \<in> set sts \<Longrightarrow> \<exists>w. decodeStatement w = Inr st \<and> wfJson w \<and> jsonDepth w \<le> maxJSONDepth"
  shows "list_all2 (keptAs remove)
    (filter (survives remove) sts) kept"
  using assms
proof (induction sts arbitrary: i recs kept)
  case (Cons st sts)
  obtain w where w: "decodeStatement w = Inr st" "wfJson w" "jsonDepth w \<le> maxJSONDepth" using Cons.prems(2) [of st] by auto
  obtain r k rs ks where step: "narrowStatement remove i st = Inr (r, k)" "narrowStatements remove (i + 1) sts = Inr (rs, ks)"
    "kept = (case k of None \<Rightarrow> ks | Some v \<Rightarrow> v # ks)"
    using Cons.prems(1) by (auto simp: bindR_Inr_iff)
  note head = narrowStatement_kept [OF step(1) w]
  have tail: "list_all2 (keptAs remove)
      (filter (survives remove) sts) ks" by (rule Cons.IH [OF step(2)]) (use Cons.prems(2) in simp)
  show ?case
  proof (cases k)
    case None
    then show ?thesis using head tail step(3) by simp
  next
    case (Some v)
    with head have "survives remove st" "keptAs remove st v"
      by blast+
    then show ?thesis using tail step(3) Some by simp
  qed
qed simp

lemma narrowed_statements:
  assumes kept: "list_all2 (keptAs remove)
      sts kept" "kept \<noteq> []"
    and top: "wfJson (JObject members)" "jsonDepth (narrowedDocument members kept) \<le> maxJSONDepth"
    and got: "DecodePolicyDocument (writeCanonical (narrowedDocument members kept)) = Inr got"
  shows "list_all2 (narrowedAs remove) sts (pd_Statements got)"
proof -
  have objs: "\<forall>v \<in> set kept. (\<exists>ms. v = JObject ms) \<and> wfJson v"
    using kept(1) by (auto simp: keptAs_def list_all2_conv_all_nth in_set_conv_nth)
  obtain S where S: "narrowedDocument members kept = JObject (setMember ''Statement'' S members)"
    "S = JArray kept \<or> (\<exists>k. kept = [k] \<and> S = k)"
    unfolding narrowedDocument_def Let_def by (cases kept rule: remdups_adj.cases) (auto split: option.splits json.splits)
  have "wfJson S" using S(2) objs by auto
  then have wf: "wfJson (JObject (setMember ''Statement'' S members))" by (rule setMember_wf [OF top(1)]) (simp add: ascii_valid)
  then obtain ns where ns: "normJson (JObject (setMember ''Statement'' S members)) = JObject ns" "distinct (map fst ns)"
    "\<And>k. map_of ns k = map_option normJson (map_of (setMember ''Statement'' S members) k)"
    using normJson_object [of "setMember ''Statement'' S members"] by auto
  have "documentOf (JObject ns) = Inr got" using got decode_written [OF wf] top(2) S(1) ns(1) by simp
  then obtain vs where vs: "statementList (map_of ns ''Statement'') = Inr vs"
    "list_all2 (\<lambda>v st. decodeStatement v = Inr st) vs (pd_Statements got)" using documentOf_all2 [OF _ ns(2)] by blast
  have "vs = map normJson kept"
    using S(2)
  proof
    assume "S = JArray kept"
    then show ?thesis using vs(1) unfolding ns(3) setMember_lookup by simp
  next
    assume "\<exists>k. kept = [k] \<and> S = k"
    then obtain ms where k: "kept = [JObject ms]" "S = JObject ms" using objs by auto
    then show ?thesis using vs(1) unfolding ns(3) setMember_lookup by simp
  qed
  with vs(2) kept(1) show ?thesis by (auto simp: keptAs_def list_all2_conv_all_nth)
qed

subsection \<open>Namespaces\<close>

lemma allStars_no_split: "allStars a \<Longrightarrow> SplitAction a = None"
proof -
  assume "allStars a"
  then have "c = star" if "c \<in> set a" for c using that unfolding allStars_def list_all_iff by blast
  from this [of "CHR '':''"] have "indexByte a (CHR '':'') = None" unfolding indexByte_None by auto
  then show ?thesis by (simp add: SplitAction_def)
qed

definition inNamespace :: "string \<Rightarrow> string \<Rightarrow> bool" where
  "inNamespace ns a \<longleftrightarrow> (\<exists>p q. SplitAction a = Some (p, q) \<and> toLower p = toLower ns)"

lemma literal_covers:
  assumes "\<not> namespaceWildcard a" "star \<notin> set ns"
  shows "PatternCoversNamespace a ns \<longleftrightarrow> inNamespace ns a"
proof -
  obtain p q where a: "SplitAction a = Some (p, q)"
    using assms(1) unfolding namespaceWildcard_def by (cases "SplitAction a") auto
  then have w: "\<not> containsWild (toLower p)" using assms(1) by (simp add: namespaceWildcard_def)
  have s: "\<not> allStars a" using allStars_no_split [of a] a by auto
  show ?thesis
    unfolding PatternCoversNamespace_def inNamespace_def a if_not_P [OF s] option.case prod.case
      gm.matches_literal [OF assms(2)] globSpec_literal [OF w] by simp
qed

lemma grants_literal:
  assumes "st_Effect st = EffectAllow" "\<not> st_IsNotAction st" "list_all (\<lambda>a. \<not> namespaceWildcard a) (st_Action st)" "star \<notin> set ns"
  shows "GrantsNamespace st ns \<longleftrightarrow> (\<exists>a \<in> set (st_Action st). inNamespace ns a)"
  using assms(1-3) literal_covers [OF _ assms(4)] by (auto simp: GrantsNamespace_def list_ex_iff list_all_iff)

lemma removes_literal: "inNamespace ns a \<Longrightarrow> removesAction remove a \<longleftrightarrow> toLower ns \<in> toLower ` set remove"
  by (auto simp: inNamespace_def removesAction_def)

lemma notNarrowable_Cons:
  assumes "notNarrowable i (s # sts) = None"
  shows "notNarrowable (i + 1) sts = None" "st_Effect s = EffectAllow \<Longrightarrow> \<not> st_IsNotAction s"
    "st_Effect s = EffectAllow \<Longrightarrow> find namespaceWildcard (st_Action s) = None"
  by (insert assms, unfold notNarrowable.simps(2), elim if_condE; simp split: option.splits)+

lemma notNarrowable_None:
  "notNarrowable i sts = None \<Longrightarrow> st \<in> set sts \<Longrightarrow> st_Effect st = EffectAllow \<Longrightarrow>
    \<not> st_IsNotAction st \<and> list_all (\<lambda>a. \<not> namespaceWildcard a) (st_Action st)"
proof (induction sts arbitrary: i)
  case (Cons s sts)
  note head = notNarrowable_Cons [OF Cons.prems(1)]
  show ?case
  proof (cases "st = s")
    case True
    then show ?thesis using head(2,3) Cons.prems(3) by (simp add: find_None_set list_all_iff)
  next
    case False
    then show ?thesis using Cons.IH [OF head(1)] Cons.prems(2,3) by simp
  qed
qed simp

lemma narrowed_grants:
  assumes "narrowedAs remove st g" "star \<notin> set ns"
    "st_Effect st = EffectAllow \<Longrightarrow> \<not> st_IsNotAction st \<and> list_all (\<lambda>a. \<not> namespaceWildcard a) (st_Action st)"
  shows "GrantsNamespace g ns \<longleftrightarrow> GrantsNamespace st ns \<and> toLower ns \<notin> toLower ` set remove"
proof (cases "st_Effect st = EffectAllow")
  case True
  have g: "st_Effect g = EffectAllow" "\<not> st_IsNotAction g" "st_Action g = filter (\<lambda>a. \<not> removesAction remove a) (st_Action st)"
    using assms(1,3) True by (auto simp: narrowedAs_def)
  have "list_all (\<lambda>a. \<not> namespaceWildcard a) (st_Action g)" using assms(3) True by (auto simp: g(3) list_all_iff)
  then show ?thesis using assms(3) True grants_literal [OF True _ _ assms(2)] grants_literal [OF g(1,2) _ assms(2)] removes_literal
    unfolding g(3) by auto
next
  case False
  then show ?thesis using assms(1) by (simp add: narrowedAs_def GrantsNamespace_def)
qed

lemma gone_grants:
  assumes "\<not> survives remove st" "star \<notin> set ns" "GrantsNamespace st ns"
    "st_Effect st = EffectAllow \<Longrightarrow> \<not> st_IsNotAction st \<and> list_all (\<lambda>a. \<not> namespaceWildcard a) (st_Action st)"
  shows "toLower ns \<in> toLower ` set remove"
proof -
  have s: "st_Effect st = EffectAllow" "list_all (removesAction remove) (st_Action st)" using assms(1) by (auto simp: survives_def)
  then obtain a where "a \<in> set (st_Action st)" "inNamespace ns a" using assms(3,4) grants_literal [OF s(1) _ _ assms(2)] by auto
  then show ?thesis using s(2) removes_literal by (auto simp: list_all_iff)
qed


lemma narrowed_excludes:
  assumes all2: "list_all2 (narrowedAs remove) (filter (survives remove) (pd_Statements doc)) (pd_Statements got)"
    and ns: "star \<notin> set ns"
    and lit: "\<And>st. st \<in> set (pd_Statements doc) \<Longrightarrow> st_Effect st = EffectAllow \<Longrightarrow>
      \<not> st_IsNotAction st \<and> list_all (\<lambda>a. \<not> namespaceWildcard a) (st_Action st)"
  shows "BoundaryExcludes got ns \<longleftrightarrow> BoundaryExcludes doc ns \<or> toLower ns \<in> toLower ` set remove"
proof -
  let ?sts = "filter (survives remove) (pd_Statements doc)" and ?rm = "toLower ns \<in> toLower ` set remove"
  have len: "length (pd_Statements got) = length ?sts" using all2 by (simp add: list_all2_lengthD)
  have "GrantsNamespace (pd_Statements got ! i) ns \<longleftrightarrow> GrantsNamespace (?sts ! i) ns \<and> \<not> ?rm" if "i < length ?sts" for i
  proof (rule narrowed_grants [OF list_all2_nthD [OF all2 that] ns])
    have "?sts ! i \<in> set (pd_Statements doc)" using nth_mem [OF that] by simp
    then show "st_Effect (?sts ! i) = EffectAllow \<Longrightarrow>
        \<not> st_IsNotAction (?sts ! i) \<and> list_all (\<lambda>a. \<not> namespaceWildcard a) (st_Action (?sts ! i))" by (rule lit)
  qed
  then have "BoundaryExcludes got ns \<longleftrightarrow> (\<forall>st \<in> set ?sts. \<not> GrantsNamespace st ns) \<or> ?rm"
    unfolding BoundaryExcludes_def list_all_length len all_set_conv_all_nth by (cases ?rm) auto
  also have "\<dots> \<longleftrightarrow> (\<forall>st \<in> set (pd_Statements doc). \<not> GrantsNamespace st ns) \<or> ?rm"
    using gone_grants [OF _ ns _ lit] by auto
  finally show ?thesis by (simp add: BoundaryExcludes_def list_all_iff)
qed


subsection \<open>Narrowing as a whole\<close>

lemma narrow_result:
  assumes "NarrowCustomerBoundary t remove = Inr (NarrowedTo c h n)"
  obtains doc raw members recs kept got where "DecodePolicyDocument t = Inr doc" "notNarrowable 0 (pd_Statements doc) = None"
    "rawMembers raw = Some members" "narrowStatements remove 0 (pd_Statements doc) = Inr (recs, kept)" "kept \<noteq> []"
    "canonical (narrowedDocument members kept) = Inr c" "DecodePolicyDocument c = Inr got" "h = ContentHash c"
proof -
  obtain doc where doc: "DecodePolicyDocument t = Inr doc" "notNarrowable 0 (pd_Statements doc) = None"
    using assms unfolding NarrowCustomerBoundary_def
    by (elim bindR_resE) (cases "notNarrowable 0 (pd_Statements (projr (DecodePolicyDocument t)))"; force)
  obtain raw where raw: "DecodePolicyText t = Inr raw" and 1: "(case rawMembers raw of
      None \<Rightarrow> Inl (DecodeFailed DocumentNotObject)
    | Some members \<Rightarrow>
        bindR (narrowStatements remove 0 (pd_Statements doc)) (\<lambda>(recs, kept).
          if kept = [] then Inr (NarrowRefused (Refusal RefuseNarrowedEmpty ''every statement of the boundary would be deleted''))
          else bindR (hashed (canonical (narrowedDocument members kept))) (\<lambda>c.
            if \<not> checkStorable c then Inl (HashFailed NotStorable)
            else
              let n = \<lparr>nw_Statements = recs, nw_Changed = (\<exists>r \<in> set recs. ns_Result r \<noteq> NarrowKept), nw_SubsetProof = False\<rparr>
              in if subsetProof doc c n then Inr (NarrowedTo c (ContentHash c) (n\<lparr>nw_SubsetProof := True\<rparr>))
                 else Inl NotSubset))) = Inr (NarrowedTo c h n)"
    using assms unfolding NarrowCustomerBoundary_def doc(1) decoded_def sum.case bindR_simps doc(2) option.case
    by (cases "DecodePolicyText t") simp_all
  obtain members where m: "rawMembers raw = Some members" using 1 by (cases "rawMembers raw") simp_all
  obtain recs kept where k: "narrowStatements remove 0 (pd_Statements doc) = Inr (recs, kept)"
    using 1 unfolding m option.case by (elim bindR_resE) (metis surj_pair)
  have kn: "kept \<noteq> []" using 1 unfolding m k option.case bindR_simps prod.case by (auto split: if_splits)
  obtain c' where c': "canonical (narrowedDocument members kept) = Inr c'"
    using 1 kn unfolding m k option.case bindR_simps prod.case if_not_P [OF kn] by (elim bindR_resE) simp
  have fin: "c' = c \<and> h = ContentHash c \<and> subsetProof doc c \<lparr>nw_Statements = recs, nw_Changed = (\<exists>r \<in> set recs. ns_Result r \<noteq> NarrowKept), nw_SubsetProof = False\<rparr>"
    using 1 unfolding m k option.case bindR_simps prod.case if_not_P [OF kn] c' hashed_def sum.case Let_def
    by (elim if_condE) auto
  then obtain got where "DecodePolicyDocument c = Inr got"
    by (auto simp: subsetProof_def split: sum.splits)
  then show thesis using that [OF doc m k kn] c' fin by simp
qed



definition exampleBoundary :: string where
  "exampleBoundary = [CHR ''{'', CHR 0x22] @ ''Statement'' @ [CHR 0x22] @ '':{'' @ [CHR 0x22] @ ''Action'' @ [CHR 0x22] @ '':['' @
    [CHR 0x22] @ ''s3:*'' @ [CHR 0x22] @ '','' @ [CHR 0x22] @ ''sqs:*'' @ [CHR 0x22] @ ''],'' @ [CHR 0x22] @ ''Effect'' @
    [CHR 0x22] @ '':'' @ [CHR 0x22] @ ''Allow'' @ [CHR 0x22] @ ''}}''"

definition narrowsTo :: "string \<Rightarrow> string list \<Rightarrow> bool" where
  "narrowsTo t remove =
    (case (DecodePolicyDocument t, DecodePolicyText t) of
       (Inr doc, Inr raw) \<Rightarrow>
         (case (notNarrowable 0 (pd_Statements doc), rawMembers raw, narrowStatements remove 0 (pd_Statements doc)) of
            (None, Some members, Inr (recs, kept)) \<Rightarrow> kept \<noteq> [] \<and>
              (case canonical (narrowedDocument members kept) of
                 Inr c \<Rightarrow> checkStorable c \<and> subsetProof doc c
                   \<lparr>nw_Statements = recs, nw_Changed = (\<exists>r \<in> set recs. ns_Result r \<noteq> NarrowKept), nw_SubsetProof = False\<rparr>
               | Inl e \<Rightarrow> False)
          | _ \<Rightarrow> False)
     | _ \<Rightarrow> False)"

lemma narrowsTo_ok:
  assumes "narrowsTo t remove"
  obtains c h n where "NarrowCustomerBoundary t remove = Inr (NarrowedTo c h n)"
proof -
  obtain doc raw where d: "DecodePolicyDocument t = Inr doc" "DecodePolicyText t = Inr raw"
    using assms unfolding narrowsTo_def by (auto split: sum.splits)
  note 1 = assms [unfolded narrowsTo_def d prod.case sum.case]
  obtain members recs kept where m: "notNarrowable 0 (pd_Statements doc) = None" "rawMembers raw = Some members"
    "narrowStatements remove 0 (pd_Statements doc) = Inr (recs, kept)"
    using 1 by (cases "notNarrowable 0 (pd_Statements doc)"; cases "rawMembers raw";
      cases "narrowStatements remove 0 (pd_Statements doc)") auto
  note 2 = 1 [unfolded m prod.case sum.case option.case]
  obtain c where c: "canonical (narrowedDocument members kept) = Inr c"
    using 2 by (auto split: sum.splits)
  note 3 = 2 [unfolded c sum.case]
  show thesis
    by (rule that, unfold NarrowCustomerBoundary_def d decoded_def sum.case bindR_simps m option.case prod.case hashed_def c Let_def)
      (use 3 in simp)
qed

lemma exampleBoundary_narrows: "narrowsTo exampleBoundary [''sqs'']"
  by code_simp


subsection \<open>The exclusion-only boundary\<close>

lemma utf16_keys:
  "utf16 ''Version'' = [86, 101, 114, 115, 105, 111, 110]" "utf16 ''Statement'' = [83, 116, 97, 116, 101, 109, 101, 110, 116]"
  "utf16 ''Sid'' = [83, 105, 100]" "utf16 ''Effect'' = [69, 102, 102, 101, 99, 116]"
  "utf16 ''NotAction'' = [78, 111, 116, 65, 99, 116, 105, 111, 110]" "utf16 ''Resource'' = [82, 101, 115, 111, 117, 114, 99, 101]"
  by code_simp+

lemma exclusion_norm:
  "normJson (exclusionJSON actions) = JObject
    [(''Statement'', JArray [JObject
       [(''Effect'', jstr EffectAllow), (''NotAction'', JArray (map jstr (sortedUnique actions))), (''Resource'', jstr ''*''),
        (''Sid'', jstr AuthSecBoundarySid)]]),
     (''Version'', jstr PolicyVersion20121017)]"
  by (simp add: exclusionJSON_def utf16_keys comp_def)

lemma exclusion_shallow: "shallow 4 (exclusionJSON actions)"
  by (simp add: exclusionJSON_def numeral_eq_Suc shallow_object shallow_array)

lemma exclusion_wf: "wfJson (exclusionJSON actions)"
  by (auto simp: exclusionJSON_def ascii_valid)

lemma service_ascii: "reService ns \<Longrightarrow> list_all (\<lambda>c. (of_char c :: nat) < 0x80) ns \<and> CHR '':'' \<notin> set ns \<and> \<not> containsWild ns \<and> ns \<noteq> []"
proof -
  assume r: "reService ns"
  have "(of_char c :: nat) < 0x80 \<and> c \<noteq> CHR '':'' \<and> c \<noteq> star \<and> c \<noteq> quest" if "isServiceChar c" for c
    using that by (auto simp: isServiceChar_def isLowerAlpha_def inRange_def isDigit_def)
  then have c: "(of_char c :: nat) < 0x80 \<and> c \<noteq> CHR '':'' \<and> c \<noteq> star \<and> c \<noteq> quest" if "c \<in> set ns" for c
    using r that unfolding reService_def list_all_iff by blast
  then show ?thesis using r unfolding reService_def list_all_iff containsWild_def by blast
qed

lemma exclusionActions_Inr:
  "exclusionActions remove = Inr as \<longleftrightarrow> (\<forall>s \<in> set remove. reService (toLower (trimSpace s))) \<and>
    as = map (\<lambda>s. toLower (trimSpace s) @ '':*'') remove"
  by (induction remove arbitrary: as) (auto simp: Let_def bindR_Inr_iff)

lemma jstr_action: "reService ns \<Longrightarrow> jstr (ns @ '':*'') = JString (ns @ '':*'')"
  using service_ascii [of ns] by (simp add: jstr_def jsonText_id ascii_valid)

lemma jstr_literals:
  "jstr EffectAllow = JString EffectAllow" "jstr ''*'' = JString ''*''" "jstr AuthSecBoundarySid = JString AuthSecBoundarySid"
  "jstr PolicyVersion20121017 = JString PolicyVersion20121017"
  by code_simp+

lemma exclusion_covers:
  assumes "reService m" "star \<notin> set ns"
  shows "patternCoversWholeNamespace (m @ '':*'') ns \<longleftrightarrow> toLower m = toLower ns"
proof -
  note m = service_ascii [OF assms(1)]
  have i: "indexByte (m @ '':*'') (CHR '':'') = Some (length m)" using m indexByte_first [of "CHR '':''" m "''*''"] by simp
  then have s: "SplitAction (m @ '':*'') = Some (m, ''*'')" using m by (simp add: SplitAction_def)
  then have "\<not> allStars (m @ '':*'')" using allStars_no_split [of "m @ '':*''"] by auto
  moreover have "\<not> containsWild (toLower m)" using m by simp
  ultimately show ?thesis using gm.matches_literal [OF assms(2), of m] globSpec_literal [of "toLower m" "toLower ns"]
    by (simp add: patternCoversWholeNamespace_def s allStars_def)
qed


lemma exclusion_matches:
  assumes "reService m"
  shows "actionMatches (m @ '':*'') ns act \<longleftrightarrow> toLower m = toLower ns"
proof -
  note m = service_ascii [OF assms(1)]
  have i: "indexByte (m @ '':*'') (CHR '':'') = Some (length m)" using m indexByte_first [of "CHR '':''" m "''*''"] by simp
  then have s: "SplitAction (m @ '':*'') = Some (m, ''*'')" using m by (simp add: SplitAction_def)
  then have "\<not> allStars (m @ '':*'')" using allStars_no_split [of "m @ '':*''"] by auto
  moreover have "\<not> containsWild (toLower m)" using m by simp
  moreover have "globSpec (toLower ''*'') (toLower act)" using globSpec_all [of "toLower ''*''"] by (simp add: allStars_def)
  ultimately show ?thesis using globSpec_literal [of "toLower m" "toLower ns"]
    by (simp only: actionMatches_def s option.case prod.case simp_thms)
qed

definition exclusionStatement :: "string list \<Rightarrow> statement \<Rightarrow> bool" where
  "exclusionStatement actions st \<longleftrightarrow> st_Effect st = EffectAllow \<and> st_IsNotAction st \<and> st_NotAction st = sortedUnique actions \<and>
    st_Resource st = Some [''*''] \<and> st_Conditions st = []"

lemma stringEntries_strings: "stringEntries nm (map JString xs) = Inr xs"
  by (simp add: stringEntries_Inr)

lemma exclusion_decoded:
  assumes "\<forall>a \<in> set actions. jstr a = JString a"
  obtains d st where "DecodePolicyDocument (writeCanonical (exclusionJSON actions)) = Inr d" "pd_Statements d = [st]"
    "exclusionStatement actions st"
proof -
  obtain ms where ms: "exclusionJSON actions = JObject ms" by (simp add: exclusionJSON_def)
  have depth: "jsonDepth (JObject ms) \<le> maxJSONDepth"
    using exclusion_shallow [of actions] by (simp add: shallow_def ms maxJSONDepth_def)
  have acts: "map jstr (sortedUnique actions) = map JString (sortedUnique actions)" using assms by simp
  have dec: "DecodePolicyDocument (writeCanonical (exclusionJSON actions)) = documentOf (normJson (exclusionJSON actions))"
    unfolding ms by (rule decode_written [OF exclusion_wf [of actions, unfolded ms] depth])
  let ?raw = "writeCanonical (JObject [(''Effect'', JString EffectAllow), (''NotAction'', JArray (map JString (sortedUnique actions))),
    (''Resource'', JString ''*''), (''Sid'', JString AuthSecBoundarySid)])"
  let ?st = "(emptyStatement ?raw)\<lparr>st_Sid := AuthSecBoundarySid, st_Effect := EffectAllow, st_NotAction := sortedUnique actions,
    st_IsNotAction := True, st_Resource := Some [''*'']\<rparr>"
  have "decodeStatement (JObject [(''Effect'', JString EffectAllow), (''NotAction'', JArray (map JString (sortedUnique actions))),
      (''Resource'', JString ''*''), (''Sid'', JString AuthSecBoundarySid)]) = Inr ?st"
    by (simp add: decodeStatement_def statementMember_def stringOrArray_def stringEntries_strings emptyStatement_def)
      (simp add: EffectAllow_def)
  then have "documentOf (normJson (exclusionJSON actions)) =
      Inr \<lparr>pd_Version = PolicyVersion20121017, pd_ID = [], pd_Statements = [?st]\<rparr>"
    unfolding exclusion_norm jstr_literals acts by (simp add: documentOf_def)
  then show thesis using that dec by (simp add: exclusionStatement_def emptyStatement_def)
qed

text \<open>
  C40. The exclusion-only boundary takes away what was selected and nothing else: it decodes to one
  Allow statement on every resource without condition, which allows an action exactly when its
  namespace was not removed, so the boundary excludes exactly the removed namespaces.
\<close>

theorem exclude_only_exact:
  assumes "ExcludeOnlyDocument remove = Inr (c, h)"
  shows "h = ContentHash c \<and> (\<exists>d st. DecodePolicyDocument c = Inr d \<and> pd_Statements d = [st] \<and>
    st_Resource st = Some [''*''] \<and> st_Conditions st = [] \<and>
    (\<forall>ns act. allowsAction st ns act \<longleftrightarrow> toLower ns \<notin> (\<lambda>s. toLower (trimSpace s)) ` set remove) \<and>
    (\<forall>ns. star \<notin> set ns \<longrightarrow> (BoundaryExcludes d ns \<longleftrightarrow> toLower ns \<in> (\<lambda>s. toLower (trimSpace s)) ` set remove)))"
proof -
  obtain actions where a: "exclusionActions remove = Inr actions" "canonical (exclusionJSON actions) = Inr c" "h = ContentHash c"
    using assms unfolding ExcludeOnlyDocument_def by (auto simp: bindR_Inr_iff split: if_splits)
  have c: "c = writeCanonical (exclusionJSON actions)" using a(2) by (simp add: canonical_Inr)
  have svc: "reService (toLower (trimSpace s))" if "s \<in> set remove" for s using a(1) that by (simp add: exclusionActions_Inr)
  have acts: "set actions = (\<lambda>s. toLower (trimSpace s) @ '':*'') ` set remove" using a(1) by (simp add: exclusionActions_Inr)
  have "\<forall>a \<in> set actions. jstr a = JString a" using svc unfolding acts by (auto intro: jstr_action)
  then obtain d st where d: "DecodePolicyDocument c = Inr d" "pd_Statements d = [st]" "exclusionStatement actions st"
    using exclusion_decoded unfolding c by blast
  note st = d(3) [unfolded exclusionStatement_def]
  let ?rm = "(\<lambda>s. toLower (trimSpace s)) ` set remove"
  have na: "set (st_NotAction st) = (\<lambda>s. toLower (trimSpace s) @ '':*'') ` set remove" using st acts by simp
  have m: "(\<exists>p \<in> set (st_NotAction st). P p) \<longleftrightarrow> n \<in> ?rm"
    if "\<And>s. s \<in> set remove \<Longrightarrow> P (toLower (trimSpace s) @ '':*'') \<longleftrightarrow> toLower (trimSpace s) = n" for P n
    unfolding na using that by (auto simp: image_iff)
  have "allowsAction st ns act \<longleftrightarrow> toLower ns \<notin> ?rm" for ns act
  proof -
    have "(\<exists>p \<in> set (st_NotAction st). actionMatches p ns act) \<longleftrightarrow> toLower ns \<in> ?rm"
      by (rule m) (simp add: exclusion_matches svc)
    then show ?thesis using st by (simp add: allowsAction_def list_ex_iff)
  qed
  moreover have "BoundaryExcludes d ns \<longleftrightarrow> toLower ns \<in> ?rm" if "star \<notin> set ns" for ns
  proof -
    have "(\<exists>p \<in> set (st_NotAction st). patternCoversWholeNamespace p ns) \<longleftrightarrow> toLower ns \<in> ?rm"
      by (rule m) (simp add: exclusion_covers svc that)
    then show ?thesis using st by (simp add: BoundaryExcludes_def d(2) GrantsNamespace_def list_ex_iff)
  qed
  ultimately show ?thesis using a(3) d(1,2) st by blast
qed

lemma exclusion_succeeds: "\<exists>c h. ExcludeOnlyDocument [''s3''] = Inr (c, h)"
proof -
  have "exclusionActions [''s3''] = Inr [''s3:*'']" by code_simp
  moreover have "canonical (exclusionJSON [''s3:*'']) = Inr (writeCanonical (exclusionJSON [''s3:*'']))"
    using exclusion_shallow [of "[''s3:*'']"] by (intro shallow_hash) (auto simp: maxJSONDepth_def)
  ultimately show ?thesis by (simp add: ExcludeOnlyDocument_def hashed_def)
qed

theorem exclude_only_exact_witness:
  "\<exists>c h d. ExcludeOnlyDocument [''s3''] = Inr (c, h) \<and> DecodePolicyDocument c = Inr d \<and>
    BoundaryExcludes d ''S3'' \<and> \<not> BoundaryExcludes d ''sqs''"
proof -
  obtain c h where r: "ExcludeOnlyDocument [''s3''] = Inr (c, h)" using exclusion_succeeds by blast
  have "toLower ''S3'' = toLower (trimSpace ''s3'')" "toLower ''sqs'' \<noteq> toLower (trimSpace ''s3'')" by code_simp+
  moreover have "star \<notin> set ''S3''" "star \<notin> set ''sqs''" by simp_all
  moreover obtain d where "DecodePolicyDocument c = Inr d"
    "\<forall>ns. star \<notin> set ns \<longrightarrow> (BoundaryExcludes d ns \<longleftrightarrow> toLower ns \<in> (\<lambda>s. toLower (trimSpace s)) ` set [''s3''])"
    using exclude_only_exact [OF r] by blast
  ultimately show ?thesis using r by auto
qed

end
