(* ===== verification/FirstAttachment.thy ===== *)
theory FirstAttachment
  imports Boundary Bundle
begin

section \<open>The first-attachment proof (internal/igagov/compile.go)\<close>

text \<open>
  Before a role without a boundary gets one, the evidence of one scan must show that every
  collected form is complete and that no observed policy denies every principal but some. Both
  are refusals of the plan; what no scan can show is listed for the approver.
\<close>

definition RefuseEvidenceIncomplete :: string where [go_consts]: "RefuseEvidenceIncomplete = ''resource_policy_evidence_incomplete''"
definition RefuseBlocksBoundary :: string where [go_consts]: "RefuseBlocksBoundary = ''resource_policy_blocks_boundary''"
definition BlockerDenyNotPrincipal :: string where [go_consts]: "BlockerDenyNotPrincipal = ''deny_not_principal''"
definition BlockerUnparseable :: string where [go_consts]: "BlockerUnparseable = ''unparseable''"
definition unanalysedOtherAccount :: string where [go_consts]: "unanalysedOtherAccount = ''other_accounts''"

definition Blocked :: "firstAttachmentProof \<Rightarrow> bool" where
  "Blocked p \<longleftrightarrow> fp_Incomplete p \<noteq> [] \<or> fp_Blockers p \<noteq> []"

definition incompleteDetail :: "incompleteForm \<Rightarrow> string" where
  "incompleteDetail f =
    (if if_Region f \<noteq> [] then if_Form f @ '' in '' @ if_Region f @ '' '' @ if_State f
     else if_Form f @ '' '' @ if_State f)"

definition Refusals :: "firstAttachmentProof \<Rightarrow> refusal list" where
  "Refusals p = map (\<lambda>f. Refusal RefuseEvidenceIncomplete (incompleteDetail f)) (fp_Incomplete p) @
    map (\<lambda>b. Refusal RefuseBlocksBoundary (bl_Kind b @ '' '' @ bl_Resource b)) (fp_Blockers p)"

definition notPrincipalExempts :: "principal option \<Rightarrow> roleRef \<Rightarrow> bool" where
  "notPrincipalExempts p role =
    (case p of None \<Rightarrow> False | Some q \<Rightarrow> pr_Wildcard q \<or> principalLists p role)"

definition formIncomplete ::
  "resourcePolicyEvidence option \<Rightarrow> string list \<Rightarrow> policyBearingForm \<Rightarrow> incompleteForm list" where
  "formIncomplete evd enabledRegions f =
    (if pf_State f \<noteq> FormCollected then []
     else (case evd of
             None \<Rightarrow> [\<lparr>if_Form = pf_Name f, if_Region = [], if_State = CoverageNotCollected\<rparr>]
           | Some ev \<Rightarrow>
               map (\<lambda>r. \<lparr>if_Form = pf_Name f, if_Region = rt_Region r, if_State = rt_Reason r\<rparr>)
                 (filter (\<lambda>r. rt_Form r = pf_Name f \<and> rt_Effect r = RouteEffectNotAnalysed)
                   (ra_Routes (AnalyzeRoutes (pf_Namespace f) emptyRole (Some (coverageOnly ev)) enabledRegions)))))"

definition observationBlockers :: "roleRef \<Rightarrow> resourcePolicyObservation \<Rightarrow> blocker list" where
  "observationBlockers role ob =
    (if \<not> ob_PolicyPresent ob then []
     else (case (if ob_ParseState ob = ParseUnparseable then None else ob_Document ob) of
             None \<Rightarrow> [\<lparr>bl_Kind = BlockerUnparseable, bl_Form = ob_Form ob, bl_Region = ob_Region ob,
                      bl_Resource = ob_ResourceARN ob, bl_Sid = []\<rparr>]
           | Some doc \<Rightarrow>
               map (\<lambda>st. \<lparr>bl_Kind = BlockerDenyNotPrincipal, bl_Form = ob_Form ob, bl_Region = ob_Region ob,
                         bl_Resource = ob_ResourceARN ob, bl_Sid = st_Sid st\<rparr>)
                 (filter (\<lambda>st. st_Effect st = EffectDeny \<and> notPrincipalExempts (st_NotPrincipal st) role)
                   (pd_Statements doc))))"

definition blockerKey :: "blocker \<Rightarrow> string \<times> string \<times> string" where
  "blockerKey b = (bl_Resource b, bl_Kind b, bl_Sid b)"

definition formItemKey :: "policyBearingForm \<Rightarrow> string" where
  "formItemKey f = ''unanalysed_form:'' @ pf_Name f"

text \<open>The uncollected forms of the services the account uses; \<^term>\<open>None\<close> is the nil list.\<close>

definition openForms :: "string list option \<Rightarrow> policyBearingForm list" where
  "openForms accountServices = filter (\<lambda>f. \<not> (pf_State f \<noteq> FormUncollected \<or>
    (case accountServices of None \<Rightarrow> False | Some svc \<Rightarrow> pf_Namespace f \<notin> set svc))) AllForms"

definition ProveFirstAttachment ::
  "roleRef \<Rightarrow> string \<Rightarrow> resourcePolicyEvidence option \<Rightarrow> string list \<Rightarrow> string list option \<Rightarrow> gap list
    \<Rightarrow> firstAttachmentProof" where
  "ProveFirstAttachment role scanRunID evd enabledRegions accountServices gaps =
    (let gapKeys = map ga_Key gaps;
         covered = (\<lambda>f. formItemKey f \<in> set gapKeys)
     in \<lparr>fp_ScanRunID = scanRunID,
         fp_Incomplete = concat (map (formIncomplete evd enabledRegions) AllForms),
         fp_Blockers = sort_key blockerKey
           (case evd of None \<Rightarrow> [] | Some ev \<Rightarrow> concat (map (observationBlockers role) (ev_Observations ev))),
         fp_Unanalysed = sortedUnanalysed
           (map (\<lambda>f. \<lparr>ui_Key = formItemKey f, ui_Form = pf_Name f, ui_Reason = ''form_not_collected''\<rparr>)
              (filter (\<lambda>f. \<not> covered f) (openForms accountServices)) @
            [\<lparr>ui_Key = unanalysedOtherAccount, ui_Form = [], ui_Reason = ''resources_in_other_accounts''\<rparr>]),
         fp_CoveredByGaps = map pf_Name (filter covered (openForms accountServices))\<rparr>)"

end
