(* ===== verification/Compile.thy ===== *)
theory Compile
  imports FirstAttachment
begin

section \<open>Compiling a target (internal/igagov/compile.go)\<close>

text \<open>
  The apply plan of one target of a right-sizing intent and the undo derived from its delta, by
  the role's current boundary: none, AuthSec's own, a customer's used by this role only, or a
  customer's used by others. The plan is passed through the operations that the code runs on a
  pointer to it; an error discards it. The code returns a plan and the error of sealing it in one
  statement and relies on the sealed plan being what is returned; the model returns that plan.
\<close>

subsection \<open>Vocabulary\<close>

definition RefuseNotInActivityReport :: string where [go_consts]: "RefuseNotInActivityReport = ''service_not_in_activity_report''"
definition RefuseRemovalNotJustified :: string where [go_consts]: "RefuseRemovalNotJustified = ''removal_not_justified''"
definition RefuseRemovalIsDependency :: string where [go_consts]: "RefuseRemovalIsDependency = ''removal_is_dependency''"
definition RefuseDocumentTooLarge :: string where [go_consts]: "RefuseDocumentTooLarge = ''document_too_large''"
definition RefuseCustomerBoundaryDirect :: string where [go_consts]: "RefuseCustomerBoundaryDirect = ''customer_boundary_requires_iac''"
definition RefuseArtifactOwnedElsewhere :: string where [go_consts]: "RefuseArtifactOwnedElsewhere = ''artifact_owned_elsewhere''"
definition RefuseArtifactOtherControl :: string where [go_consts]: "RefuseArtifactOtherControl = ''artifact_owned_by_other_control''"
definition RefuseConsumersChanged :: string where [go_consts]: "RefuseConsumersChanged = ''artifact_consumers_changed''"
definition RefusePolicyNameInUse :: string where [go_consts]: "RefusePolicyNameInUse = ''boundary_policy_name_in_use''"
definition RefusePolicyNameTooLong :: string where [go_consts]: "RefusePolicyNameTooLong = ''policy_name_too_long''"
definition CaseNoneToAuthSec :: string where [go_consts]: "CaseNoneToAuthSec = ''none_to_authsec''"
definition CaseAuthSecVersion :: string where [go_consts]: "CaseAuthSecVersion = ''authsec_version''"
definition CaseCustomerInPlace :: string where [go_consts]: "CaseCustomerInPlace = ''customer_in_place''"
definition CaseCustomerSplit :: string where [go_consts]: "CaseCustomerSplit = ''customer_split''"
definition CaseUndoDeleteNew :: string where [go_consts]: "CaseUndoDeleteNew = ''undo_delete_new_boundary''"
definition CaseUndoEarlierDocument :: string where [go_consts]: "CaseUndoEarlierDocument = ''undo_earlier_document''"
definition CaseUndoCustomerInPlace :: string where [go_consts]: "CaseUndoCustomerInPlace = ''undo_customer_in_place''"
definition CaseUndoSplit :: string where [go_consts]: "CaseUndoSplit = ''undo_split_copy''"
definition NoteAlreadyInPlace :: string where [go_consts]: "NoteAlreadyInPlace = ''already_in_place''"
definition NoteNothingToNarrow :: string where [go_consts]: "NoteNothingToNarrow = ''customer_boundary_already_excludes''"

subsection \<open>Evidence\<close>

record evidenceRef =
  ef_Bundle :: evidenceBundle
  ef_EvidenceRev :: int
  ef_ScanRunID :: string

definition checkR :: "bool \<Rightarrow> compileError \<Rightarrow> compileError + unit" where
  "checkR ok e = (if ok then Inr () else Inl e)"

definition isSource :: "evidenceRef \<Rightarrow> bool" where
  "isSource e \<longleftrightarrow>
    (\<exists>s \<in> set (bf_Sources (bu_Facts (ef_Bundle e))). bs_Rev s = ef_EvidenceRev e) \<and>
    (\<exists>s \<in> set (bf_Sources (bu_Facts (ef_Bundle e))).
      bs_ConnectorRun s = ef_ScanRunID e \<or> derefOr (bs_ResourcePolicyRun s) [] = ef_ScanRunID e)"

definition validateEvidence :: "evidenceRef \<Rightarrow> string \<Rightarrow> compileError + unit" where
  "validateEvidence e roleID =
    (let b = ef_Bundle e in
     if bu_Hash b = [] \<or> bf_Sources (bu_Facts b) = []
     then Inl (CompileError ErrCodeInput [''a plan needs its evidence bundle''])
     else if bu_Trust b = TrustUntrusted then Inl (CompileError ErrCodeEvidenceUntrusted (bu_TrustReasons b))
     else if ef_EvidenceRev e \<le> 0 \<or> ef_ScanRunID e = []
     then Inl (CompileError ErrCodeInput [''a plan needs its evidence revision and resource-policy scan run''])
     else if bt_RoleID (bf_Target (bu_Facts b)) \<noteq> roleID
     then Inl (CompileError ErrCodeEvidenceMismatch [''the bundle is for role '' @ bt_RoleID (bf_Target (bu_Facts b))])
     else checkR (isSource e)
       (CompileError ErrCodeEvidenceMismatch [''the evidence revision and scan run must be the bundle's source'']))"

definition evidenceGaps :: "evidenceRef \<Rightarrow> gap list" where
  "evidenceGaps e = bf_Gaps (bu_Facts (ef_Bundle e))"

definition emptyImpact :: impact where
  "emptyImpact = \<lparr>im_Consumers = [], im_OwnerUserIDs = [], im_Removed = [], im_Retained = [],
    im_StatementRevisions = [], im_Routes = [], im_Restored = []\<rparr>"

definition emptyDiff :: planDiff where
  "emptyDiff = \<lparr>df_Case = [], df_BoundaryBefore = None, df_BoundaryAfter = None, df_NewlyExcluded = [],
    df_AlreadyExcluded = [], df_NewlyUnexcluded = [], df_Narrowing = None, df_FirstAttachment = None,
    df_Split = None, df_Notes = [], df_Facts = []\<rparr>"

definition evidencePlan :: "evidenceRef \<Rightarrow> string \<Rightarrow> string \<Rightarrow> string \<Rightarrow> gotime \<Rightarrow> plan" where
  "evidencePlan e controlID kind delivery readAt =
    \<lparr>pl_ControlID = controlID, pl_Kind = kind, pl_Delivery = delivery, pl_Eligibility = EligibilityEligible,
     pl_IneligibleReason = [], pl_Refusals = [], pl_Basis = BasisLiveRead, pl_BasisReadAt = readAt,
     pl_Precondition = [], pl_PreconditionHash = [], pl_BeforeDocumentHash = None, pl_DesiredAttachment = [],
     pl_DesiredBoundaryARN = None, pl_DesiredDocumentHash = None, pl_ReplacedBoundaryARN = None,
     pl_ArtifactDisposition = DispositionKeep, pl_BundleHash = bu_Hash (ef_Bundle e),
     pl_EvidenceRev = ef_EvidenceRev e, pl_ResourcePolicyScanRunID = Some (ef_ScanRunID e),
     pl_FirstAttachment = False, pl_Unanalysed = [], pl_Impact = emptyImpact, pl_ImpactHash = [], pl_Ops = [],
     pl_Diff = emptyDiff, pl_PlanHash = [], pl_MaterialHash = [], pl_GapRefs = bu_GapRefs (ef_Bundle e),
     pl_Documents = [], pl_Facts = []\<rparr>"

definition impactFor :: "bundleFacts \<Rightarrow> removeEntry list \<Rightarrow> retainEntry list \<Rightarrow> impact" where
  "impactFor b remove retain =
    (let rm = set (map rm_Service remove)
     in \<lparr>im_Consumers = bf_Consumers b, im_OwnerUserIDs = bf_Owners b,
         im_Removed = map (\<lambda>e. \<lparr>is_Service = rm_Service e, is_Basis = rm_Basis e\<rparr>) remove,
         im_Retained = map (\<lambda>e. \<lparr>is_Service = re_Service e, is_Basis = re_Basis e\<rparr>) retain,
         im_StatementRevisions = map bg_StatementHash (filter (\<lambda>g. list_ex (\<lambda>s. s \<in> rm) (bg_Services g)) (bf_Grants b)),
         im_Routes = filter (\<lambda>r. rt_Service r \<in> rm) (bf_Routes b),
         im_Restored = []\<rparr>)"

subsection \<open>The target and its checks\<close>

record targetInput =
  ti_Control :: controlRef
  ti_Intent :: rightSizeIntent
  ti_Live :: liveRead
  ti_Evidence :: evidenceRef
  ti_ScanEvidence :: "resourcePolicyEvidence option"
  ti_EnabledRegions :: "string list"
  ti_AccountServices :: "string list option"
  ti_DependencyContexts :: "dependencyContext list"

record targetPlans =
  tp_Apply :: plan
  tp_Undo :: "plan option"

definition stateDocument :: "artifactStateFacts \<Rightarrow> json" where
  "stateDocument st = JObject [(''artifact_state'', stateJSON (stateNormalized st))]"

definition statePrecondition :: "artifactStateFacts \<Rightarrow> plan \<Rightarrow> compileError + plan" where
  "statePrecondition st p =
    bindR (hashed (canonical (stateDocument st))) (\<lambda>pc.
    bindR (hashed (StatePreconditionHash st)) (\<lambda>h.
    Inr (p\<lparr>pl_Precondition := pc, pl_PreconditionHash := h\<rparr>)))"

text \<open>The precondition of an apply plan from what was read.\<close>

definition applyPreconditionOf :: "applyPrecondition \<Rightarrow> plan \<Rightarrow> compileError + plan" where
  "applyPreconditionOf pre p =
    bindR (hashed (preconditionCanonical pre)) (\<lambda>pc.
    bindR (hashed (ApplyPreconditionHash pre)) (\<lambda>h.
    Inr (p\<lparr>pl_Precondition := pc, pl_PreconditionHash := h\<rparr>)))"

definition noRoleState :: "string \<Rightarrow> artifactStateFacts" where
  "noRoleState roleID = \<lparr>as_RoleID = roleID, as_BoundaryARN = None, as_BoundaryDocumentHash = None, as_AttachmentSet = []\<rparr>"

definition goneRolePrecondition :: "liveRead \<Rightarrow> string \<Rightarrow> plan \<Rightarrow> compileError + plan" where
  "goneRolePrecondition live roleID p =
    bindR (case lv_Role live of
             Some r \<Rightarrow> ApplyPreconditionFor live
           | None \<Rightarrow> Inr \<lparr>ap_ArtifactState = noRoleState roleID, ap_RoleARN = [], ap_RolePath = [],
               ap_ProtectionTags = [], ap_ManagedPolicies = [], ap_InlinePolicies = []\<rparr>)
      (\<lambda>pre. applyPreconditionOf pre p)"

definition removalReason :: "bundleActivity list \<Rightarrow> removeEntry \<Rightarrow> refusal list" where
  "removalReason activity e =
    (case map_of (rev (map (\<lambda>a. (ba_Service a, a)) activity)) (rm_Service e) of
       None \<Rightarrow> [Refusal RefuseNotInActivityReport (rm_Service e)]
     | Some a \<Rightarrow>
         if ba_State a \<noteq> EvidenceCollected then [Refusal RefuseNotInActivityReport (rm_Service e)]
         else if ba_Outcome a \<noteq> QualNoAttempt
         then [Refusal RefuseRemovalNotJustified (rm_Service e @ '': activity outcome '' @ ba_Outcome a)]
         else if ba_QualifiedDays a < MinQualifiedDays
         then [Refusal RefuseRemovalNotJustified (rm_Service e @ '': '' @ itoa (ba_QualifiedDays a) @ '' qualified days'')]
         else if ba_GrantAgeBasis a \<noteq> GrantAgeObservedSinceChange \<and> ba_GrantAgeBasis a \<noteq> GrantAgePredatesObservation
         then [Refusal RefuseRemovalNotJustified (rm_Service e @ '': grant age '' @ ba_GrantAgeBasis a)]
         else [])"

definition dependencyReason :: "dependencyContext list \<Rightarrow> removeEntry \<Rightarrow> refusal list" where
  "dependencyReason ctxs e =
    (case IsDependency (rm_Service e) ctxs of
       None \<Rightarrow> []
     | Some d \<Rightarrow> [Refusal RefuseRemovalIsDependency (rm_Service e @ '' ('' @ dep_Catalog d @ '')'')])"

definition justifyRemovals :: "removeEntry list \<Rightarrow> bundleActivity list \<Rightarrow> dependencyContext list \<Rightarrow> refusal list" where
  "justifyRemovals remove activity ctxs =
    concat (map (\<lambda>e. removalReason activity e @ dependencyReason ctxs e) remove)"

subsection \<open>The context of the four cases\<close>

record applyCtx =
  ac_In :: targetInput
  ac_Role :: liveRole
  ac_Part :: string
  ac_Acct :: string
  ac_CurHash :: string
  ac_CurOthers :: "attachedEntity list"
  ac_DefHash :: string

definition removedOf :: "applyCtx \<Rightarrow> string list" where
  "removedOf c = sortedUnique (map rm_Service (rs_Remove (ti_Intent (ac_In c))))"

definition candidatesOf :: "applyCtx \<Rightarrow> string option list \<Rightarrow> string list" where
  "candidatesOf c texts = sortedUnique (removedOf c @ map re_Service (rs_Retain (ti_Intent (ac_In c))) @
    concat (map notActionNamespaces texts))"

definition checkSize :: "string \<Rightarrow> refusal list" where
  "checkSize doc =
    (if MaxPolicyChars < PolicyChars doc
     then [Refusal RefuseDocumentTooLarge (itoa (PolicyChars doc) @ '' characters excluding whitespace (limit '' @
            itoa MaxPolicyChars @ '')'')]
     else [])"

definition setDiff ::
  "applyCtx \<Rightarrow> string \<Rightarrow> boundaryRef option \<Rightarrow> boundaryRef option \<Rightarrow> string option \<Rightarrow> string option \<Rightarrow> plan
    \<Rightarrow> compileError + plan" where
  "setDiff c caseName before after beforeText afterText p =
    bindR (ExclusionChanges beforeText afterText (candidatesOf c [beforeText, afterText])) (\<lambda>(n, a, u).
    Inr (p\<lparr>pl_Diff := (pl_Diff p)\<lparr>df_Case := caseName, df_BoundaryBefore := before, df_BoundaryAfter := after,
      df_NewlyExcluded := n, df_AlreadyExcluded := a, df_NewlyUnexcluded := u\<rparr>\<rparr>))"

definition addNotes :: "string list \<Rightarrow> plan \<Rightarrow> plan" where
  "addNotes ns p = p\<lparr>pl_Diff := (pl_Diff p)\<lparr>df_Notes := df_Notes (pl_Diff p) @ ns\<rparr>\<rparr>"

definition undoBase :: "applyCtx \<Rightarrow> plan \<Rightarrow> artifactStateFacts \<Rightarrow> compileError + plan" where
  "undoBase c p post =
    (let i = ac_In c;
         u = (evidencePlan (ti_Evidence i) (co_ID (ti_Control i)) PlanUndo (rs_Delivery (ti_Intent i)) (lv_ReadAt (ti_Live i)))
               \<lparr>pl_Eligibility := pl_Eligibility p\<rparr>
     in bindR (statePrecondition post u) (\<lambda>v.
        Inr (v\<lparr>pl_BeforeDocumentHash := as_BoundaryDocumentHash post,
               pl_Impact := emptyImpact\<lparr>im_Consumers := im_Consumers (pl_Impact p),
                 im_OwnerUserIDs := im_OwnerUserIDs (pl_Impact p)\<rparr>,
               pl_Documents := pl_Documents p\<rparr>)))"

definition restoredImpact :: "plan \<Rightarrow> plan" where
  "restoredImpact u = u\<lparr>pl_Impact := (pl_Impact u)\<lparr>im_Restored := im_Restored (pl_Impact u) @
    map (\<lambda>s. \<lparr>is_Service = s, is_Basis = ''undo''\<rparr>) (df_NewlyUnexcluded (pl_Diff u))\<rparr>\<rparr>"

definition definitionFact :: "applyCtx \<Rightarrow> fact" where
  "definitionFact c = \<lparr>fc_Key = FactRoleDefinition, fc_Kind = FactRoleDefinition, fc_Subject = [],
    fc_Before = ac_DefHash c, fc_After = ac_DefHash c, fc_OnlyBefore = True\<rparr>"

definition roleFacts :: "applyCtx \<Rightarrow> bool \<Rightarrow> fact list" where
  "roleFacts c withDefinition = factRole (lr_RoleID (ac_Role c)) # (if withDefinition then [definitionFact c] else [])"

definition postState :: "applyCtx \<Rightarrow> string \<Rightarrow> string \<Rightarrow> attachedEntity list \<Rightarrow> artifactStateFacts" where
  "postState c arn docHash others = stateNormalized
    \<lparr>as_RoleID = lr_RoleID (ac_Role c), as_BoundaryARN = Some arn, as_BoundaryDocumentHash = Some docHash,
     as_AttachmentSet = others @ [\<lparr>ae_Kind = ''role'', ae_ID = lr_RoleID (ac_Role c), ae_Name = lr_Name (ac_Role c),
       ae_Usage = UsageBoundary\<rparr>]\<rparr>"

definition nameTooLong :: "string \<Rightarrow> refusal list" where
  "nameTooLong name = (if MaxPolicyNameLen < int (length name) then [Refusal RefusePolicyNameTooLong name] else [])"

definition nameInUse :: "liveRead \<Rightarrow> string \<Rightarrow> refusal list" where
  "nameInUse live arn =
    (case map_of (lv_Policies live) arn of
       Some (Some existing) \<Rightarrow> [Refusal RefusePolicyNameInUse arn]
     | _ \<Rightarrow> [])"

definition createVersionOp :: "string \<Rightarrow> string \<Rightarrow> planOp" where
  "createVersionOp arn h = (newOp OpCreatePolicyVersion)\<lparr>op_PolicyARN := arn, op_DocumentHash := h, op_SetAsDefault := True\<rparr>"

definition tagOp :: "controlRef \<Rightarrow> string \<Rightarrow> planOp" where
  "tagOp ctl arn = (newOp OpTagPolicy)\<lparr>op_PolicyARN := arn, op_Tags := changeTags ctl\<rparr>"

definition putBoundaryOp :: "string \<Rightarrow> string \<Rightarrow> planOp" where
  "putBoundaryOp name arn = (newOp OpPutRolePermissionsBoundary)\<lparr>op_RoleName := name, op_PolicyARN := arn\<rparr>"

definition deleteBoundaryOp :: "string \<Rightarrow> planOp" where
  "deleteBoundaryOp name = (newOp OpDeleteRolePermissionsBoundary)\<lparr>op_RoleName := name\<rparr>"

definition deletePolicyOps :: "string \<Rightarrow> planOp list" where
  "deletePolicyOps arn = [(newOp OpDeletePolicyVersion)\<lparr>op_PolicyARN := arn, op_Select := SelectAllNonDefault\<rparr>,
    (newOp OpDeletePolicy)\<lparr>op_PolicyARN := arn\<rparr>]"

definition createOp :: "string \<Rightarrow> string \<Rightarrow> string \<Rightarrow> string \<Rightarrow> tags \<Rightarrow> planOp" where
  "createOp arn name path h tgs = (newOp OpCreatePolicy)\<lparr>op_PolicyARN := arn, op_PolicyName := name, op_Path := path,
    op_DocumentHash := h, op_Tags := tgs\<rparr>"

subsection \<open>No boundary\<close>

definition boundaryNameInUse :: "targetInput \<Rightarrow> string \<Rightarrow> refusal list" where
  "boundaryNameInUse i arn =
    (case map_of (lv_Policies (ti_Live i)) arn of
       Some (Some existing) \<Rightarrow>
         if tagval (lp_Tags existing) TagManagedBy = TagManagedByValue \<and>
            tagval (lp_Tags existing) TagWorkspace \<noteq> co_WorkspaceRef (ti_Control i)
         then [Refusal RefuseArtifactOwnedElsewhere arn]
         else [Refusal RefusePolicyNameInUse arn]
     | _ \<Rightarrow> [])"

definition targetProof :: "applyCtx \<Rightarrow> firstAttachmentProof" where
  "targetProof c = (let i = ac_In c in
    ProveFirstAttachment (liveRoleRef (ac_Role c)) (ef_ScanRunID (ti_Evidence i)) (ti_ScanEvidence i)
      (ti_EnabledRegions i) (ti_AccountServices i) (evidenceGaps (ti_Evidence i)))"

definition newBoundaryARN :: "applyCtx \<Rightarrow> string" where
  "newBoundaryARN c = AuthSecBoundaryARN (ac_Part c) (ac_Acct c) (lr_RoleID (ac_Role c))"

definition noneFacts :: "applyCtx \<Rightarrow> string \<Rightarrow> fact list" where
  "noneFacts c h = (let arn = newBoundaryARN c in
    roleFacts c True @ [factBoundary ValueNone arn, factPolicyDoc arn ValueAbsent h,
      factPolicyOwner arn ValueAbsent (controlOwner (ti_Control (ac_In c))), factPolicyUsers arn [] []])"

definition noneUndo :: "applyCtx \<Rightarrow> string \<Rightarrow> string \<Rightarrow> plan \<Rightarrow> compileError + plan" where
  "noneUndo c doc h p =
    (let arn = newBoundaryARN c; owner = controlOwner (ti_Control (ac_In c)) in
     bindR (undoBase c p (postState c arn h [])) (\<lambda>u.
     bindR (setDiff c CaseUndoDeleteNew (Some (BoundaryRef arn h)) None (Some doc) None
       (u\<lparr>pl_DesiredAttachment := AttachmentAbsent, pl_ReplacedBoundaryARN := Some arn,
          pl_ArtifactDisposition := DispositionDelete,
          pl_Ops := deleteBoundaryOp (lr_Name (ac_Role c)) # deletePolicyOps arn\<rparr>)) (\<lambda>v.
     Inr ((restoredImpact v)\<lparr>pl_Facts := roleFacts c False @ [factBoundary arn ValueNone, factPolicyDoc arn h ValueAbsent,
       factPolicyOwner arn owner ValueAbsent, factPolicyUsers arn [] []]\<rparr>))))"

definition applyNone :: "applyCtx \<Rightarrow> plan \<Rightarrow> compileError + (plan \<times> plan option)" where
  "applyNone c p0 =
    (let i = ac_In c; role = ac_Role c; arn = newBoundaryARN c; name = AuthSecBoundaryPrefix @ lr_RoleID role;
         proof' = targetProof c
     in bindR (ExcludeOnlyDocument (removedOf c)) (\<lambda>(doc, h).
        let p1 = (refuse (checkSize doc) (archive h doc (refuse (nameTooLong name) p0)))
                   \<lparr>pl_DesiredBoundaryARN := Some arn, pl_DesiredDocumentHash := Some h, pl_FirstAttachment := True\<rparr>;
            p2 = refuse (Refusals proof') (refuse (boundaryNameInUse i arn) p1);
            p3 = p2\<lparr>pl_Unanalysed := fp_Unanalysed proof',
                    pl_Diff := (pl_Diff p2)\<lparr>df_FirstAttachment := Some proof'\<rparr>,
                    pl_Ops := [createOp arn name AuthSecPolicyPath h (createTags (ti_Control i)),
                               putBoundaryOp (lr_Name role) arn]\<rparr>
        in bindR (setDiff c CaseNoneToAuthSec None (Some (BoundaryRef arn h)) None (Some doc) p3) (\<lambda>p4.
           let p5 = p4\<lparr>pl_Facts := noneFacts c h\<rparr> in
           bindR (noneUndo c doc h p5) (\<lambda>u. Inr (p5, Some u)))))"

subsection \<open>AuthSec's own boundary\<close>

definition ownershipRefusal :: "applyCtx \<Rightarrow> livePolicy \<Rightarrow> refusal list" where
  "ownershipRefusal c cur =
    (let arn = lr_BoundaryARN (ac_Role c); ctl = ti_Control (ac_In c) in
     if tagval (lp_Tags cur) TagManagedBy = TagManagedByValue \<and> tagval (lp_Tags cur) TagWorkspace \<noteq> co_WorkspaceRef ctl
     then [Refusal RefuseArtifactOwnedElsewhere arn]
     else if ownerValue (lp_Tags cur) \<noteq> controlOwner ctl \<or> \<not> owns ctl arn
     then [Refusal RefuseArtifactOtherControl arn]
     else [])"

definition consumersRefusal :: "string \<Rightarrow> string \<Rightarrow> attachedEntity list \<Rightarrow> refusal list" where
  "consumersRefusal arn note others =
    (if others = [] then []
     else [Refusal RefuseConsumersChanged (arn @ '' is used by '' @ itoa (int (length others)) @ '' other entities'' @ note)])"

definition versionOps :: "controlRef \<Rightarrow> string \<Rightarrow> string \<Rightarrow> int \<Rightarrow> planOp list" where
  "versionOps ctl arn h versions = (if MaxPolicyVersions \<le> versions then [pruneOp arn] else []) @
    [createVersionOp arn h, tagOp ctl arn]"

definition versionFacts :: "applyCtx \<Rightarrow> bool \<Rightarrow> string \<Rightarrow> string \<Rightarrow> fact list" where
  "versionFacts c withDefinition before after =
    (let arn = lr_BoundaryARN (ac_Role c); owner = controlOwner (ti_Control (ac_In c)) in
     roleFacts c withDefinition @ [factBoundary arn arn, factPolicyDoc arn before after, factPolicyOwner arn owner owner,
       factPolicyUsers arn (ac_CurOthers c) (ac_CurOthers c)])"

definition authsecUndo :: "applyCtx \<Rightarrow> livePolicy \<Rightarrow> string \<Rightarrow> string \<Rightarrow> plan \<Rightarrow> compileError + plan" where
  "authsecUndo c cur doc h p =
    (let arn = lr_BoundaryARN (ac_Role c); ctl = ti_Control (ac_In c); curHash = ac_CurHash c;
         post = (if MaxPolicyVersions \<le> lp_VersionCount cur then MaxPolicyVersions else lp_VersionCount cur + 1) in
     bindR (undoBase c p (postState c arn h (ac_CurOthers c))) (\<lambda>u0.
     let u1 = u0\<lparr>pl_DesiredAttachment := AttachmentPresent, pl_DesiredBoundaryARN := Some arn,
                pl_DesiredDocumentHash := Some curHash\<rparr>;
         u2 = (if h \<noteq> curHash then u1\<lparr>pl_Ops := pl_Ops u1 @ versionOps ctl arn curHash post\<rparr>
               else addNotes [NoteAlreadyInPlace] u1)
     in bindR (setDiff c CaseUndoEarlierDocument (Some (BoundaryRef arn h)) (Some (BoundaryRef arn curHash))
          (Some doc) (Some (lp_DefaultDocument cur)) u2) (\<lambda>v.
        Inr ((restoredImpact v)\<lparr>pl_Facts := versionFacts c False h curHash\<rparr>))))"

definition applyAuthsec :: "applyCtx \<Rightarrow> livePolicy \<Rightarrow> plan \<Rightarrow> compileError + (plan \<times> plan option)" where
  "applyAuthsec c cur p0 =
    (let arn = lr_BoundaryARN (ac_Role c); ctl = ti_Control (ac_In c); curHash = ac_CurHash c;
         p1 = refuse (consumersRefusal arn [] (ac_CurOthers c)) (refuse (ownershipRefusal c cur) p0)
     in bindR (ExcludeOnlyDocument (removedOf c)) (\<lambda>(doc, h).
        let p2 = (refuse (checkSize doc) (archive h doc p1))\<lparr>pl_DesiredBoundaryARN := Some arn, pl_DesiredDocumentHash := Some h\<rparr>;
            p3 = (if h = curHash then addNotes [NoteAlreadyInPlace] p2
                  else p2\<lparr>pl_Ops := pl_Ops p2 @ versionOps ctl arn h (lp_VersionCount cur)\<rparr>)
        in bindR (setDiff c CaseAuthSecVersion (Some (BoundaryRef arn curHash)) (Some (BoundaryRef arn h))
             (Some (lp_DefaultDocument cur)) (Some doc) p3) (\<lambda>p4.
           let p5 = p4\<lparr>pl_Facts := versionFacts c True curHash h\<rparr> in
           bindR (authsecUndo c cur doc h p5) (\<lambda>u. Inr (p5, Some u)))))"

subsection \<open>A customer's boundary\<close>

definition narrow :: "applyCtx \<Rightarrow> livePolicy \<Rightarrow> plan \<Rightarrow> compileError + (plan \<times> (string \<times> string \<times> narrowing) option)" where
  "narrow c cur p =
    bindR (NarrowCustomerBoundary (lp_DefaultDocument cur) (removedOf c)) (\<lambda>r.
      (case r of
         NarrowRefused ref \<Rightarrow> Inr (refuse [ref] p, None)
       | NarrowedTo doc h n \<Rightarrow> Inr (refuse (checkSize doc) (archive h doc p), Some (doc, h, n))))"

definition customerDirect :: "string \<Rightarrow> plan \<Rightarrow> plan" where
  "customerDirect detail p =
    refuse (if pl_Delivery p = DeliveryDirect then [Refusal RefuseCustomerBoundaryDirect detail] else [])
      (p\<lparr>pl_Eligibility := EligibilityIaCOnly\<rparr>)"

definition inPlaceFacts :: "applyCtx \<Rightarrow> bool \<Rightarrow> string \<Rightarrow> string \<Rightarrow> fact list" where
  "inPlaceFacts c withDefinition before after =
    (let arn = lr_BoundaryARN (ac_Role c) in
     roleFacts c withDefinition @ [factBoundary arn arn, factPolicyDoc arn before after, factPolicyUsers arn [] []])"

definition exclusiveUndo :: "applyCtx \<Rightarrow> livePolicy \<Rightarrow> string \<Rightarrow> string \<Rightarrow> narrowing \<Rightarrow> plan \<Rightarrow> compileError + plan" where
  "exclusiveUndo c cur doc h n p =
    (let arn = lr_BoundaryARN (ac_Role c); curHash = ac_CurHash c in
     bindR (undoBase c p (postState c arn h [])) (\<lambda>u0.
     let u1 = u0\<lparr>pl_DesiredAttachment := AttachmentPresent, pl_DesiredBoundaryARN := Some arn,
                pl_DesiredDocumentHash := Some curHash\<rparr>;
         u2 = (if nw_Changed n then u1\<lparr>pl_Ops := [createVersionOp arn curHash]\<rparr> else addNotes [NoteAlreadyInPlace] u1)
     in bindR (setDiff c CaseUndoCustomerInPlace (Some (BoundaryRef arn h)) (Some (BoundaryRef arn curHash))
          (Some doc) (Some (lp_DefaultDocument cur)) u2) (\<lambda>v.
        Inr ((restoredImpact v)\<lparr>pl_Facts := inPlaceFacts c False h curHash\<rparr>))))"

definition customerExclusive :: "applyCtx \<Rightarrow> livePolicy \<Rightarrow> plan \<Rightarrow> compileError + (plan \<times> plan option)" where
  "customerExclusive c cur p0 =
    (let arn = lr_BoundaryARN (ac_Role c); curHash = ac_CurHash c;
         p1 = customerDirect (arn @ '' is a customer boundary; AuthSec never edits it in AWS (J2/J1 only)'') p0
     in bindR (narrow c cur p1) (\<lambda>(p2, r).
        (case r of
           None \<Rightarrow> Inr (p2\<lparr>pl_DesiredBoundaryARN := Some arn, pl_Facts := roleFacts c True\<rparr>, None)
         | Some (doc, h, n) \<Rightarrow>
             let p3 = p2\<lparr>pl_Diff := (pl_Diff p2)\<lparr>df_Narrowing := Some n\<rparr>, pl_DesiredBoundaryARN := Some arn,
                        pl_DesiredDocumentHash := Some h\<rparr>;
                 p4 = (if \<not> nw_Changed n then addNotes [NoteNothingToNarrow, NoteAlreadyInPlace] p3
                       else p3\<lparr>pl_Ops := [createVersionOp arn h]\<rparr>)
             in bindR (setDiff c CaseCustomerInPlace (Some (BoundaryRef arn curHash)) (Some (BoundaryRef arn h))
                  (Some (lp_DefaultDocument cur)) (Some doc) p4) (\<lambda>p5.
                let p6 = p5\<lparr>pl_Facts := inPlaceFacts c True curHash h\<rparr> in
                bindR (exclusiveUndo c cur doc h n p6) (\<lambda>u. Inr (p6, Some u))))))"

definition sharedFacts :: "applyCtx \<Rightarrow> fact list" where
  "sharedFacts c = (let shared = lr_BoundaryARN (ac_Role c) in
    [factPolicyDoc shared (ac_CurHash c) (ac_CurHash c), factPolicyUsers shared (ac_CurOthers c) (ac_CurOthers c)])"

text \<open>A shared boundary that already excludes the services: no copy is made.\<close>

definition sharedUnchanged :: "applyCtx \<Rightarrow> livePolicy \<Rightarrow> plan \<Rightarrow> compileError + (plan \<times> plan option)" where
  "sharedUnchanged c cur p0 =
    (let shared = lr_BoundaryARN (ac_Role c); curHash = ac_CurHash c; t = Some (lp_DefaultDocument cur);
         at' = Some (BoundaryRef shared curHash)
     in bindR (setDiff c CaseCustomerSplit at' at' t t
          (addNotes [NoteNothingToNarrow, NoteAlreadyInPlace]
            (p0\<lparr>pl_DesiredBoundaryARN := Some shared, pl_DesiredDocumentHash := Some curHash\<rparr>))) (\<lambda>p1.
        let p2 = p1\<lparr>pl_Facts := roleFacts c True @ factBoundary shared shared # sharedFacts c\<rparr> in
        bindR (undoBase c p2 (postState c shared curHash (ac_CurOthers c))) (\<lambda>u.
        bindR (setDiff c CaseUndoSplit at' at' t t
          (addNotes [NoteAlreadyInPlace] (u\<lparr>pl_DesiredAttachment := AttachmentPresent,
            pl_DesiredBoundaryARN := Some shared, pl_DesiredDocumentHash := Some curHash\<rparr>))) (\<lambda>v.
        Inr (p2, Some (v\<lparr>pl_Facts := roleFacts c False @ factBoundary shared shared # sharedFacts c\<rparr>))))))"

definition splitUndo :: "applyCtx \<Rightarrow> livePolicy \<Rightarrow> string \<Rightarrow> string \<Rightarrow> string \<Rightarrow> plan \<Rightarrow> compileError + plan" where
  "splitUndo c cur copyARN doc h p =
    (let shared = lr_BoundaryARN (ac_Role c); curHash = ac_CurHash c in
     bindR (undoBase c p (postState c copyARN h [])) (\<lambda>u.
     bindR (setDiff c CaseUndoSplit (Some (BoundaryRef copyARN h)) (Some (BoundaryRef shared curHash))
       (Some doc) (Some (lp_DefaultDocument cur))
       (u\<lparr>pl_DesiredAttachment := AttachmentPresent, pl_DesiredBoundaryARN := Some shared,
          pl_DesiredDocumentHash := Some curHash, pl_ReplacedBoundaryARN := Some copyARN,
          pl_ArtifactDisposition := DispositionDelete,
          pl_Ops := putBoundaryOp (lr_Name (ac_Role c)) shared # deletePolicyOps copyARN\<rparr>)) (\<lambda>v.
     Inr ((restoredImpact v)\<lparr>pl_Facts := roleFacts c False @ [factBoundary copyARN shared,
       factPolicyDoc copyARN h ValueAbsent, factPolicyUsers copyARN [] []] @ sharedFacts c\<rparr>))))"

definition splitCopy :: "applyCtx \<Rightarrow> livePolicy \<Rightarrow> string \<Rightarrow> string \<Rightarrow> string \<Rightarrow> string \<Rightarrow> plan \<Rightarrow> compileError + (plan \<times> plan option)" where
  "splitCopy c cur copyARN copyName doc h p0 =
    (let shared = lr_BoundaryARN (ac_Role c); curHash = ac_CurHash c;
         p1 = refuse (nameInUse (ti_Live (ac_In c)) copyARN) p0
     in bindR (setDiff c CaseCustomerSplit (Some (BoundaryRef shared curHash)) (Some (BoundaryRef copyARN h))
          (Some (lp_DefaultDocument cur)) (Some doc)
          (p1\<lparr>pl_DesiredBoundaryARN := Some copyARN, pl_DesiredDocumentHash := Some h,
              pl_ReplacedBoundaryARN := Some shared,
              pl_Ops := [createOp copyARN copyName (lp_Path cur) h [], putBoundaryOp (lr_Name (ac_Role c)) copyARN]\<rparr>)) (\<lambda>p2.
        let p3 = p2\<lparr>pl_Facts := roleFacts c True @ [factBoundary shared copyARN, factPolicyDoc copyARN ValueAbsent h,
                   factPolicyUsers copyARN [] []] @ sharedFacts c\<rparr> in
        bindR (splitUndo c cur copyARN doc h p3) (\<lambda>u. Inr (p3, Some u))))"

definition customerShared :: "applyCtx \<Rightarrow> livePolicy \<Rightarrow> plan \<Rightarrow> compileError + (plan \<times> plan option)" where
  "customerShared c cur p0 =
    (let shared = lr_BoundaryARN (ac_Role c);
         p1 = customerDirect (shared @ '' is a shared customer boundary; AuthSec proposes a split copy only through J2/J1'') p0;
         (copyARN, copyName) = SplitCopyARN (ac_Part c) (ac_Acct c) (lp_Path cur) (lp_Name cur) (lr_RoleID (ac_Role c))
     in bindR (narrow c cur (refuse (nameTooLong copyName) p1)) (\<lambda>(p2, r).
        (case r of
           None \<Rightarrow> Inr (p2\<lparr>pl_DesiredBoundaryARN := Some copyARN, pl_Facts := roleFacts c True\<rparr>, None)
         | Some (doc, h, n) \<Rightarrow>
             let p3 = p2\<lparr>pl_Diff := (pl_Diff p2)\<lparr>df_Narrowing := Some n\<rparr>\<rparr> in
             if \<not> nw_Changed n then sharedUnchanged c cur p3
             else splitCopy c cur copyARN copyName doc h p3)))"

subsection \<open>One target\<close>

definition applyStart :: "targetInput \<Rightarrow> plan" where
  "applyStart i = (evidencePlan (ti_Evidence i) (co_ID (ti_Control i)) PlanApply (rs_Delivery (ti_Intent i)) (lv_ReadAt (ti_Live i)))
    \<lparr>pl_DesiredAttachment := AttachmentPresent,
     pl_Impact := impactFor (bu_Facts (ef_Bundle (ti_Evidence i))) (rs_Remove (ti_Intent i)) (rs_Retain (ti_Intent i))\<rparr>"

definition validateTarget :: "targetInput \<Rightarrow> compileError + unit" where
  "validateTarget i =
    bindR (checkR (validControl (ti_Control i)) (CompileError ErrCodeInput [''the control needs an id, account, RoleId and workspace ref'']))
      (\<lambda>_.
    bindR (let es = ValidateIntent \<lparr>in_Kind = IntentRightSizeServices, in_RightSize = Some (ti_Intent i),
                      in_RemoveControl = None, in_DedicatedIdentity = None\<rparr>
           in checkR (es = []) (CompileError ErrCodeInvalidIntent (map ie_Field es))) (\<lambda>_.
    bindR (checkR (\<exists>s \<in> set (rs_Subjects (ti_Intent i)). su_RoleID s = co_RoleID (ti_Control i) \<and>
             su_AccountID s = co_AccountID (ti_Control i))
            (CompileError ErrCodeInput [''the control's role is not a subject of the intent''])) (\<lambda>_.
    bindR (validateEvidence (ti_Evidence i) (co_RoleID (ti_Control i))) (\<lambda>_.
    checkR (joinWith '','' (sortedUnique (map rm_Service (rs_Remove (ti_Intent i)))) =
            joinWith '','' (bf_RemovedServices (bu_Facts (ef_Bundle (ti_Evidence i)))))
      (CompileError ErrCodeEvidenceMismatch [''the bundle was built for another removal set''])))))"

text \<open>The switch on the role's current boundary.\<close>

definition applyByBoundary :: "targetInput \<Rightarrow> liveRole \<Rightarrow> string \<Rightarrow> plan \<Rightarrow> compileError + (plan \<times> plan option)" where
  "applyByBoundary i role defHash p =
    (let arn = lr_BoundaryARN role;
         c = \<lparr>ac_In = i, ac_Role = role, ac_Part = liveRolePartition role, ac_Acct = lr_AccountID role, ac_CurHash = [],
              ac_CurOthers = [], ac_DefHash = defHash\<rparr>
     in if arn = [] then applyNone c p
        else bindR (livePolicyOf (ti_Live i) arn) (\<lambda>q.
          (case q of
             None \<Rightarrow> Inl (CompileError ErrCodeLiveIncomplete [''the role's boundary returned NoSuchEntity''])
           | Some cur \<Rightarrow>
               bindR (archiveText (lp_DefaultDocument cur) p) (\<lambda>(curHash, p1).
                 let p2 = p1\<lparr>pl_BeforeDocumentHash := Some curHash\<rparr>;
                     others = otherUsers (lp_AttachmentSet cur) (lr_RoleID role);
                     d = c\<lparr>ac_CurHash := curHash, ac_CurOthers := others\<rparr>
                 in if isAuthSecPath arn then applyAuthsec d cur p2
                    else if others = [] then customerExclusive d cur p2
                    else customerShared d cur p2))))"

definition sealBoth :: "plan \<times> plan option \<Rightarrow> compileError + targetPlans" where
  "sealBoth pu =
    bindR (seal (fst pu)) (\<lambda>ap.
      if \<not> Eligible ap then Inr \<lparr>tp_Apply = ap, tp_Undo = None\<rparr>
      else (case snd pu of
              None \<Rightarrow> Inl NilDereference
            | Some u \<Rightarrow> bindR (seal u) (\<lambda>v. Inr \<lparr>tp_Apply = ap, tp_Undo = Some v\<rparr>)))"

definition CompileTarget :: "targetInput \<Rightarrow> compileError + targetPlans" where
  "CompileTarget i =
    bindR (validateTarget i) (\<lambda>_.
      let ap = applyStart i; gone = checkIncarnation (ti_Live i) (co_RoleID (ti_Control i)) in
      (case (gone, lv_Role (ti_Live i)) of
         ([], Some role) \<Rightarrow>
           let p1 = refuse (RoleEligibility role) ap;
               p2 = refuse (justifyRemovals (rs_Remove (ti_Intent i)) (bf_Activity (bu_Facts (ef_Bundle (ti_Evidence i))))
                      (ti_DependencyContexts i)) p1
           in bindR (ApplyPreconditionFor (ti_Live i)) (\<lambda>pre.
              bindR (applyPreconditionOf pre p2) (\<lambda>p3.
              bindR (roleDefinitionHash role) (\<lambda>defHash.
              bindR (applyByBoundary i role defHash p3) sealBoth)))
       | _ \<Rightarrow>
           bindR (goneRolePrecondition (ti_Live i) (co_RoleID (ti_Control i)) (refuse gone ap)) (\<lambda>p1.
           bindR (seal p1) (\<lambda>p2. Inr \<lparr>tp_Apply = p2, tp_Undo = None\<rparr>))))"

end
