(* ===== verification/Restore.thy ===== *)
theory Restore
  imports Compile
begin

section \<open>Role-only recovery and the removal of a control (internal/igagov/compile.go)\<close>

text \<open>
  The two plans that give a role back its earlier boundary outside an ordinary undo: the
  role-only recovery of an undo whose artifact gained other users, and the restoring of the
  control's baseline.
\<close>

definition RefuseChangedOutsideAuthSec :: string where [go_consts]: "RefuseChangedOutsideAuthSec = ''artifact_changed_outside_authsec''"
definition RefuseRoleOnlyNotNeeded :: string where [go_consts]: "RefuseRoleOnlyNotNeeded = ''role_only_recovery_not_needed''"
definition RefuseRoleOnlyUnavailable :: string where [go_consts]: "RefuseRoleOnlyUnavailable = ''role_only_recovery_unavailable''"
definition RefuseBaselineMissing :: string where [go_consts]: "RefuseBaselineMissing = ''baseline_boundary_missing''"
definition RefuseDirectNeedsAuthSecTarget :: string where [go_consts]: "RefuseDirectNeedsAuthSecTarget = ''direct_requires_authsec_boundary''"
definition CaseRecoverDetach :: string where [go_consts]: "CaseRecoverDetach = ''role_only_detach''"
definition CaseRecoverNewPolicy :: string where [go_consts]: "CaseRecoverNewPolicy = ''role_only_new_policy''"
definition CaseRecoverSplit :: string where [go_consts]: "CaseRecoverSplit = ''role_only_repoint_shared''"
definition CaseRemoveDetach :: string where [go_consts]: "CaseRemoveDetach = ''remove_detach''"
definition CaseRemoveInPlace :: string where [go_consts]: "CaseRemoveInPlace = ''remove_restore_in_place''"
definition CaseRemoveRepoint :: string where [go_consts]: "CaseRemoveRepoint = ''remove_repoint_baseline''"
definition NoteBaselineDocChanged :: string where [go_consts]: "NoteBaselineDocChanged = ''baseline_document_changed''"
definition NoteCopyRetained :: string where [go_consts]: "NoteCopyRetained = ''copy_retained_for_other_users''"
definition NotePolicyRetained :: string where [go_consts]: "NotePolicyRetained = ''policy_retained_for_other_users''"

subsection \<open>Reading a stored precondition\<close>

text \<open>
  \<^verbatim>\<open>json.Unmarshal\<close> into the state of an undo plan's precondition: names are compared without
  case, null leaves a string as it is and clears a pointer, a value of another type is an error.
  The text is read with the reader of canonical JSON, which wrote it.
\<close>

definition jfield :: "string \<Rightarrow> (string \<times> json) list \<Rightarrow> json option" where
  "jfield k ms = map_option snd (find (\<lambda>m. equalFold (fst m) k) (rev ms))"

definition readString :: "json option \<Rightarrow> string option" where
  "readString v = (case v of None \<Rightarrow> Some [] | Some JNull \<Rightarrow> Some [] | Some (JString s) \<Rightarrow> Some s | _ \<Rightarrow> None)"

definition readPointer :: "json option \<Rightarrow> string option option" where
  "readPointer v = (case v of None \<Rightarrow> Some None | Some JNull \<Rightarrow> Some None | Some (JString s) \<Rightarrow> Some (Some s) | _ \<Rightarrow> None)"

definition readEntity :: "json \<Rightarrow> attachedEntity option" where
  "readEntity v =
    (case v of
       JNull \<Rightarrow> Some \<lparr>ae_Kind = [], ae_ID = [], ae_Name = [], ae_Usage = []\<rparr>
     | JObject ms \<Rightarrow>
         (case (readString (jfield ''kind'' ms), readString (jfield ''id'' ms), readString (jfield ''name'' ms),
                readString (jfield ''usage'' ms)) of
            (Some k, Some i, Some n, Some u) \<Rightarrow> Some \<lparr>ae_Kind = k, ae_ID = i, ae_Name = n, ae_Usage = u\<rparr>
          | _ \<Rightarrow> None)
     | _ \<Rightarrow> None)"

definition readEntities :: "json option \<Rightarrow> attachedEntity list option" where
  "readEntities v =
    (case v of
       None \<Rightarrow> Some []
     | Some JNull \<Rightarrow> Some []
     | Some (JArray vs) \<Rightarrow> those (map readEntity vs)
     | _ \<Rightarrow> None)"

definition readState :: "json \<Rightarrow> artifactStateFacts option" where
  "readState v =
    (case v of
       JNull \<Rightarrow> Some (noRoleState [])
     | JObject ms \<Rightarrow>
         (case (readString (jfield ''role_id'' ms), readPointer (jfield ''boundary_arn'' ms),
                readPointer (jfield ''boundary_document_hash'' ms), readEntities (jfield ''attachment_set'' ms)) of
            (Some r, Some a, Some h, Some es) \<Rightarrow>
              Some \<lparr>as_RoleID = r, as_BoundaryARN = a, as_BoundaryDocumentHash = h, as_AttachmentSet = es\<rparr>
          | _ \<Rightarrow> None)
     | _ \<Rightarrow> None)"

definition readPrecondition :: "string \<Rightarrow> artifactStateFacts option" where
  "readPrecondition text' =
    (case parseJSON text' of
       Inr JNull \<Rightarrow> Some (noRoleState [])
     | Inr (JObject ms) \<Rightarrow> (case jfield ''artifact_state'' ms of None \<Rightarrow> Some (noRoleState []) | Some v \<Rightarrow> readState v)
     | _ \<Rightarrow> None)"

subsection \<open>Role-only recovery\<close>

record recoveryInput =
  ri_Control :: controlRef
  ri_Undo :: plan
  ri_UndoneDeploymentID :: string
  ri_EarlierDocument :: string
  ri_Live :: liveRead
  ri_Evidence :: evidenceRef

definition orNone :: "string option \<Rightarrow> string" where
  "orNone v = derefOr v ''none''"

definition notInstalled :: "artifactStateFacts \<Rightarrow> artifactStateFacts \<Rightarrow> refusal list" where
  "notInstalled st undoState =
    (let installed = derefOr (as_BoundaryARN undoState) [] in
     if installed = [] \<or> derefOr (as_BoundaryARN st) [] \<noteq> installed \<or>
        derefOr (as_BoundaryDocumentHash st) [] \<noteq> derefOr (as_BoundaryDocumentHash undoState) []
     then [Refusal RefuseChangedOutsideAuthSec (''boundary '' @ orNone (as_BoundaryARN st) @ '' / '' @
            orNone (as_BoundaryDocumentHash st) @ '' is not what the apply left ('' @ installed @ '' / '' @
            orNone (as_BoundaryDocumentHash undoState) @ '')'')]
     else [])"

definition recoverDetach ::
  "recoveryInput \<Rightarrow> liveRole \<Rightarrow> string \<Rightarrow> string \<Rightarrow> attachedEntity list \<Rightarrow> plan \<Rightarrow> plan" where
  "recoverDetach i role installed docHash others p =
    (let owner = controlOwner (ri_Control i) in
     p\<lparr>pl_DesiredAttachment := AttachmentAbsent, pl_Ops := [deleteBoundaryOp (lr_Name role)],
       pl_Diff := (pl_Diff p)\<lparr>df_Case := CaseRecoverDetach, df_BoundaryBefore := Some (BoundaryRef installed docHash)\<rparr>,
       pl_Facts := [factRole (lr_RoleID role), factBoundary installed ValueNone, factPolicyDoc installed docHash docHash,
         factPolicyOwner installed owner owner, factPolicyUsers installed others others]\<rparr>)"

definition recoverNewPolicy ::
  "recoveryInput \<Rightarrow> liveRole \<Rightarrow> string \<Rightarrow> string \<Rightarrow> attachedEntity list \<Rightarrow> plan \<Rightarrow> compileError + plan" where
  "recoverNewPolicy i role installed docHash others p =
    (if ri_EarlierDocument i = []
     then Inl (CompileError ErrCodeInput [''the earlier document's text is needed for a -u policy''])
     else bindR (archiveText (ri_EarlierDocument i) p) (\<lambda>(eh, p1).
       if eh \<noteq> derefOr (pl_DesiredDocumentHash (ri_Undo i)) []
       then Inl (CompileError ErrCodeInput [''the earlier document does not hash to the undo's desired document''])
       else let (uarn, uname) = RecoveryPolicyARN (liveRolePartition role) (lr_AccountID role) (lr_RoleID role) (ri_UndoneDeploymentID i);
                owner = controlOwner (ri_Control i);
                p2 = refuse (nameInUse (ri_Live i) uarn) p1
            in Inr (p2\<lparr>pl_DesiredAttachment := AttachmentPresent, pl_DesiredBoundaryARN := Some uarn,
                 pl_DesiredDocumentHash := Some eh,
                 pl_Ops := [createOp uarn uname AuthSecPolicyPath eh (createTags (ri_Control i)), putBoundaryOp (lr_Name role) uarn],
                 pl_Diff := (pl_Diff p2)\<lparr>df_Case := CaseRecoverNewPolicy,
                   df_BoundaryBefore := Some (BoundaryRef installed docHash), df_BoundaryAfter := Some (BoundaryRef uarn eh)\<rparr>,
                 pl_Facts := [factRole (lr_RoleID role), factBoundary installed uarn,
                   factPolicyDoc uarn ValueAbsent eh, factPolicyOwner uarn ValueAbsent owner, factPolicyUsers uarn [] [],
                   factPolicyDoc installed docHash docHash, factPolicyOwner installed owner owner,
                   factPolicyUsers installed others others]\<rparr>)))"

definition recoverSplit ::
  "recoveryInput \<Rightarrow> liveRole \<Rightarrow> string \<Rightarrow> string \<Rightarrow> string \<Rightarrow> attachedEntity list \<Rightarrow> plan \<Rightarrow> compileError + plan" where
  "recoverSplit i role shared installed docHash others p =
    bindR (livePolicyOf (ri_Live i) shared) (\<lambda>q.
      (case q of
         None \<Rightarrow> Inr ((refuse [Refusal RefuseBaselineMissing shared] p)\<lparr>pl_DesiredAttachment := AttachmentPresent,
                     pl_DesiredBoundaryARN := Some shared\<rparr>)
       | Some sp \<Rightarrow>
           bindR (archiveText (lp_DefaultDocument sp) p) (\<lambda>(sh, p1).
             let sOthers = otherUsers (lp_AttachmentSet sp) (lr_RoleID role) in
             Inr (addNotes [NoteCopyRetained] (p1\<lparr>pl_DesiredAttachment := AttachmentPresent,
               pl_DesiredBoundaryARN := Some shared, pl_DesiredDocumentHash := Some sh,
               pl_Ops := [putBoundaryOp (lr_Name role) shared],
               pl_Diff := (pl_Diff p1)\<lparr>df_Case := CaseRecoverSplit,
                 df_BoundaryBefore := Some (BoundaryRef installed docHash), df_BoundaryAfter := Some (BoundaryRef shared sh)\<rparr>,
               pl_Facts := [factRole (lr_RoleID role), factBoundary installed shared,
                 factPolicyDoc installed docHash docHash, factPolicyUsers installed others others,
                 factPolicyDoc shared sh sh, factPolicyUsers shared sOthers sOthers]\<rparr>)))))"

definition recoverCase ::
  "recoveryInput \<Rightarrow> liveRole \<Rightarrow> string \<Rightarrow> string \<Rightarrow> attachedEntity list \<Rightarrow> plan \<Rightarrow> compileError + plan" where
  "recoverCase i role installed docHash others p =
    (let u = ri_Undo i in
     if pl_DesiredAttachment u = AttachmentAbsent then Inr (recoverDetach i role installed docHash others p)
     else if pl_ReplacedBoundaryARN u = None \<and> isAuthSecPath (derefOr (pl_DesiredBoundaryARN u) [])
     then recoverNewPolicy i role installed docHash others p
     else (case (pl_ReplacedBoundaryARN u, pl_DesiredBoundaryARN u) of
             (Some replaced, Some shared) \<Rightarrow> recoverSplit i role shared installed docHash others p
           | _ \<Rightarrow> Inr ((refuse [Refusal RefuseRoleOnlyUnavailable
               ''the boundary is a customer document narrowed in place; restore it through the customer's own change''] p)
               \<lparr>pl_DesiredAttachment := pl_DesiredAttachment u\<rparr>)))"

text \<open>The policies of operations that direct delivery may not write.\<close>

definition foreignTargets :: "planOp list \<Rightarrow> refusal list" where
  "foreignTargets ops = map (\<lambda>q. Refusal RefuseDirectNeedsAuthSecTarget (op_PolicyARN q))
    (filter (\<lambda>q. op_PolicyARN q \<noteq> [] \<and> \<not> isAuthSecPath (op_PolicyARN q)) ops)"

definition recoverStart :: "recoveryInput \<Rightarrow> plan" where
  "recoverStart i =
    (evidencePlan (ri_Evidence i) (co_ID (ri_Control i)) PlanUndo (pl_Delivery (ri_Undo i)) (lv_ReadAt (ri_Live i)))
      \<lparr>pl_Eligibility := pl_Eligibility (ri_Undo i), pl_ArtifactDisposition := DispositionRetainShared,
       pl_Impact := pl_Impact (ri_Undo i)\<rparr>"

definition recoverGone :: "recoveryInput \<Rightarrow> artifactStateFacts \<Rightarrow> refusal list \<Rightarrow> plan \<Rightarrow> compileError + plan" where
  "recoverGone i undoState rs p =
    bindR (statePrecondition (noRoleState (co_RoleID (ri_Control i)))
      ((refuse rs p)\<lparr>pl_DesiredAttachment := pl_DesiredAttachment (ri_Undo i),
        pl_ReplacedBoundaryARN := Some (derefOr (as_BoundaryARN undoState) ''unknown'')\<rparr>)) seal"

definition recoverFinish :: "plan \<Rightarrow> compileError + plan" where
  "recoverFinish p =
    (let q = (if df_Case (pl_Diff p) \<noteq> CaseRecoverSplit \<and> df_Case (pl_Diff p) \<noteq> [] then addNotes [NotePolicyRetained] p else p)
     in seal (refuse (if pl_Delivery q = DeliveryDirect then foreignTargets (pl_Ops q) else []) q))"

definition recoverLive :: "recoveryInput \<Rightarrow> artifactStateFacts \<Rightarrow> liveRole \<Rightarrow> plan \<Rightarrow> compileError + plan" where
  "recoverLive i undoState role p =
    bindR (ArtifactState (ri_Live i)) (\<lambda>st.
    bindR (statePrecondition st p) (\<lambda>p1.
      let installed = derefOr (as_BoundaryARN undoState) [];
          others = otherUsers (as_AttachmentSet st) (lr_RoleID role);
          p2 = p1\<lparr>pl_BeforeDocumentHash := as_BoundaryDocumentHash st, pl_ReplacedBoundaryARN := Some installed\<rparr>;
          p3 = refuse (if others = [] then [Refusal RefuseRoleOnlyNotNeeded (installed @ '' has no other users; run the undo itself'')] else [])
                 (refuse (notInstalled st undoState) p2)
      in bindR (recoverCase i role installed (derefOr (as_BoundaryDocumentHash undoState) []) others p3) recoverFinish))"

definition CompileRoleOnlyRecovery :: "recoveryInput \<Rightarrow> compileError + plan" where
  "CompileRoleOnlyRecovery i =
    bindR (checkR (validControl (ri_Control i)) (CompileError ErrCodeInput [''the control needs an id, account, RoleId and workspace ref'']))
      (\<lambda>_.
    bindR (checkR (pl_Kind (ri_Undo i) = PlanUndo \<and> pl_ControlID (ri_Undo i) = co_ID (ri_Control i))
            (CompileError ErrCodeInput [''role-only recovery derives from this control's undo plan''])) (\<lambda>_.
    bindR (validateEvidence (ri_Evidence i) (co_RoleID (ri_Control i))) (\<lambda>_.
      (case readPrecondition (pl_Precondition (ri_Undo i)) of
         None \<Rightarrow> Inl (CompileError ErrCodeInput [''the undo plan's precondition is not an artifact_state''])
       | Some undoState \<Rightarrow>
           let gone = checkIncarnation (ri_Live i) (co_RoleID (ri_Control i)) in
           (case (gone, lv_Role (ri_Live i)) of
              ([], Some role) \<Rightarrow> recoverLive i undoState role (recoverStart i)
            | _ \<Rightarrow> recoverGone i undoState gone (recoverStart i))))))"

subsection \<open>Removing a control\<close>

record baseline =
  bn_BoundaryARN :: "string option"
  bn_DocumentHash :: "string option"
  bn_Document :: string

record removeControlInput =
  rv_Control :: controlRef
  rv_Baseline :: baseline
  rv_LastDeployed :: boundaryRef
  rv_Delivery :: string
  rv_Live :: liveRead
  rv_Evidence :: evidenceRef
  rv_ExcludedServices :: "string list"

definition removeStart :: "removeControlInput \<Rightarrow> plan" where
  "removeStart i =
    (let f = bu_Facts (ef_Bundle (rv_Evidence i)) in
     (evidencePlan (rv_Evidence i) (co_ID (rv_Control i)) PlanRemoveControl (rv_Delivery i) (lv_ReadAt (rv_Live i)))
       \<lparr>pl_Impact := emptyImpact\<lparr>im_Consumers := bf_Consumers f, im_OwnerUserIDs := bf_Owners f\<rparr>\<rparr>)"

definition removeGone :: "removeControlInput \<Rightarrow> refusal list \<Rightarrow> plan \<Rightarrow> compileError + plan" where
  "removeGone i rs p =
    bindR (statePrecondition (noRoleState (co_RoleID (rv_Control i)))
      ((refuse rs p)\<lparr>pl_DesiredAttachment := AttachmentAbsent, pl_ArtifactDisposition := DispositionDelete,
        pl_ReplacedBoundaryARN := Some (br_ARN (rv_LastDeployed i))\<rparr>)) seal"

definition curOwnerFacts :: "string \<Rightarrow> string \<Rightarrow> string \<Rightarrow> fact list" where
  "curOwnerFacts cur before after = (if isAuthSecPath cur then [factPolicyOwner cur before after] else [])"

definition notLastDeployed :: "removeControlInput \<Rightarrow> string \<Rightarrow> string \<Rightarrow> refusal list" where
  "notLastDeployed i cur curHash =
    (let l = rv_LastDeployed i in
     if cur \<noteq> br_ARN l \<or> curHash \<noteq> br_DocumentHash l
     then [Refusal RefuseChangedOutsideAuthSec (''the role's boundary is '' @ cur @ '' / '' @ curHash @
            '', not what AuthSec last deployed ('' @ br_ARN l @ '' / '' @ br_DocumentHash l @ '')'')]
     else [])"

record removeCtx =
  rx_In :: removeControlInput
  rx_Role :: liveRole
  rx_Cur :: string
  rx_CurHash :: string
  rx_CurPol :: livePolicy
  rx_Others :: "attachedEntity list"

text \<open>The facts on the policy that is replaced: deleted without other users, kept with them.\<close>

definition replacedFacts :: "removeCtx \<Rightarrow> fact list" where
  "replacedFacts c =
    (let cur = rx_Cur c; h = rx_CurHash c; others = rx_Others c; owner = controlOwner (rv_Control (rx_In c)) in
     if others = [] then [factPolicyDoc cur h ValueAbsent, factPolicyUsers cur [] []] @ curOwnerFacts cur owner ValueAbsent
     else [factPolicyDoc cur h h, factPolicyUsers cur others others] @ curOwnerFacts cur owner owner)"

definition removeDetach :: "removeCtx \<Rightarrow> plan \<Rightarrow> plan" where
  "removeDetach c p0 =
    (let cur = rx_Cur c; name = lr_Name (rx_Role c);
         p = p0\<lparr>pl_DesiredAttachment := AttachmentAbsent, pl_ReplacedBoundaryARN := Some cur,
               pl_Diff := (pl_Diff p0)\<lparr>df_Case := CaseRemoveDetach\<rparr>,
               pl_Facts := factRole (lr_RoleID (rx_Role c)) # factBoundary cur ValueNone # replacedFacts c\<rparr>
     in if rx_Others c = []
        then p\<lparr>pl_ArtifactDisposition := DispositionDelete, pl_Ops := deleteBoundaryOp name # deletePolicyOps cur\<rparr>
        else addNotes [NotePolicyRetained]
               (p\<lparr>pl_ArtifactDisposition := DispositionRetainShared, pl_Ops := [deleteBoundaryOp name]\<rparr>))"

definition removeInPlace :: "removeCtx \<Rightarrow> string \<Rightarrow> plan \<Rightarrow> compileError + plan" where
  "removeInPlace c baseHash p0 =
    (let cur = rx_Cur c; h = rx_CurHash c; i = rx_In c; others = rx_Others c; owner = controlOwner (rv_Control i) in
     bindR (archiveText (bn_Document (rv_Baseline i)) p0) (\<lambda>(bh, p1).
       if bh \<noteq> baseHash then Inl (CompileError ErrCodeInput [''the baseline document does not hash to the recorded baseline''])
       else
         let p2 = refuse (consumersRefusal cur ''; restoring its document would change them'' others) p1;
             p3 = p2\<lparr>pl_DesiredAttachment := AttachmentPresent, pl_DesiredBoundaryARN := Some cur,
                    pl_DesiredDocumentHash := Some bh, pl_Diff := (pl_Diff p2)\<lparr>df_Case := CaseRemoveInPlace\<rparr>\<rparr>;
             p4 = (if bh = h then addNotes [NoteAlreadyInPlace] p3
                   else if isAuthSecPath cur
                   then p3\<lparr>pl_Ops := pl_Ops p3 @ versionOps (rv_Control i) cur bh (lp_VersionCount (rx_CurPol c))\<rparr>
                   else p3\<lparr>pl_Ops := [createVersionOp cur bh]\<rparr>)
         in Inr (p4\<lparr>pl_Facts := [factRole (lr_RoleID (rx_Role c)), factBoundary cur cur, factPolicyDoc cur h bh,
              factPolicyUsers cur others others] @ curOwnerFacts cur owner owner\<rparr>)))"

definition repointBase :: "removeCtx \<Rightarrow> string \<Rightarrow> plan \<Rightarrow> plan" where
  "repointBase c b p = p\<lparr>pl_DesiredAttachment := AttachmentPresent, pl_DesiredBoundaryARN := Some b,
    pl_ReplacedBoundaryARN := Some (rx_Cur c), pl_Diff := (pl_Diff p)\<lparr>df_Case := CaseRemoveRepoint\<rparr>\<rparr>"

definition removeRepoint :: "removeCtx \<Rightarrow> string \<Rightarrow> string \<Rightarrow> plan \<Rightarrow> compileError + (plan \<times> string option)" where
  "removeRepoint c b baseHash p0 =
    bindR (livePolicyOf (rv_Live (rx_In c)) b) (\<lambda>q.
      let p1 = repointBase c b p0; cur = rx_Cur c in
      (case q of
         None \<Rightarrow> Inr (refuse [Refusal RefuseBaselineMissing b] p1, None)
       | Some bp \<Rightarrow>
           bindR (archiveText (lp_DefaultDocument bp) p1) (\<lambda>(bh, p2).
             let bOthers = otherUsers (lp_AttachmentSet bp) (lr_RoleID (rx_Role c));
                 put = putBoundaryOp (lr_Name (rx_Role c)) b;
                 p3 = (if bh \<noteq> baseHash then addNotes [NoteBaselineDocChanged] p2 else p2)
                        \<lparr>pl_DesiredDocumentHash := Some bh,
                         pl_Facts := [factRole (lr_RoleID (rx_Role c)), factBoundary cur b, factPolicyDoc b bh bh,
                           factPolicyUsers b bOthers bOthers] @ replacedFacts c\<rparr>
             in Inr (if rx_Others c = []
                     then p3\<lparr>pl_ArtifactDisposition := DispositionDelete, pl_Ops := put # deletePolicyOps cur\<rparr>
                     else addNotes [NoteCopyRetained] (p3\<lparr>pl_ArtifactDisposition := DispositionRetainShared, pl_Ops := [put]\<rparr>),
                     Some (lp_DefaultDocument bp)))))"

definition removeCase :: "removeCtx \<Rightarrow> plan \<Rightarrow> compileError + (plan \<times> string option)" where
  "removeCase c p =
    (let base = rv_Baseline (rx_In c) in
     (case (bn_BoundaryARN base, bn_DocumentHash base) of
        (Some b, Some bh) \<Rightarrow>
          if b = rx_Cur c then bindR (removeInPlace c bh p) (\<lambda>q. Inr (q, Some (bn_Document base)))
          else removeRepoint c b bh p
      | (None, _) \<Rightarrow> Inr (removeDetach c p, None)
      | (Some b, None) \<Rightarrow> Inl NilDereference))"

definition removeDirect :: "plan \<Rightarrow> plan" where
  "removeDirect p = refuse (if pl_Delivery p = DeliveryDirect then take 1 (foreignTargets (pl_Ops p)) else []) p"

definition removeEligibility :: "string \<Rightarrow> plan \<Rightarrow> plan" where
  "removeEligibility cur p =
    (if pl_Eligibility p = EligibilityEligible \<and>
        (\<not> isAuthSecPath cur \<or> (case pl_DesiredBoundaryARN p of None \<Rightarrow> False | Some d \<Rightarrow> \<not> isAuthSecPath d))
     then p\<lparr>pl_Eligibility := EligibilityIaCOnly\<rparr> else p)"

definition removeFinish :: "removeCtx \<Rightarrow> plan \<times> string option \<Rightarrow> compileError + plan" where
  "removeFinish c pt =
    (let p = fst pt; cur = rx_Cur c; curText = lp_DefaultDocument (rx_CurPol c);
         after = (case (pl_DesiredBoundaryARN p, pl_DesiredDocumentHash p) of
                    (Some a, Some h) \<Rightarrow> Some (BoundaryRef a h) | _ \<Rightarrow> df_BoundaryAfter (pl_Diff p));
         cands = rv_ExcludedServices (rx_In c) @ notActionNamespaces (Some curText)
     in bindR (ExclusionChanges (Some curText) (snd pt) cands) (\<lambda>(n, a, u).
        let q = p\<lparr>pl_Diff := (pl_Diff p)\<lparr>df_BoundaryBefore := Some (BoundaryRef cur (rx_CurHash c)), df_BoundaryAfter := after,
                   df_NewlyExcluded := n, df_AlreadyExcluded := a, df_NewlyUnexcluded := u\<rparr>,
                  pl_Impact := (pl_Impact p)\<lparr>im_Restored := im_Restored (pl_Impact p) @
                    map (\<lambda>s. \<lparr>is_Service = s, is_Basis = ''remove_control''\<rparr>) u\<rparr>\<rparr>
        in seal (removeEligibility cur (removeDirect q))))"

definition removeLive :: "removeControlInput \<Rightarrow> liveRole \<Rightarrow> plan \<Rightarrow> compileError + plan" where
  "removeLive i role p =
    bindR (ArtifactState (rv_Live i)) (\<lambda>st.
      (case as_BoundaryARN st of
         None \<Rightarrow> Inl (CompileError ErrCodeNoArtifact [''the role has no boundary; the control can be retired without a plan''])
       | Some cur \<Rightarrow>
           bindR (statePrecondition st p) (\<lambda>p1.
             (case (as_BoundaryDocumentHash st, livePolicyOf (rv_Live i) cur) of
                (Some curHash, Inr (Some curPol)) \<Rightarrow>
                  bindR (archiveText (lp_DefaultDocument curPol) (p1\<lparr>pl_BeforeDocumentHash := Some curHash\<rparr>)) (\<lambda>(_, p2).
                    let c = \<lparr>rx_In = i, rx_Role = role, rx_Cur = cur, rx_CurHash = curHash, rx_CurPol = curPol,
                             rx_Others = otherUsers (as_AttachmentSet st) (lr_RoleID role)\<rparr>
                    in bindR (removeCase c (refuse (notLastDeployed i cur curHash) p2)) (removeFinish c))
              | _ \<Rightarrow> Inl NilDereference))))"

definition CompileRemoveControl :: "removeControlInput \<Rightarrow> compileError + plan" where
  "CompileRemoveControl i =
    bindR (checkR (validControl (rv_Control i)) (CompileError ErrCodeInput [''the control needs an id, account, RoleId and workspace ref'']))
      (\<lambda>_.
    bindR (checkR (rv_Delivery i \<in> {DeliveryDirect, DeliveryIaCPR, DeliveryExport})
            (CompileError ErrCodeInput [''delivery must be direct, iac_pr or export''])) (\<lambda>_.
    bindR (validateEvidence (rv_Evidence i) (co_RoleID (rv_Control i))) (\<lambda>_.
    bindR (checkR ((bn_BoundaryARN (rv_Baseline i) = None) = (bn_DocumentHash (rv_Baseline i) = None))
            (CompileError ErrCodeInput [''baseline ARN and document hash are set together''])) (\<lambda>_.
      let gone = checkIncarnation (rv_Live i) (co_RoleID (rv_Control i)) in
      (case (gone, lv_Role (rv_Live i)) of
         ([], Some role) \<Rightarrow> removeLive i role (removeStart i)
       | _ \<Rightarrow> removeGone i gone (removeStart i))))))"

end
