(* ===== verification/CompileProps.thy ===== *)
theory CompileProps
  imports Restore RecoverProps BoundaryProps BundleProps
begin

section \<open>What compiled plans guarantee\<close>

text \<open>
  A plan before sealing is sound when, unless it is refused, its facts have distinct keys and cover
  its operations, direct delivery stays on AuthSec's policies and a policy is only rewritten or
  deleted under the fact that nobody else uses it. Every case of the compiler builds sound plans
  and sealing keeps what soundness says.
\<close>

subsection \<open>What the plan operations leave alone\<close>

lemma refuse_Refusals [simp]: "pl_Refusals (refuse rs p) = pl_Refusals p @ rs"
  by (simp add: refuse_def)

lemma refuse_sel [simp]:
  "pl_Ops (refuse rs p) = pl_Ops p" "pl_Facts (refuse rs p) = pl_Facts p" "pl_Delivery (refuse rs p) = pl_Delivery p"
  "pl_IneligibleReason (refuse rs p) = pl_IneligibleReason p" "pl_Diff (refuse rs p) = pl_Diff p"
  "pl_Kind (refuse rs p) = pl_Kind p" "pl_DesiredBoundaryARN (refuse rs p) = pl_DesiredBoundaryARN p"
  "pl_ReplacedBoundaryARN (refuse rs p) = pl_ReplacedBoundaryARN p" "pl_Eligibility (refuse rs p) = pl_Eligibility p"
  "pl_ArtifactDisposition (refuse rs p) = pl_ArtifactDisposition p" "pl_DesiredDocumentHash (refuse rs p) = pl_DesiredDocumentHash p"
  "pl_DesiredAttachment (refuse rs p) = pl_DesiredAttachment p"
  by (simp_all add: refuse_def)

lemma archive_sel [simp]:
  "pl_Refusals (archive h d p) = pl_Refusals p"
  "pl_Ops (archive h d p) = pl_Ops p" "pl_Facts (archive h d p) = pl_Facts p" "pl_Delivery (archive h d p) = pl_Delivery p"
  "pl_IneligibleReason (archive h d p) = pl_IneligibleReason p" "pl_Diff (archive h d p) = pl_Diff p"
  "pl_Kind (archive h d p) = pl_Kind p" "pl_DesiredBoundaryARN (archive h d p) = pl_DesiredBoundaryARN p"
  "pl_ReplacedBoundaryARN (archive h d p) = pl_ReplacedBoundaryARN p" "pl_Eligibility (archive h d p) = pl_Eligibility p"
  "pl_ArtifactDisposition (archive h d p) = pl_ArtifactDisposition p" "pl_DesiredDocumentHash (archive h d p) = pl_DesiredDocumentHash p"
  "pl_DesiredAttachment (archive h d p) = pl_DesiredAttachment p"
  by (simp_all add: archive_def)

lemma addNotes_sel [simp]:
  "pl_Refusals (addNotes ns p) = pl_Refusals p"
  "pl_Ops (addNotes ns p) = pl_Ops p" "pl_Facts (addNotes ns p) = pl_Facts p" "pl_Delivery (addNotes ns p) = pl_Delivery p"
  "pl_IneligibleReason (addNotes ns p) = pl_IneligibleReason p" "df_Case (pl_Diff (addNotes ns p)) = df_Case (pl_Diff p)"
  "pl_Kind (addNotes ns p) = pl_Kind p" "pl_DesiredBoundaryARN (addNotes ns p) = pl_DesiredBoundaryARN p"
  "pl_ReplacedBoundaryARN (addNotes ns p) = pl_ReplacedBoundaryARN p" "pl_Eligibility (addNotes ns p) = pl_Eligibility p"
  "pl_ArtifactDisposition (addNotes ns p) = pl_ArtifactDisposition p" "pl_DesiredDocumentHash (addNotes ns p) = pl_DesiredDocumentHash p"
  "pl_DesiredAttachment (addNotes ns p) = pl_DesiredAttachment p"
  by (simp_all add: addNotes_def)

lemma restoredImpact_sel [simp]:
  "pl_Refusals (restoredImpact p) = pl_Refusals p"
  "pl_Ops (restoredImpact p) = pl_Ops p" "pl_Facts (restoredImpact p) = pl_Facts p" "pl_Delivery (restoredImpact p) = pl_Delivery p"
  "pl_IneligibleReason (restoredImpact p) = pl_IneligibleReason p" "pl_Diff (restoredImpact p) = pl_Diff p"
  "pl_Kind (restoredImpact p) = pl_Kind p" "pl_DesiredBoundaryARN (restoredImpact p) = pl_DesiredBoundaryARN p"
  "pl_ReplacedBoundaryARN (restoredImpact p) = pl_ReplacedBoundaryARN p" "pl_Eligibility (restoredImpact p) = pl_Eligibility p"
  "pl_ArtifactDisposition (restoredImpact p) = pl_ArtifactDisposition p" "pl_DesiredDocumentHash (restoredImpact p) = pl_DesiredDocumentHash p"
  "pl_DesiredAttachment (restoredImpact p) = pl_DesiredAttachment p"
  by (simp_all add: restoredImpact_def)

lemma evidencePlan_sel [simp]:
  "pl_Refusals (evidencePlan e c k d t) = []" "pl_Ops (evidencePlan e c k d t) = []"
  "pl_Facts (evidencePlan e c k d t) = []" "pl_Delivery (evidencePlan e c k d t) = d"
  "pl_IneligibleReason (evidencePlan e c k d t) = []" "pl_Kind (evidencePlan e c k d t) = k"
  "pl_ReplacedBoundaryARN (evidencePlan e c k d t) = None" "pl_Eligibility (evidencePlan e c k d t) = EligibilityEligible"
  "pl_ArtifactDisposition (evidencePlan e c k d t) = DispositionKeep"
  by (simp_all add: evidencePlan_def)

lemma setDiffE:
  assumes "setDiff c n b a bt at' p = Inr q"
  obtains d where "q = p\<lparr>pl_Diff := d\<rparr>"
  using assms by (auto simp: setDiff_def bindR_Inr_iff)

lemma statePreconditionE:
  assumes "statePrecondition st p = Inr q"
  obtains pc h where "q = p\<lparr>pl_Precondition := pc, pl_PreconditionHash := h\<rparr>" "canonical (stateDocument st) = Inr pc"
    "StatePreconditionHash st = Inr h"
  using assms by (auto simp: statePrecondition_def bindR_Inr_iff)

lemma archiveTextE:
  assumes "archiveText t p = Inr (h, q)"
  obtains c where "q = archive h c p" "CanonicalDocument t = Inr (c, h)"
  using assms by (auto simp: archiveText_def bindR_Inr_iff)

lemma undoBaseE:
  assumes "undoBase c p post = Inr u"
  obtains pc h where "u = (evidencePlan (ti_Evidence (ac_In c)) (co_ID (ti_Control (ac_In c))) PlanUndo
      (rs_Delivery (ti_Intent (ac_In c))) (lv_ReadAt (ti_Live (ac_In c))))
      \<lparr>pl_Eligibility := pl_Eligibility p, pl_Precondition := pc, pl_PreconditionHash := h,
       pl_BeforeDocumentHash := as_BoundaryDocumentHash post,
       pl_Impact := emptyImpact\<lparr>im_Consumers := im_Consumers (pl_Impact p), im_OwnerUserIDs := im_OwnerUserIDs (pl_Impact p)\<rparr>,
       pl_Documents := pl_Documents p\<rparr>" "canonical (stateDocument post) = Inr pc" "StatePreconditionHash post = Inr h"
  using assms by (auto simp: undoBase_def Let_def bindR_Inr_iff elim!: statePreconditionE)

lemma narrowE:
  assumes "narrow c cur p = Inr (q, r)"
  obtains (refused) ref where "q = refuse [ref] p" "r = None"
    | (narrowed) doc h n where "q = refuse (checkSize doc) (archive h doc p)" "r = Some (doc, h, n)"
        "NarrowCustomerBoundary (lp_DefaultDocument cur) (removedOf c) = Inr (NarrowedTo doc h n)"
proof -
  obtain x where x: "NarrowCustomerBoundary (lp_DefaultDocument cur) (removedOf c) = Inr x"
    using assms by (auto simp: narrow_def bindR_Inr_iff)
  show thesis by (cases x) (use assms x that in \<open>auto simp: narrow_def\<close>)
qed

subsection \<open>Sealing\<close>

lemma sealE:
  assumes "seal p = Inr r"
  obtains ih ph mh where
    "r = (settle p)\<lparr>pl_ImpactHash := ih, pl_PlanHash := ph, pl_MaterialHash := mh\<rparr>"
    "ImpactHash (pl_Impact (settle p)) = Inr ih" "PlanHash (HashInput (settle p)) = Inr ph"
    "MaterialHash \<lparr>mh_Plan = HashInput (settle p), mh_ImpactHash = ih, mh_Gaps = pl_GapRefs (settle p)\<rparr> = Inr mh"
    "CheckStorable r = []"
  using assms by (auto simp: seal_def Let_def bindR_Inr_iff split: if_splits)

lemma settle_sel [simp]:
  "pl_Ops (settle p) = (if pl_Refusals p = [] then pl_Ops p else [])"
  "pl_Facts (settle p) = sortFacts (pl_Facts p)" "pl_Delivery (settle p) = pl_Delivery p"
  "pl_Eligibility (settle p) = (if pl_Refusals p = [] then pl_Eligibility p else EligibilityIneligible)"
  "pl_IneligibleReason (settle p) = (if pl_Refusals p = [] then pl_IneligibleReason p
     else joinWith ''; '' (map refusalString (pl_Refusals p)))"
  "pl_Kind (settle p) = pl_Kind p" "pl_DesiredBoundaryARN (settle p) = pl_DesiredBoundaryARN p"
  "pl_ReplacedBoundaryARN (settle p) = pl_ReplacedBoundaryARN p" "pl_ArtifactDisposition (settle p) = pl_ArtifactDisposition p"
  "pl_DesiredDocumentHash (settle p) = pl_DesiredDocumentHash p" "pl_Refusals (settle p) = pl_Refusals p"
  "pl_PreconditionHash (settle p) = pl_PreconditionHash p" "pl_Precondition (settle p) = pl_Precondition p"
  "pl_DesiredAttachment (settle p) = pl_DesiredAttachment p"
  by (simp_all add: settle_def Let_def)

subsection \<open>Keys of facts and effects of operations\<close>

definition factKinds :: "string list" where
  "factKinds = [FactRole, FactRoleDefinition, FactRoleBoundary, FactPolicyDocument, FactPolicyOwner, FactPolicyUsers]"

lemma factKinds_distinct: "distinct factKinds"
  by (simp add: factKinds_def go_consts)

lemma fact_kinds_apart [simp]:
  "FactRole \<noteq> FactRoleDefinition" "FactRole \<noteq> FactRoleBoundary" "FactRole \<noteq> FactPolicyDocument" "FactRole \<noteq> FactPolicyOwner"
  "FactRole \<noteq> FactPolicyUsers" "FactRoleDefinition \<noteq> FactRoleBoundary" "FactRoleDefinition \<noteq> FactPolicyDocument"
  "FactRoleDefinition \<noteq> FactPolicyOwner" "FactRoleDefinition \<noteq> FactPolicyUsers" "FactRoleBoundary \<noteq> FactPolicyDocument"
  "FactRoleBoundary \<noteq> FactPolicyOwner" "FactRoleBoundary \<noteq> FactPolicyUsers" "FactPolicyDocument \<noteq> FactPolicyOwner"
  "FactPolicyDocument \<noteq> FactPolicyUsers" "FactPolicyOwner \<noteq> FactPolicyUsers"
  using factKinds_distinct by (auto simp: factKinds_def)

lemmas fact_kinds_apart' [simp] = fact_kinds_apart [symmetric]

lemma kind_no_colon: "k \<in> set factKinds \<Longrightarrow> CHR '':'' \<notin> set k"
  by (auto simp: factKinds_def go_consts)

lemma factKey_split:
  assumes "CHR '':'' \<notin> set k"
  shows "takeWhile (\<lambda>c. c \<noteq> CHR '':'') (factKey k s) = k" "drop 1 (dropWhile (\<lambda>c. c \<noteq> CHR '':'') (factKey k s)) = s"
proof -
  have "takeWhile (\<lambda>c. c \<noteq> CHR '':'') (k @ t) = k @ takeWhile (\<lambda>c. c \<noteq> CHR '':'') t"
    "dropWhile (\<lambda>c. c \<noteq> CHR '':'') (k @ t) = dropWhile (\<lambda>c. c \<noteq> CHR '':'') t" for t
    using assms by (induction k) auto
  note t = this
  have d: "dropWhile (\<lambda>c. c \<noteq> CHR '':'') k = []" using assms by (induction k) auto
  from t [of "'':'' @ s"] t [of "[]"]
  show "takeWhile (\<lambda>c. c \<noteq> CHR '':'') (factKey k s) = k" "drop 1 (dropWhile (\<lambda>c. c \<noteq> CHR '':'') (factKey k s)) = s"
    by (simp_all add: factKey_def d)
qed

lemma factKey_inject [simp]:
  assumes "k \<in> set factKinds" "k' \<in> set factKinds"
  shows "factKey k s = factKey k' s' \<longleftrightarrow> k = k' \<and> s = s'"
  using factKey_split kind_no_colon assms by metis

lemma kinds_mem [simp]:
  "FactRole \<in> set factKinds" "FactRoleDefinition \<in> set factKinds" "FactRoleBoundary \<in> set factKinds"
  "FactPolicyDocument \<in> set factKinds" "FactPolicyOwner \<in> set factKinds" "FactPolicyUsers \<in> set factKinds"
  by (simp_all add: factKinds_def)

lemma newFact_sel [simp]:
  "fc_Key (newFact k s b a) = factKey k s" "fc_Before (newFact k s b a) = b" "fc_After (newFact k s b a) = a"
  "fc_OnlyBefore (newFact k s b a) = False" "fc_Kind (newFact k s b a) = k" "fc_Subject (newFact k s b a) = s"
  by (simp_all add: newFact_def)

lemma definitionFact_sel [simp]:
  "fc_Key (definitionFact c) = factKey FactRoleDefinition []" "fc_OnlyBefore (definitionFact c) = True"
  "fc_Kind (definitionFact c) = FactRoleDefinition"
  by (simp_all add: definitionFact_def factKey_def)

lemmas fact_defs = factRole_def factBoundary_def factPolicyDoc_def factPolicyOwner_def factPolicyUsers_def

lemma key_boundary: "FactRoleBoundary = factKey FactRoleBoundary []"
  by (simp add: factKey_def)

lemma op_effects [simp]:
  "opEffects (createOp arn n pth h t) = [factKey FactPolicyDocument arn, factKey FactPolicyOwner arn]"
  "opEffects (createVersionOp arn h) = [factKey FactPolicyDocument arn]"
  "opEffects (putBoundaryOp n arn) = [factKey FactRoleBoundary []]"
  "opEffects (deleteBoundaryOp n) = [factKey FactRoleBoundary []]"
  "opEffects (tagOp ctl arn) = []" "opEffects (pruneOp arn) = []"
  "concat (map opEffects (deletePolicyOps arn)) = [factKey FactPolicyDocument arn, factKey FactPolicyOwner arn]"
  by (simp_all add: opEffects_def createOp_def createVersionOp_def putBoundaryOp_def deleteBoundaryOp_def tagOp_def
      pruneOp_def deletePolicyOps_def newOp_def factKey_def go_consts)

definition destructive :: "planOp \<Rightarrow> bool" where
  "destructive q \<longleftrightarrow> op_Op q \<in> {OpCreatePolicyVersion, OpDeletePolicyVersion, OpTagPolicy, OpDeletePolicy}"

lemma op_destructive [simp]:
  "\<not> destructive (createOp arn n pth h t)" "destructive (createVersionOp arn h)" "\<not> destructive (putBoundaryOp n arn)"
  "\<not> destructive (deleteBoundaryOp n)"
  by (simp_all add: destructive_def createOp_def createVersionOp_def putBoundaryOp_def deleteBoundaryOp_def newOp_def go_consts)

lemma op_policies [simp]:
  "op_PolicyARN (createOp arn n pth h t) = arn" "op_PolicyARN (createVersionOp arn h) = arn" "op_PolicyARN (putBoundaryOp n arn) = arn"
  "op_PolicyARN (deleteBoundaryOp n) = []" "op_PolicyARN (tagOp ctl arn) = arn" "op_PolicyARN (pruneOp arn) = arn"
  "q \<in> set (deletePolicyOps arn) \<Longrightarrow> op_PolicyARN q = arn"
  by (auto simp: createOp_def createVersionOp_def putBoundaryOp_def deleteBoundaryOp_def tagOp_def pruneOp_def
      deletePolicyOps_def newOp_def)

lemma versionOps_policies [simp]: "q \<in> set (versionOps ctl arn h n) \<Longrightarrow> op_PolicyARN q = arn"
  by (auto simp: versionOps_def split: if_splits)

lemma versionOps_effects [simp]: "set (concat (map opEffects (versionOps ctl arn h n))) = {factKey FactPolicyDocument arn}"
  by (simp add: versionOps_def)

subsection \<open>Sound plans\<close>

definition ownTargets :: "planOp list \<Rightarrow> bool" where
  "ownTargets ops \<longleftrightarrow> (\<forall>q \<in> set ops. op_PolicyARN q = [] \<or> isAuthSecPath (op_PolicyARN q))"

definition loneWrites :: "planOp list \<Rightarrow> fact list \<Rightarrow> bool" where
  "loneWrites ops facts \<longleftrightarrow> (\<forall>q \<in> set ops. destructive q \<longrightarrow> factPolicyUsers (op_PolicyARN q) [] [] \<in> set facts)"

definition sound :: "plan \<Rightarrow> bool" where
  "sound p \<longleftrightarrow> pl_IneligibleReason p = [] \<and>
    (pl_Refusals p = [] \<longrightarrow> loneWrites (pl_Ops p) (pl_Facts p) \<and>
      (pl_Delivery p = DeliveryDirect \<longrightarrow> ownTargets (pl_Ops p) \<and> coversChanges (pl_Ops p) (pl_Facts p) \<and>
        (dispositionChk p \<longrightarrow> distinct (map fc_Key (pl_Facts p)))))"

lemma covers_alt:
  "coversChanges ops facts \<longleftrightarrow>
    (\<forall>f \<in> set facts. \<not> fc_OnlyBefore f \<and> Changes f \<longrightarrow> fc_Key f \<in> set (concat (map opEffects ops)))"
  by (simp add: coversChanges_def executed_def)

lemma newFact_Changes [simp]: "Changes (newFact k s b a) \<longleftrightarrow> b \<noteq> a"
  by (simp add: Changes_def)

lemma own_simps [simp]:
  "ownTargets []" "ownTargets (q # qs) \<longleftrightarrow> (op_PolicyARN q = [] \<or> isAuthSecPath (op_PolicyARN q)) \<and> ownTargets qs"
  "ownTargets (ps @ qs) \<longleftrightarrow> ownTargets ps \<and> ownTargets qs"
  "isAuthSecPath arn \<Longrightarrow> ownTargets (deletePolicyOps arn)" "isAuthSecPath arn \<Longrightarrow> ownTargets (versionOps ctl arn h n)"
  by (auto simp: ownTargets_def)

lemma lone_simps [simp]:
  "loneWrites [] fs"
  "loneWrites (q # qs) fs \<longleftrightarrow> (destructive q \<longrightarrow> factPolicyUsers (op_PolicyARN q) [] [] \<in> set fs) \<and> loneWrites qs fs"
  "loneWrites (ps @ qs) fs \<longleftrightarrow> loneWrites ps fs \<and> loneWrites qs fs"
  "factPolicyUsers arn [] [] \<in> set fs \<Longrightarrow> loneWrites (deletePolicyOps arn) fs"
  "factPolicyUsers arn [] [] \<in> set fs \<Longrightarrow> loneWrites (versionOps ctl arn h n) fs"
  by (auto simp: loneWrites_def)

lemma newBoundary_own: "isAuthSecPath (newBoundaryARN c)"
proof -
  have "newBoundaryARN c = (''arn:'' @ ac_Part c @ '':iam::'' @ ac_Acct c) @ ('':policy'' @ AuthSecPolicyPath) @
      (AuthSecBoundaryPrefix @ lr_RoleID (ac_Role c))" by (simp add: newBoundaryARN_def AuthSecBoundaryARN_def)
  then show ?thesis unfolding isAuthSecPath_def strContains_iff by blast
qed

lemma own_nonempty: "isAuthSecPath arn \<Longrightarrow> arn \<noteq> []"
  by (auto simp: isAuthSecPath_def strContains_iff)

subsection \<open>Apply and undo\<close>

definition undoFields :: "applyCtx \<Rightarrow> artifactStateFacts \<Rightarrow> plan \<Rightarrow> bool" where
  "undoFields c post u \<longleftrightarrow> pl_Refusals u = [] \<and> pl_IneligibleReason u = [] \<and> pl_Kind u = PlanUndo \<and>
    pl_Delivery u = rs_Delivery (ti_Intent (ac_In c)) \<and> StatePreconditionHash post = Inr (pl_PreconditionHash u)"

definition swapFact :: "fact \<Rightarrow> fact" where
  "swapFact f = f\<lparr>fc_Before := fc_After f, fc_After := fc_Before f\<rparr>"

text \<open>The undo of a plan: its facts are the plan's turned round, its precondition the state the plan wants.\<close>

definition undoes :: "string \<Rightarrow> plan \<Rightarrow> plan \<Rightarrow> bool" where
  "undoes roleID p u \<longleftrightarrow> pl_Delivery u = pl_Delivery p \<and> pl_Facts u = map swapFact (filter (\<lambda>f. \<not> fc_OnlyBefore f) (pl_Facts p)) \<and>
    (\<exists>post. StatePreconditionHash post = Inr (pl_PreconditionHash u) \<and> as_RoleID post = roleID \<and>
      as_BoundaryARN post = pl_DesiredBoundaryARN p \<and> as_BoundaryDocumentHash post = pl_DesiredDocumentHash p)"

definition goodPair :: "applyCtx \<Rightarrow> plan \<times> plan option \<Rightarrow> bool" where
  "goodPair c pu \<longleftrightarrow> sound (fst pu) \<and>
    (case snd pu of
       None \<Rightarrow> pl_Refusals (fst pu) \<noteq> []
     | Some u \<Rightarrow> (pl_Refusals (fst pu) = [] \<longrightarrow> sound u) \<and> pl_Refusals u = [] \<and> undoes (lr_RoleID (ac_Role c)) (fst pu) u)"

lemma swap_newFact [simp]: "swapFact (newFact k s b a) = newFact k s a b"
  by (simp add: swapFact_def newFact_def)

lemma postState_sel [simp]:
  "as_RoleID (postState c arn h others) = lr_RoleID (ac_Role c)" "as_BoundaryARN (postState c arn h others) = Some arn"
  "as_BoundaryDocumentHash (postState c arn h others) = Some h"
  by (simp_all add: postState_def stateNormalized_def)

lemma undoBase_fields:
  assumes "undoBase c p post = Inr u"
  shows "undoFields c post u" "pl_Ops u = []"
  using assms by (auto elim!: undoBaseE simp: undoFields_def)

lemma setDiff_fields:
  assumes "setDiff c n b a bt at' p = Inr q"
  shows "pl_Ops q = pl_Ops p" "pl_Facts q = pl_Facts p" "undoFields c' post q \<longleftrightarrow> undoFields c' post p"
    "pl_Refusals q = pl_Refusals p" "pl_IneligibleReason q = pl_IneligibleReason p" "pl_Delivery q = pl_Delivery p"
    "pl_DesiredBoundaryARN q = pl_DesiredBoundaryARN p" "pl_DesiredDocumentHash q = pl_DesiredDocumentHash p"
  by (rule setDiffE [OF assms]; simp add: undoFields_def)+

lemma restored_fields [simp]: "undoFields c post (restoredImpact u) \<longleftrightarrow> undoFields c post u"
  by (simp add: undoFields_def restoredImpact_def)

lemma notes_fields [simp]: "undoFields c post (addNotes ns u) \<longleftrightarrow> undoFields c post u"
  by (simp add: undoFields_def addNotes_def)

lemma update_fields [simp]:
  "undoFields c post (u\<lparr>pl_Ops := a\<rparr>) \<longleftrightarrow> undoFields c post u" "undoFields c post (u\<lparr>pl_Facts := b\<rparr>) \<longleftrightarrow> undoFields c post u"
  "undoFields c post (u\<lparr>pl_DesiredAttachment := d\<rparr>) \<longleftrightarrow> undoFields c post u"
  "undoFields c post (u\<lparr>pl_DesiredBoundaryARN := e\<rparr>) \<longleftrightarrow> undoFields c post u"
  "undoFields c post (u\<lparr>pl_DesiredDocumentHash := e\<rparr>) \<longleftrightarrow> undoFields c post u"
  "undoFields c post (u\<lparr>pl_ReplacedBoundaryARN := e\<rparr>) \<longleftrightarrow> undoFields c post u"
  "undoFields c post (u\<lparr>pl_ArtifactDisposition := d\<rparr>) \<longleftrightarrow> undoFields c post u"
  by (simp_all add: undoFields_def)

lemma noneUndo_fields:
  assumes "noneUndo c doc h p = Inr u"
  shows "undoFields c (postState c (newBoundaryARN c) h []) u"
    "pl_Ops u = deleteBoundaryOp (lr_Name (ac_Role c)) # deletePolicyOps (newBoundaryARN c)"
    "pl_Facts u = roleFacts c False @ [factBoundary (newBoundaryARN c) ValueNone, factPolicyDoc (newBoundaryARN c) h ValueAbsent,
       factPolicyOwner (newBoundaryARN c) (controlOwner (ti_Control (ac_In c))) ValueAbsent, factPolicyUsers (newBoundaryARN c) [] []]"
  using assms by (auto simp: noneUndo_def Let_def bindR_Inr_iff setDiff_fields dest: undoBase_fields)

lemma applyNone_good:
  assumes "applyNone c p0 = Inr pu" "pl_IneligibleReason p0 = []" "pl_Delivery p0 = rs_Delivery (ti_Intent (ac_In c))"
  shows "goodPair c pu"
proof -
  obtain doc h where e: "ExcludeOnlyDocument (removedOf c) = Inr (doc, h)"
    using assms(1) by (auto simp: applyNone_def Let_def bindR_Inr_iff)
  obtain p u where pu: "pu = (p, Some u)" "noneUndo c doc h p = Inr u" "pl_Facts p = noneFacts c h"
    "pl_Ops p = [createOp (newBoundaryARN c) (AuthSecBoundaryPrefix @ lr_RoleID (ac_Role c)) AuthSecPolicyPath h
       (createTags (ti_Control (ac_In c))), putBoundaryOp (lr_Name (ac_Role c)) (newBoundaryARN c)]"
    "pl_IneligibleReason p = []" "pl_DesiredBoundaryARN p = Some (newBoundaryARN c)" "pl_DesiredDocumentHash p = Some h"
    "pl_Delivery p = rs_Delivery (ti_Intent (ac_In c))"
    using assms e by (auto simp: applyNone_def Let_def bindR_Inr_iff setDiff_fields)
  note u = noneUndo_fields [OF pu(2)]
  show ?thesis unfolding pu(1) goodPair_def fst_conv snd_conv option.case
  proof (intro conjI impI)
    show "sound p" using pu newBoundary_own by (simp add: sound_def covers_alt noneFacts_def fact_defs roleFacts_def Let_def)
    show "sound u" using u newBoundary_own by (simp add: sound_def undoFields_def covers_alt fact_defs roleFacts_def)
    show "pl_Refusals u = []" using u(1) by (simp add: undoFields_def)
    show "undoes (lr_RoleID (ac_Role c)) p u" using u pu
      by (auto simp: undoes_def undoFields_def noneFacts_def fact_defs roleFacts_def Let_def
          intro!: exI [of _ "postState c (newBoundaryARN c) h []"])
  qed
qed

lemma versionOps_moves [simp]:
  "(\<exists>x \<in> set (versionOps ctl arn h n). k \<in> set (opEffects x)) \<longleftrightarrow> k = factKey FactPolicyDocument arn"
  by (auto simp: versionOps_def)

definition newVersion :: "planOp list \<Rightarrow> string \<Rightarrow> string \<Rightarrow> string \<Rightarrow> bool" where
  "newVersion ops arn before after \<longleftrightarrow> (before = after \<and> ops = []) \<or> (\<exists>ctl n. ops = versionOps ctl arn after n)"

lemma newVersion_intros [simp]: "newVersion [] arn h h" "newVersion (versionOps ctl arn h n) arn b h"
  by (auto simp: newVersion_def)

lemma authsecUndo_fields:
  assumes "authsecUndo c cur doc h p = Inr u"
  shows "undoFields c (postState c (lr_BoundaryARN (ac_Role c)) h (ac_CurOthers c)) u"
    "newVersion (pl_Ops u) (lr_BoundaryARN (ac_Role c)) h (ac_CurHash c)"
    "pl_Facts u = versionFacts c False h (ac_CurHash c)"
  using assms by (cases "h = ac_CurHash c"; auto simp: authsecUndo_def Let_def bindR_Inr_iff setDiff_fields undoBase_fields)+

lemma consumersRefusal_Nil [simp]: "consumersRefusal arn note others = [] \<longleftrightarrow> others = []"
  by (simp add: consumersRefusal_def)

lemma version_sound:
  assumes "isAuthSecPath (lr_BoundaryARN (ac_Role c))" "ac_CurOthers c = []" "pl_Facts p = versionFacts c d before after"
    "newVersion (pl_Ops p) (lr_BoundaryARN (ac_Role c)) before after"
    "pl_IneligibleReason p = []"
  shows "sound p"
  using assms by (auto simp: sound_def newVersion_def covers_alt versionFacts_def fact_defs roleFacts_def Let_def)

lemma applyAuthsec_good:
  assumes "applyAuthsec c cur p0 = Inr pu" "pl_IneligibleReason p0 = []" "pl_Ops p0 = []" "isAuthSecPath (lr_BoundaryARN (ac_Role c))"
    "pl_Delivery p0 = rs_Delivery (ti_Intent (ac_In c))"
  shows "goodPair c pu"
proof -
  let ?arn = "lr_BoundaryARN (ac_Role c)"
  obtain doc h where e: "ExcludeOnlyDocument (removedOf c) = Inr (doc, h)"
    using assms(1) by (auto simp: applyAuthsec_def Let_def bindR_Inr_iff)
  define p2 where "p2 = (refuse (checkSize doc) (archive h doc (refuse (consumersRefusal ?arn [] (ac_CurOthers c))
      (refuse (ownershipRefusal c cur) p0))))\<lparr>pl_DesiredBoundaryARN := Some ?arn, pl_DesiredDocumentHash := Some h\<rparr>"
  define p3 where "p3 = (if h = ac_CurHash c then addNotes [NoteAlreadyInPlace] p2
      else p2\<lparr>pl_Ops := pl_Ops p2 @ versionOps (ti_Control (ac_In c)) ?arn h (lp_VersionCount cur)\<rparr>)"
  obtain p4 u where q: "setDiff c CaseAuthSecVersion (Some (BoundaryRef ?arn (ac_CurHash c))) (Some (BoundaryRef ?arn h))
      (Some (lp_DefaultDocument cur)) (Some doc) p3 = Inr p4"
    "authsecUndo c cur doc h (p4\<lparr>pl_Facts := versionFacts c True (ac_CurHash c) h\<rparr>) = Inr u"
    "pu = (p4\<lparr>pl_Facts := versionFacts c True (ac_CurHash c) h\<rparr>, Some u)"
    using assms(1) unfolding applyAuthsec_def Let_def e bindR_simps prod.case p3_def p2_def by (elim bindR_resE) auto
  have sel: "pl_IneligibleReason p3 = []" "newVersion (pl_Ops p3) ?arn (ac_CurHash c) h" "pl_DesiredBoundaryARN p3 = Some ?arn"
    "pl_DesiredDocumentHash p3 = Some h" "pl_Refusals p3 = [] \<Longrightarrow> ac_CurOthers c = []"
    "pl_Delivery p3 = rs_Delivery (ti_Intent (ac_In c))"
    using assms(2,3,5) by (auto simp: p3_def p2_def split: if_splits)
  obtain p where pu: "pu = (p, Some u)" "authsecUndo c cur doc h p = Inr u" "pl_Facts p = versionFacts c True (ac_CurHash c) h"
    "newVersion (pl_Ops p) ?arn (ac_CurHash c) h"
    "pl_IneligibleReason p = []" "pl_DesiredBoundaryARN p = Some ?arn" "pl_DesiredDocumentHash p = Some h"
    "pl_Refusals p = [] \<Longrightarrow> ac_CurOthers c = []" "pl_Delivery p = rs_Delivery (ti_Intent (ac_In c))"
    using q(2,3) sel by (auto simp: setDiff_fields [OF q(1)])
  note u = authsecUndo_fields [OF pu(2)]
  show ?thesis unfolding pu(1) goodPair_def fst_conv snd_conv option.case
  proof (intro conjI impI)
    show "sound p"
    proof (cases "pl_Refusals p = []")
      case True
      show ?thesis by (rule version_sound [OF assms(4) pu(8) [OF True] pu(3-5)])
    qed (simp add: sound_def pu(5))
    show "sound u" if "pl_Refusals p = []"
      by (rule version_sound [OF assms(4) pu(8) [OF that] u(3)]) (use u(1,2) in \<open>auto simp: undoFields_def\<close>)
    show "pl_Refusals u = []" using u(1) by (simp add: undoFields_def)
    show "undoes (lr_RoleID (ac_Role c)) p u" using u pu(3,6,7,9)
      by (auto simp: undoes_def undoFields_def versionFacts_def fact_defs roleFacts_def Let_def
          intro!: exI [of _ "postState c ?arn h (ac_CurOthers c)"])
  qed
qed

lemma exclusiveUndo_fields:
  assumes "exclusiveUndo c cur doc h n p = Inr u"
  shows "undoFields c (postState c (lr_BoundaryARN (ac_Role c)) h []) u"
    "pl_Ops u = [] \<or> pl_Ops u = [createVersionOp (lr_BoundaryARN (ac_Role c)) (ac_CurHash c)]"
    "pl_Facts u = inPlaceFacts c False h (ac_CurHash c)"
  using assms by (auto simp: exclusiveUndo_def Let_def bindR_Inr_iff setDiff_fields undoBase_fields)

lemma customerDirect_sel [simp]:
  "pl_Ops (customerDirect d p) = pl_Ops p" "pl_IneligibleReason (customerDirect d p) = pl_IneligibleReason p"
  "pl_Delivery (customerDirect d p) = pl_Delivery p"
  "pl_Refusals (customerDirect d p) = [] \<longleftrightarrow> pl_Refusals p = [] \<and> pl_Delivery p \<noteq> DeliveryDirect"
  by (simp_all add: customerDirect_def)

lemma customerExclusive_good:
  assumes "customerExclusive c cur p0 = Inr pu" "pl_IneligibleReason p0 = []" "pl_Ops p0 = []"
    "pl_Delivery p0 = rs_Delivery (ti_Intent (ac_In c))"
  shows "goodPair c pu"
proof -
  let ?arn = "lr_BoundaryARN (ac_Role c)"
  let ?p1 = "customerDirect (?arn @ '' is a customer boundary; AuthSec never edits it in AWS (J2/J1 only)'') p0"
  obtain p2 r where n: "narrow c cur ?p1 = Inr (p2, r)"
    using assms(1) by (auto simp: customerExclusive_def Let_def bindR_Inr_iff)
  from n show ?thesis
  proof (cases rule: narrowE)
    case (refused ref)
    then show ?thesis using assms n by (auto simp: customerExclusive_def Let_def goodPair_def sound_def)
  next
    case (narrowed doc h nw)
    have sel: "pl_IneligibleReason p2 = []" "pl_Ops p2 = []" "pl_Delivery p2 = rs_Delivery (ti_Intent (ac_In c))"
      "pl_Refusals p2 = [] \<Longrightarrow> pl_Delivery p2 \<noteq> DeliveryDirect"
      using assms(2-4) unfolding narrowed(1) by auto
    define p3 where "p3 = p2\<lparr>pl_Diff := (pl_Diff p2)\<lparr>df_Narrowing := Some nw\<rparr>, pl_DesiredBoundaryARN := Some ?arn,
      pl_DesiredDocumentHash := Some h\<rparr>"
    define p4 where "p4 = (if \<not> nw_Changed nw then addNotes [NoteNothingToNarrow, NoteAlreadyInPlace] p3
      else p3\<lparr>pl_Ops := [createVersionOp ?arn h]\<rparr>)"
    obtain p5 u where q: "setDiff c CaseCustomerInPlace (Some (BoundaryRef ?arn (ac_CurHash c))) (Some (BoundaryRef ?arn h))
        (Some (lp_DefaultDocument cur)) (Some doc) p4 = Inr p5"
      "exclusiveUndo c cur doc h nw (p5\<lparr>pl_Facts := inPlaceFacts c True (ac_CurHash c) h\<rparr>) = Inr u"
      "pu = (p5\<lparr>pl_Facts := inPlaceFacts c True (ac_CurHash c) h\<rparr>, Some u)"
      using assms(1) unfolding customerExclusive_def Let_def n bindR_simps prod.case narrowed(2) option.case p4_def p3_def
      by (elim bindR_resE) auto
    have sel4: "pl_Ops p4 = [] \<or> pl_Ops p4 = [createVersionOp ?arn h]" "pl_IneligibleReason p4 = []"
      "pl_DesiredBoundaryARN p4 = Some ?arn" "pl_DesiredDocumentHash p4 = Some h" "pl_Refusals p4 = pl_Refusals p2"
      "pl_Delivery p4 = pl_Delivery p2" using sel(1,2) by (auto simp: p4_def p3_def)
    obtain p where pu: "pu = (p, Some u)" "exclusiveUndo c cur doc h nw p = Inr u" "pl_Facts p = inPlaceFacts c True (ac_CurHash c) h"
      "pl_Ops p = [] \<or> pl_Ops p = [createVersionOp ?arn h]"
      "pl_IneligibleReason p = []" "pl_DesiredBoundaryARN p = Some ?arn" "pl_DesiredDocumentHash p = Some h"
      "pl_Refusals p = [] \<Longrightarrow> pl_Refusals p2 = []" "pl_Delivery p = pl_Delivery p2"
      using q(2,3) sel4 by (auto simp: setDiff_fields [OF q(1)])
    note u = exclusiveUndo_fields [OF pu(2)]
    have nd: "pl_Delivery p \<noteq> DeliveryDirect \<and> pl_Delivery u \<noteq> DeliveryDirect" if "pl_Refusals p = []"
      using pu(8) [OF that] sel(3,4) pu(9) u(1) by (simp add: undoFields_def)
    show ?thesis unfolding pu(1) goodPair_def fst_conv snd_conv option.case
    proof (intro conjI impI)
      show "sound p" using pu(3-5) nd by (auto simp: sound_def inPlaceFacts_def Let_def)
      show "sound u" if "pl_Refusals p = []" using u nd [OF that] by (auto simp: sound_def inPlaceFacts_def undoFields_def Let_def)
      show "pl_Refusals u = []" using u(1) by (simp add: undoFields_def)
      show "undoes (lr_RoleID (ac_Role c)) p u" using u pu(3,6,7,9) sel(3)
        by (auto simp: undoes_def undoFields_def inPlaceFacts_def fact_defs roleFacts_def Let_def
            intro!: exI [of _ "postState c ?arn h []"])
    qed
  qed
qed

lemma sharedUnchanged_good:
  assumes "sharedUnchanged c cur p0 = Inr pu" "pl_IneligibleReason p0 = []" "pl_Ops p0 = []"
    "pl_Delivery p0 = rs_Delivery (ti_Intent (ac_In c))" "pl_Refusals p0 = [] \<Longrightarrow> pl_Delivery p0 \<noteq> DeliveryDirect"
  shows "goodPair c pu"
proof -
  let ?arn = "lr_BoundaryARN (ac_Role c)"
  let ?at = "Some (BoundaryRef ?arn (ac_CurHash c))" and ?t = "Some (lp_DefaultDocument cur)"
  define q0 where "q0 = addNotes [NoteNothingToNarrow, NoteAlreadyInPlace]
      (p0\<lparr>pl_DesiredBoundaryARN := Some ?arn, pl_DesiredDocumentHash := Some (ac_CurHash c)\<rparr>)"
  define fs where "fs = (\<lambda>d. roleFacts c d @ factBoundary ?arn ?arn # sharedFacts c)"
  obtain p1 u0 v where q: "setDiff c CaseCustomerSplit ?at ?at ?t ?t q0 = Inr p1"
    "undoBase c (p1\<lparr>pl_Facts := fs True\<rparr>) (postState c ?arn (ac_CurHash c) (ac_CurOthers c)) = Inr u0"
    "setDiff c CaseUndoSplit ?at ?at ?t ?t (addNotes [NoteAlreadyInPlace] (u0\<lparr>pl_DesiredAttachment := AttachmentPresent,
        pl_DesiredBoundaryARN := Some ?arn, pl_DesiredDocumentHash := Some (ac_CurHash c)\<rparr>)) = Inr v"
    "pu = (p1\<lparr>pl_Facts := fs True\<rparr>, Some (v\<lparr>pl_Facts := fs False\<rparr>))"
    using assms(1) unfolding sharedUnchanged_def Let_def q0_def fs_def by (elim bindR_resE) auto
  note u0 = undoBase_fields [OF q(2)]
  have v: "undoFields c (postState c ?arn (ac_CurHash c) (ac_CurOthers c)) v" "pl_Ops v = []"
    using u0 by (simp_all add: setDiff_fields [OF q(3)])
  have p1: "pl_Ops p1 = []" "pl_IneligibleReason p1 = []" "pl_Refusals p1 = pl_Refusals p0" "pl_Delivery p1 = pl_Delivery p0"
    "pl_DesiredBoundaryARN p1 = Some ?arn" "pl_DesiredDocumentHash p1 = Some (ac_CurHash c)"
    using assms(2,3) by (simp_all add: setDiff_fields [OF q(1)] q0_def)
  show ?thesis unfolding q(4) goodPair_def fst_conv snd_conv option.case
  proof (intro conjI impI)
    show "sound (p1\<lparr>pl_Facts := fs True\<rparr>)" using p1 assms(5) by (auto simp: sound_def)
    show "sound (v\<lparr>pl_Facts := fs False\<rparr>)" if "pl_Refusals (p1\<lparr>pl_Facts := fs True\<rparr>) = []"
      using v p1(3) that assms(4,5) by (simp add: sound_def undoFields_def)
    show "pl_Refusals (v\<lparr>pl_Facts := fs False\<rparr>) = []" using v(1) by (simp add: undoFields_def)
    show "undoes (lr_RoleID (ac_Role c)) (p1\<lparr>pl_Facts := fs True\<rparr>) (v\<lparr>pl_Facts := fs False\<rparr>)" using v p1 assms(4)
      by (auto simp: undoes_def undoFields_def fs_def sharedFacts_def fact_defs roleFacts_def Let_def
          intro!: exI [of _ "postState c ?arn (ac_CurHash c) (ac_CurOthers c)"])
  qed
qed

lemma splitUndo_fields:
  assumes "splitUndo c cur copyARN doc h p = Inr u"
  shows "undoFields c (postState c copyARN h []) u"
    "pl_Ops u = putBoundaryOp (lr_Name (ac_Role c)) (lr_BoundaryARN (ac_Role c)) # deletePolicyOps copyARN"
    "pl_Facts u = roleFacts c False @ [factBoundary copyARN (lr_BoundaryARN (ac_Role c)),
       factPolicyDoc copyARN h ValueAbsent, factPolicyUsers copyARN [] []] @ sharedFacts c"
  using assms by (auto simp: splitUndo_def Let_def bindR_Inr_iff setDiff_fields dest: undoBase_fields)

lemma splitCopy_good:
  assumes "splitCopy c cur copyARN copyName doc h p0 = Inr pu" "pl_IneligibleReason p0 = []"
    "pl_Delivery p0 = rs_Delivery (ti_Intent (ac_In c))" "pl_Refusals p0 = [] \<Longrightarrow> pl_Delivery p0 \<noteq> DeliveryDirect"
  shows "goodPair c pu"
proof -
  let ?arn = "lr_BoundaryARN (ac_Role c)"
  define q0 where "q0 = (refuse (nameInUse (ti_Live (ac_In c)) copyARN) p0)\<lparr>pl_DesiredBoundaryARN := Some copyARN,
      pl_DesiredDocumentHash := Some h, pl_ReplacedBoundaryARN := Some ?arn,
      pl_Ops := [createOp copyARN copyName (lp_Path cur) h [], putBoundaryOp (lr_Name (ac_Role c)) copyARN]\<rparr>"
  define fs where "fs = roleFacts c True @ [factBoundary ?arn copyARN, factPolicyDoc copyARN ValueAbsent h,
      factPolicyUsers copyARN [] []] @ sharedFacts c"
  obtain p2 u where q: "setDiff c CaseCustomerSplit (Some (BoundaryRef ?arn (ac_CurHash c))) (Some (BoundaryRef copyARN h))
      (Some (lp_DefaultDocument cur)) (Some doc) q0 = Inr p2" "splitUndo c cur copyARN doc h (p2\<lparr>pl_Facts := fs\<rparr>) = Inr u"
    "pu = (p2\<lparr>pl_Facts := fs\<rparr>, Some u)"
    using assms(1) unfolding splitCopy_def Let_def q0_def fs_def by (elim bindR_resE) auto
  note u = splitUndo_fields [OF q(2)]
  have p2: "pl_Ops p2 = [createOp copyARN copyName (lp_Path cur) h [], putBoundaryOp (lr_Name (ac_Role c)) copyARN]"
    "pl_IneligibleReason p2 = []" "pl_Refusals p2 = [] \<Longrightarrow> pl_Refusals p0 = []" "pl_Delivery p2 = pl_Delivery p0"
    "pl_DesiredBoundaryARN p2 = Some copyARN" "pl_DesiredDocumentHash p2 = Some h"
    using assms(2) by (simp_all add: setDiff_fields [OF q(1)] q0_def)
  show ?thesis unfolding q(3) goodPair_def fst_conv snd_conv option.case
  proof (intro conjI impI)
    show "sound (p2\<lparr>pl_Facts := fs\<rparr>)" using p2 assms(4) by (auto simp: sound_def)
    show "sound u" if "pl_Refusals (p2\<lparr>pl_Facts := fs\<rparr>) = []"
      using u p2(3) that assms(3,4) by (simp add: sound_def undoFields_def)
    show "pl_Refusals u = []" using u(1) by (simp add: undoFields_def)
    show "undoes (lr_RoleID (ac_Role c)) (p2\<lparr>pl_Facts := fs\<rparr>) u" using u p2 assms(3)
      by (auto simp: undoes_def undoFields_def fs_def sharedFacts_def fact_defs roleFacts_def Let_def
          intro!: exI [of _ "postState c copyARN h []"])
  qed
qed

lemma customerShared_good:
  assumes "customerShared c cur p0 = Inr pu" "pl_IneligibleReason p0 = []" "pl_Ops p0 = []"
    "pl_Delivery p0 = rs_Delivery (ti_Intent (ac_In c))"
  shows "goodPair c pu"
proof -
  let ?arn = "lr_BoundaryARN (ac_Role c)"
  obtain copyARN copyName where cp: "SplitCopyARN (ac_Part c) (ac_Acct c) (lp_Path cur) (lp_Name cur) (lr_RoleID (ac_Role c)) =
      (copyARN, copyName)" by (meson surj_pair)
  define p1 where "p1 = refuse (nameTooLong copyName) (customerDirect (?arn @
      '' is a shared customer boundary; AuthSec proposes a split copy only through J2/J1'') p0)"
  obtain p2 r where n: "narrow c cur p1 = Inr (p2, r)"
    "(case r of
           None \<Rightarrow> Inr (p2\<lparr>pl_DesiredBoundaryARN := Some copyARN, pl_Facts := roleFacts c True\<rparr>, None)
         | Some (doc, h, n) \<Rightarrow>
             if \<not> nw_Changed n then sharedUnchanged c cur (p2\<lparr>pl_Diff := (pl_Diff p2)\<lparr>df_Narrowing := Some n\<rparr>\<rparr>)
             else splitCopy c cur copyARN copyName doc h (p2\<lparr>pl_Diff := (pl_Diff p2)\<lparr>df_Narrowing := Some n\<rparr>\<rparr>)) = Inr pu"
    using assms(1) unfolding customerShared_def Let_def cp prod.case p1_def by (elim bindR_resE) auto
  have p1: "pl_IneligibleReason p1 = []" "pl_Ops p1 = []" "pl_Delivery p1 = pl_Delivery p0"
    "pl_Refusals p1 = [] \<Longrightarrow> pl_Delivery p0 \<noteq> DeliveryDirect" using assms(2,3) by (auto simp: p1_def)
  from n(1) show ?thesis
  proof (cases rule: narrowE)
    case (refused ref)
    then show ?thesis using n(2) p1 by (auto simp: goodPair_def sound_def)
  next
    case (narrowed doc h nw)
    define p3 where "p3 = p2\<lparr>pl_Diff := (pl_Diff p2)\<lparr>df_Narrowing := Some nw\<rparr>\<rparr>"
    have p3: "pl_IneligibleReason p3 = []" "pl_Ops p3 = []" "pl_Delivery p3 = rs_Delivery (ti_Intent (ac_In c))"
      "pl_Refusals p3 = [] \<Longrightarrow> pl_Delivery p3 \<noteq> DeliveryDirect"
      using p1 assms(4) unfolding p3_def narrowed(1) by auto
    show ?thesis
    proof (cases "nw_Changed nw")
      case True
      then have "splitCopy c cur copyARN copyName doc h p3 = Inr pu" using n(2) narrowed(2) by (simp add: p3_def)
      then show ?thesis by (rule splitCopy_good [OF _ p3(1,3,4)])
    next
      case False
      then have "sharedUnchanged c cur p3 = Inr pu" using n(2) narrowed(2) by (simp add: p3_def)
      then show ?thesis by (rule sharedUnchanged_good [OF _ p3])
    qed
  qed
qed

subsection \<open>Sealed plans\<close>

definition sealed :: "plan \<Rightarrow> bool" where
  "sealed p \<longleftrightarrow> CheckStorable p = [] \<and> ImpactHash (pl_Impact p) = Inr (pl_ImpactHash p) \<and>
    PlanHash (HashInput p) = Inr (pl_PlanHash p) \<and>
    MaterialHash \<lparr>mh_Plan = HashInput p, mh_ImpactHash = pl_ImpactHash p, mh_Gaps = pl_GapRefs p\<rparr> = Inr (pl_MaterialHash p)"

lemma HashInput_update [simp]:
  "HashInput (p\<lparr>pl_ImpactHash := a\<rparr>) = HashInput p" "HashInput (p\<lparr>pl_PlanHash := a\<rparr>) = HashInput p"
  "HashInput (p\<lparr>pl_MaterialHash := a\<rparr>) = HashInput p"
  by (simp_all add: HashInput_def)

lemma seal_sealed: "seal p = Inr r \<Longrightarrow> sealed r"
  by (erule sealE) (simp add: sealed_def)

lemma CheckStorable_Nil:
  "CheckStorable p = [] \<longleftrightarrow> ineligibleChk p \<and> attachmentChk p \<and> kindChk p \<and> dispositionChk p \<and> firstAttachmentChk p"
  by (auto simp: CheckStorable_def)

lemma seal_fields:
  assumes "seal p = Inr r"
  shows "pl_Ops r = (if pl_Refusals p = [] then pl_Ops p else [])" "pl_Facts r = sortFacts (pl_Facts p)"
    "pl_Delivery r = pl_Delivery p" "pl_Kind r = pl_Kind p" "pl_Refusals r = pl_Refusals p"
    "pl_DesiredBoundaryARN r = pl_DesiredBoundaryARN p" "pl_DesiredDocumentHash r = pl_DesiredDocumentHash p"
    "pl_PreconditionHash r = pl_PreconditionHash p"
    "pl_Eligibility r = (if pl_Refusals p = [] then pl_Eligibility p else EligibilityIneligible)"
    "pl_IneligibleReason r = (if pl_Refusals p = [] then pl_IneligibleReason p else joinWith ''; '' (map refusalString (pl_Refusals p)))"
    "dispositionChk p"
  by (rule sealE [OF assms]; simp add: dispositionChk_def CheckStorable_Nil)+

lemma seal_eligible:
  assumes "seal p = Inr r" "pl_IneligibleReason p = []"
  shows "Eligible r \<longleftrightarrow> pl_Refusals p = []"
proof -
  have "ineligibleChk r" by (rule sealE [OF assms(1)]) (simp add: CheckStorable_Nil)
  then show ?thesis using assms(2) seal_fields(9,10) [OF assms(1)] by (auto simp: Eligible_def ineligibleChk_def split: if_splits)
qed

definition guaranteed :: "plan \<Rightarrow> bool" where
  "guaranteed p \<longleftrightarrow> sealed p \<and> (Eligible p \<longleftrightarrow> pl_Refusals p = []) \<and> (\<not> Eligible p \<longrightarrow> pl_Ops p = []) \<and>
    loneWrites (pl_Ops p) (pl_Facts p) \<and>
    (pl_Delivery p = DeliveryDirect \<longrightarrow> ownTargets (pl_Ops p) \<and>
      (Eligible p \<longrightarrow> coversChanges (pl_Ops p) (pl_Facts p) \<and> distinct (map fc_Key (pl_Facts p))))"

lemma set_sortFacts [simp]: "set (sortFacts fs) = set fs"
  by (simp add: sortFacts_def)

lemma distinct_sortFacts: "distinct (map fc_Key (sortFacts fs)) \<longleftrightarrow> distinct (map fc_Key fs)"
  using mset_sort [of fc_Key fs] unfolding sortFacts_def by (metis distinct_map mset_eq_imp_distinct_iff set_sort)

lemma sound_seal:
  assumes "sound p" "seal p = Inr r"
  shows "guaranteed r"
  using assms(1) seal_sealed [OF assms(2)] seal_fields [OF assms(2)] seal_eligible [OF assms(2)]
  by (auto simp: sound_def guaranteed_def loneWrites_def coversChanges_def distinct_sortFacts)

subsection \<open>The target\<close>

lemma applyByBoundary_good:
  assumes "applyByBoundary i role defHash p = Inr pu" "pl_IneligibleReason p = []" "pl_Ops p = []"
    "pl_Delivery p = rs_Delivery (ti_Intent i)"
  obtains c where "goodPair c pu" "ac_In c = i" "ac_Role c = role"
proof (cases "lr_BoundaryARN role = []")
  case True
  then have "applyNone \<lparr>ac_In = i, ac_Role = role, ac_Part = liveRolePartition role, ac_Acct = lr_AccountID role, ac_CurHash = [],
      ac_CurOthers = [], ac_DefHash = defHash\<rparr> p = Inr pu" using assms(1) by (simp add: applyByBoundary_def)
  from applyNone_good [OF this assms(2)] show thesis using that assms(4) by simp
next
  case False
  let ?arn = "lr_BoundaryARN role"
  obtain cur where cur: "livePolicyOf (ti_Live i) ?arn = Inr (Some cur)"
    using assms(1) False by (auto simp: applyByBoundary_def Let_def bindR_Inr_iff split: option.splits)
  obtain h p1 where h: "archiveText (lp_DefaultDocument cur) p = Inr (h, p1)"
    using assms(1) False cur by (auto simp: applyByBoundary_def Let_def bindR_Inr_iff)
  define c where "c = \<lparr>ac_In = i, ac_Role = role, ac_Part = liveRolePartition role, ac_Acct = lr_AccountID role, ac_CurHash = h,
      ac_CurOthers = otherUsers (lp_AttachmentSet cur) (lr_RoleID role), ac_DefHash = defHash\<rparr>"
  define p2 where "p2 = p1\<lparr>pl_BeforeDocumentHash := Some h\<rparr>"
  have p2: "pl_IneligibleReason p2 = []" "pl_Ops p2 = []" "pl_Delivery p2 = rs_Delivery (ti_Intent (ac_In c))"
    using h assms(2-4) by (auto simp: p2_def c_def elim!: archiveTextE)
  have step: "(if isAuthSecPath ?arn then applyAuthsec c cur p2
      else if ac_CurOthers c = [] then customerExclusive c cur p2 else customerShared c cur p2) = Inr pu"
    using assms(1) unfolding applyByBoundary_def Let_def if_not_P [OF False] cur h bindR_simps option.case prod.case
    by (simp only: c_def p2_def applyCtx.update_convs applyCtx.select_convs)
  have "goodPair c pu"
    by (insert step, elim if_condE)
       (erule applyAuthsec_good [OF _ p2(1,2) _ p2(3)] customerExclusive_good [OF _ p2] customerShared_good [OF _ p2]; simp add: c_def)+
  then show thesis using that by (simp add: c_def)
qed

lemma CompileTargetE:
  assumes "CompileTarget i = Inr tp"
  obtains (gone) p r where "checkIncarnation (ti_Live i) (co_RoleID (ti_Control i)) \<noteq> []" "pl_IneligibleReason p = []"
      "pl_Refusals p = checkIncarnation (ti_Live i) (co_RoleID (ti_Control i))" "pl_Facts p = []"
      "seal p = Inr r" "tp = \<lparr>tp_Apply = r, tp_Undo = None\<rparr>"
    | (live) role p defHash pu where "validateTarget i = Inr ()" "checkIncarnation (ti_Live i) (co_RoleID (ti_Control i)) = []"
      "lv_Role (ti_Live i) = Some role" "pl_IneligibleReason p = []" "pl_Ops p = []" "pl_Delivery p = rs_Delivery (ti_Intent i)"
      "pl_Refusals p = RoleEligibility role @ justifyRemovals (rs_Remove (ti_Intent i))
         (bf_Activity (bu_Facts (ef_Bundle (ti_Evidence i)))) (ti_DependencyContexts i)"
      "applyByBoundary i role defHash p = Inr pu" "sealBoth pu = Inr tp"
proof (cases "checkIncarnation (ti_Live i) (co_RoleID (ti_Control i))")
  case Nil
  then obtain role where role: "lv_Role (ti_Live i) = Some role" by (auto simp: checkIncarnation_def split: option.splits)
  show thesis
    using assms role Nil
    by (auto simp: CompileTarget_def bindR_Inr_iff Let_def applyPreconditionOf_def applyStart_def intro!: live)
next
  case (Cons g gs)
  then show thesis
    using assms by (auto simp: CompileTarget_def bindR_Inr_iff Let_def applyPreconditionOf_def applyStart_def
        goneRolePrecondition_def intro!: gone)
qed

lemma sortFacts_swap:
  "sortFacts (map swapFact (filter P fs)) = map swapFact (filter P (sortFacts fs))"
proof -
  have "fc_Key \<circ> swapFact = fc_Key" by (simp add: fun_eq_iff swapFact_def)
  then show ?thesis by (simp add: sortFacts_def sort_key_map filter_sort)
qed

lemma sealBoth_good:
  assumes "goodPair c pu" "sealBoth pu = Inr tp"
  shows "guaranteed (tp_Apply tp)" "seal (fst pu) = Inr (tp_Apply tp)"
    "tp_Undo tp = None \<Longrightarrow> \<not> Eligible (tp_Apply tp)"
    "tp_Undo tp = Some u \<Longrightarrow> Eligible (tp_Apply tp) \<and> Eligible u \<and> guaranteed u \<and>
      undoes (lr_RoleID (ac_Role c)) (tp_Apply tp) u"
proof -
  obtain ap where ap: "seal (fst pu) = Inr ap" "(if \<not> Eligible ap then Inr \<lparr>tp_Apply = ap, tp_Undo = None\<rparr>
      else (case snd pu of None \<Rightarrow> Inl NilDereference
            | Some u \<Rightarrow> bindR (seal u) (\<lambda>v. Inr \<lparr>tp_Apply = ap, tp_Undo = Some v\<rparr>))) = Inr tp"
    using assms(2) unfolding sealBoth_def by (elim bindR_resE) auto
  then have tp: "tp_Apply tp = ap" by (auto simp: bindR_Inr_iff split: if_splits option.splits)
  have s: "sound (fst pu)" using assms(1) by (simp add: goodPair_def)
  note el = seal_eligible [OF ap(1)]
  have r: "pl_IneligibleReason (fst pu) = []" using s by (simp add: sound_def)
  show "guaranteed (tp_Apply tp)" unfolding tp by (rule sound_seal [OF s ap(1)])
  show "seal (fst pu) = Inr (tp_Apply tp)" unfolding tp by (rule ap(1))
  show "\<not> Eligible (tp_Apply tp)" if "tp_Undo tp = None"
    using ap(2) that unfolding tp by (auto simp: bindR_Inr_iff split: if_splits option.splits)
  show "Eligible (tp_Apply tp) \<and> Eligible u \<and> guaranteed u \<and> undoes (lr_RoleID (ac_Role c)) (tp_Apply tp) u"
    if "tp_Undo tp = Some u"
  proof -
    obtain v where v: "Eligible ap" "snd pu = Some v" "seal v = Inr u"
      using ap(2) \<open>tp_Undo tp = Some u\<close> by (auto simp: bindR_Inr_iff split: if_splits option.splits)
    have g: "sound v" "pl_Refusals v = []" "undoes (lr_RoleID (ac_Role c)) (fst pu) v"
      using assms(1) v(1,2) el [OF r] by (auto simp: goodPair_def)
    have "Eligible u" using seal_eligible [OF v(3)] g(1,2) by (simp add: sound_def)
    moreover have "undoes (lr_RoleID (ac_Role c)) ap u"
      using g(3) by (simp add: undoes_def seal_fields [OF v(3)] seal_fields [OF ap(1)] sortFacts_swap)
    ultimately show ?thesis unfolding tp using v(1) sound_seal [OF g(1) v(3)] by simp
  qed
qed

subsection \<open>Recovery and removal\<close>

definition core :: "plan \<Rightarrow> bool" where
  "core p \<longleftrightarrow> pl_IneligibleReason p = [] \<and>
    (pl_Refusals p = [] \<longrightarrow> loneWrites (pl_Ops p) (pl_Facts p) \<and> coversChanges (pl_Ops p) (pl_Facts p) \<and>
      (dispositionChk p \<longrightarrow> distinct (map fc_Key (pl_Facts p))))"

lemma foreignTargets_Nil: "foreignTargets ops = [] \<longleftrightarrow> ownTargets ops"
  by (auto simp: foreignTargets_def ownTargets_def filter_empty_conv)

lemma core_sound:
  assumes "core p" "pl_Delivery p = DeliveryDirect \<Longrightarrow> rs = [] \<Longrightarrow> ownTargets (pl_Ops p)"
  shows "sound (refuse rs p)"
  using assms by (auto simp: core_def sound_def dispositionChk_def)

lemma core_update [simp]:
  "core (addNotes ns p) \<longleftrightarrow> core p" "core (p\<lparr>pl_Diff := d, pl_Impact := im\<rparr>) \<longleftrightarrow> core p"
  by (simp_all add: core_def dispositionChk_def)

lemma disposition_apart:
  "\<lbrakk>dispositionChk q; pl_ArtifactDisposition q = d; d \<noteq> DispositionKeep; pl_ReplacedBoundaryARN q = Some a; pl_DesiredBoundaryARN q = Some b\<rbrakk>
    \<Longrightarrow> a \<noteq> b"
  by (auto simp: dispositionChk_def)

lemma retain_not_keep: "DispositionRetainShared \<noteq> DispositionKeep"
  by (simp add: go_consts)

lemma recoverNewPolicy_core:
  assumes "recoverNewPolicy i role installed docHash others p = Inr q" "pl_IneligibleReason p = []"
    "pl_ReplacedBoundaryARN p = Some installed" "pl_ArtifactDisposition p = DispositionRetainShared"
  shows "core q"
proof -
  obtain uarn uname where un: "RecoveryPolicyARN (liveRolePartition role) (lr_AccountID role) (lr_RoleID role) (ri_UndoneDeploymentID i)
      = (uarn, uname)" by (meson surj_pair)
  obtain eh p1 where a: "archiveText (ri_EarlierDocument i) p = Inr (eh, p1)"
    using assms(1) by (auto simp: recoverNewPolicy_def bindR_Inr_iff split: if_splits)
  have p1: "pl_IneligibleReason p1 = []" "pl_ReplacedBoundaryARN p1 = Some installed" "pl_ArtifactDisposition p1 = DispositionRetainShared"
    using a assms(2-4) by (auto elim!: archiveTextE)
  define fs where "fs = [factRole (lr_RoleID role), factBoundary installed uarn,
      factPolicyDoc uarn ValueAbsent eh, factPolicyOwner uarn ValueAbsent (controlOwner (ri_Control i)), factPolicyUsers uarn [] [],
      factPolicyDoc installed docHash docHash, factPolicyOwner installed (controlOwner (ri_Control i)) (controlOwner (ri_Control i)),
      factPolicyUsers installed others others]"
  have q: "pl_Ops q = [createOp uarn uname AuthSecPolicyPath eh (createTags (ri_Control i)), putBoundaryOp (lr_Name role) uarn]"
    "pl_Facts q = fs" "pl_IneligibleReason q = []" "pl_ReplacedBoundaryARN q = Some installed"
    "pl_ArtifactDisposition q = DispositionRetainShared" "pl_DesiredBoundaryARN q = Some uarn"
    using assms(1) p1 by (auto simp: recoverNewPolicy_def a un fs_def Let_def split: if_splits)
  show ?thesis using disposition_apart [OF _ q(5) retain_not_keep q(4,6)]
    by (auto simp: core_def q(1-3) fs_def covers_alt fact_defs)
qed

lemma recoverSplit_core:
  assumes "recoverSplit i role shared installed docHash others p = Inr q" "pl_IneligibleReason p = []"
    "pl_ReplacedBoundaryARN p = Some installed" "pl_ArtifactDisposition p = DispositionRetainShared"
  shows "core q"
proof -
  obtain r where r: "livePolicyOf (ri_Live i) shared = Inr r" using assms(1) by (auto simp: recoverSplit_def bindR_Inr_iff)
  show ?thesis
  proof (cases r)
    case None
    then show ?thesis using assms(1,2) r by (auto simp: recoverSplit_def core_def)
  next
    case (Some sp)
    obtain sh p1 where a: "archiveText (lp_DefaultDocument sp) p = Inr (sh, p1)"
      using assms(1) r Some by (auto simp: recoverSplit_def bindR_Inr_iff)
    have p1: "pl_IneligibleReason p1 = []" "pl_ReplacedBoundaryARN p1 = Some installed" "pl_ArtifactDisposition p1 = DispositionRetainShared"
      using a assms(2-4) by (auto elim!: archiveTextE)
    define so where "so = otherUsers (lp_AttachmentSet sp) (lr_RoleID role)"
    have q: "pl_Ops q = [putBoundaryOp (lr_Name role) shared]" "pl_IneligibleReason q = []"
      "pl_Facts q = [factRole (lr_RoleID role), factBoundary installed shared, factPolicyDoc installed docHash docHash,
        factPolicyUsers installed others others, factPolicyDoc shared sh sh, factPolicyUsers shared so so]"
      "pl_ReplacedBoundaryARN q = Some installed" "pl_ArtifactDisposition q = DispositionRetainShared"
      "pl_DesiredBoundaryARN q = Some shared"
      using assms(1) p1 r Some a by (auto simp: recoverSplit_def so_def Let_def)
    show ?thesis using disposition_apart [OF _ q(5) retain_not_keep q(4,6)]
      by (auto simp: core_def q(1-3) covers_alt fact_defs)
  qed
qed

lemma recoverCase_core:
  assumes "recoverCase i role installed docHash others p = Inr q" "pl_IneligibleReason p = []"
    "pl_ReplacedBoundaryARN p = Some installed" "pl_ArtifactDisposition p = DispositionRetainShared"
  shows "core q"
proof -
  have detach: "core (recoverDetach i role installed docHash others p)"
    using assms(2) by (simp add: core_def recoverDetach_def Let_def covers_alt fact_defs)
  have none: "core ((refuse [r] p)\<lparr>pl_DesiredAttachment := d\<rparr>)" for r d using assms(2) by (simp add: core_def)
  show ?thesis
    using assms(1) detach none recoverNewPolicy_core [OF _ assms(2-4)] recoverSplit_core [OF _ assms(2-4)]
    by (auto simp: recoverCase_def Let_def split: if_splits option.splits)
qed

lemma recoverFinish_guaranteed:
  assumes "recoverFinish p = Inr r" "core p"
  shows "guaranteed r"
proof -
  define q where "q = (if df_Case (pl_Diff p) \<noteq> CaseRecoverSplit \<and> df_Case (pl_Diff p) \<noteq> [] then addNotes [NotePolicyRetained] p else p)"
  have "seal (refuse (if pl_Delivery q = DeliveryDirect then foreignTargets (pl_Ops q) else []) q) = Inr r"
    using assms(1) by (simp only: recoverFinish_def q_def Let_def)
  moreover have "core q" using assms(2) by (simp add: q_def)
  ultimately show ?thesis using core_sound sound_seal foreignTargets_Nil by metis
qed

lemma refused_guaranteed:
  assumes "seal p = Inr r" "pl_Refusals p \<noteq> []" "pl_IneligibleReason p = []"
  shows "guaranteed r"
  by (rule sound_seal [OF _ assms(1)]) (simp add: sound_def assms(2,3))

lemma recovery_guaranteed:
  assumes "CompileRoleOnlyRecovery i = Inr r"
  shows "guaranteed r"
proof -
  define gone where "gone = checkIncarnation (ri_Live i) (co_RoleID (ri_Control i))"
  obtain st where pre: "readPrecondition (pl_Precondition (ri_Undo i)) = Some st"
    using assms unfolding CompileRoleOnlyRecovery_def by (elim bindR_resE) (auto split: option.splits)
  have st: "(case (gone, lv_Role (ri_Live i)) of
      ([], Some role) \<Rightarrow> recoverLive i st role (recoverStart i) | _ \<Rightarrow> recoverGone i st gone (recoverStart i)) = Inr r"
    using assms unfolding CompileRoleOnlyRecovery_def pre option.case Let_def gone_def by (elim bindR_resE) 
  have start: "pl_IneligibleReason (recoverStart i) = []" "pl_ArtifactDisposition (recoverStart i) = DispositionRetainShared"
    by (simp_all add: recoverStart_def)
  show ?thesis
  proof (cases gone)
    case Nil
    then obtain role where role: "lv_Role (ri_Live i) = Some role"
      by (auto simp: gone_def checkIncarnation_def split: option.splits)
    have "recoverLive i st role (recoverStart i) = Inr r" using st Nil role by simp
    then obtain others p q where q: "recoverCase i role (derefOr (as_BoundaryARN st) []) (derefOr (as_BoundaryDocumentHash st) []) others p = Inr q"
      "recoverFinish q = Inr r" "pl_IneligibleReason p = []" "pl_ReplacedBoundaryARN p = Some (derefOr (as_BoundaryARN st) [])"
      "pl_ArtifactDisposition p = DispositionRetainShared"
      using start by (auto simp: recoverLive_def bindR_Inr_iff Let_def elim!: statePreconditionE)
    show ?thesis by (rule recoverFinish_guaranteed [OF q(2) recoverCase_core [OF q(1,3-5)]])
  next
    case (Cons g gs)
    then have "recoverGone i st gone (recoverStart i) = Inr r" using st by simp
    then obtain q where "seal q = Inr r" "pl_Refusals q \<noteq> []" "pl_IneligibleReason q = []"
      using start Cons by (auto simp: recoverGone_def bindR_Inr_iff elim!: statePreconditionE)
    then show ?thesis by (rule refused_guaranteed)
  qed
qed

lemma curOwner_set: "f \<in> set (curOwnerFacts cur b a) \<Longrightarrow> f = factPolicyOwner cur b a"
  by (auto simp: curOwnerFacts_def split: if_splits)

lemma curOwner_keys: "map fc_Key (curOwnerFacts cur b a) = (if isAuthSecPath cur then [factKey FactPolicyOwner cur] else [])"
  by (simp add: curOwnerFacts_def fact_defs)

lemma replaced_facts:
  "rx_Others c = [] \<Longrightarrow> factPolicyUsers (rx_Cur c) [] [] \<in> set (replacedFacts c)"
  "f \<in> set (replacedFacts c) \<Longrightarrow> Changes f \<Longrightarrow> rx_Others c = [] \<and>
    fc_Key f \<in> {factKey FactPolicyDocument (rx_Cur c), factKey FactPolicyOwner (rx_Cur c)}"
  "map fc_Key (replacedFacts c) = [factKey FactPolicyDocument (rx_Cur c), factKey FactPolicyUsers (rx_Cur c)] @
    (if isAuthSecPath (rx_Cur c) then [factKey FactPolicyOwner (rx_Cur c)] else [])"
  by (auto simp: replacedFacts_def Let_def curOwner_keys dest!: curOwner_set split: if_splits) (auto simp: fact_defs)

lemma covers_cons: "coversChanges ops fs \<Longrightarrow> coversChanges (q # ops) fs"
  by (auto simp: covers_alt)

lemma covers_split: "coversChanges ops (f # fs) \<longleftrightarrow> (\<not> fc_OnlyBefore f \<and> Changes f \<longrightarrow> fc_Key f \<in> set (concat (map opEffects ops))) \<and>
    coversChanges ops fs" "coversChanges ops (fs @ gs) \<longleftrightarrow> coversChanges ops fs \<and> coversChanges ops gs" "coversChanges ops []"
  by (auto simp: covers_alt)

lemma replaced_covered:
  "coversChanges (q # (if rx_Others c = [] then deletePolicyOps (rx_Cur c) else [])) (replacedFacts c)"
  by (rule covers_cons) (use replaced_facts(2) [of _ c] op_effects(7) [of "rx_Cur c"] in \<open>simp add: covers_alt\<close>)

lemma removeDetach_core:
  assumes "pl_IneligibleReason p = []"
  shows "core (removeDetach c p)"
proof -
  have sel: "pl_IneligibleReason (removeDetach c p) = []"
    "pl_Facts (removeDetach c p) = factRole (lr_RoleID (rx_Role c)) # factBoundary (rx_Cur c) ValueNone # replacedFacts c"
    "pl_Ops (removeDetach c p) = deleteBoundaryOp (lr_Name (rx_Role c)) # (if rx_Others c = [] then deletePolicyOps (rx_Cur c) else [])"
    using assms by (auto simp: removeDetach_def Let_def)
  have "coversChanges (pl_Ops (removeDetach c p)) (pl_Facts (removeDetach c p))"
    unfolding sel covers_split using replaced_covered by (simp add: fact_defs)
  moreover have "loneWrites (pl_Ops (removeDetach c p)) (pl_Facts (removeDetach c p))"
    using replaced_facts(1) [of c] unfolding sel by simp
  ultimately show ?thesis by (simp add: core_def sel replaced_facts(3) fact_defs)
qed

lemma removeInPlace_core:
  assumes "removeInPlace c bh p = Inr q" "pl_IneligibleReason p = []" "pl_Ops p = []"
  shows "core q"
proof -
  let ?cur = "rx_Cur c" and ?o = "rx_Others c" and ?w = "controlOwner (rv_Control (rx_In c))"
  obtain p1 where a: "archiveText (bn_Document (rv_Baseline (rx_In c))) p = Inr (bh, p1)"
    using assms(1) by (auto simp: removeInPlace_def Let_def bindR_Inr_iff split: if_splits)
  have p1: "pl_IneligibleReason p1 = []" "pl_Ops p1 = []" using a assms(2,3) by (auto elim!: archiveTextE)
  have q: "pl_IneligibleReason q = []" "pl_Refusals q = [] \<Longrightarrow> ?o = []"
    "pl_Facts q = [factRole (lr_RoleID (rx_Role c)), factBoundary ?cur ?cur, factPolicyDoc ?cur (rx_CurHash c) bh,
      factPolicyUsers ?cur ?o ?o] @ curOwnerFacts ?cur ?w ?w"
    "newVersion (pl_Ops q) ?cur (rx_CurHash c) bh \<or> pl_Ops q = [createVersionOp ?cur bh]"
    using assms(1) p1 by (auto simp: removeInPlace_def Let_def a split: if_splits)
  have "coversChanges (pl_Ops q) (pl_Facts q)"
    using q(4) unfolding q(3) covers_alt by (auto simp: newVersion_def fact_defs dest!: curOwner_set)
  moreover have "loneWrites (pl_Ops q) (pl_Facts q)" if "pl_Refusals q = []"
    using q(4) q(2) [OF that] unfolding q(3) by (auto simp: newVersion_def)
  ultimately show ?thesis by (simp add: core_def q(1,3) curOwner_keys fact_defs)
qed

lemma removeRepoint_core:
  assumes "removeRepoint c b bh p = Inr (q, t)" "pl_IneligibleReason p = []" "b \<noteq> rx_Cur c"
  shows "core q"
proof -
  obtain r where r: "livePolicyOf (rv_Live (rx_In c)) b = Inr r" using assms(1) by (auto simp: removeRepoint_def bindR_Inr_iff)
  have base: "pl_IneligibleReason (repointBase c b p) = []" using assms(2) by (simp add: repointBase_def)
  show ?thesis
  proof (cases r)
    case None
    then show ?thesis using assms(1) r base by (auto simp: removeRepoint_def core_def)
  next
    case (Some bp)
    obtain h p2 where a: "archiveText (lp_DefaultDocument bp) (repointBase c b p) = Inr (h, p2)"
      using assms(1) r Some by (auto simp: removeRepoint_def bindR_Inr_iff Let_def)
    have p2: "pl_IneligibleReason p2 = []" using a base by (auto elim!: archiveTextE)
    define bo where "bo = otherUsers (lp_AttachmentSet bp) (lr_RoleID (rx_Role c))"
    have q: "pl_IneligibleReason q = []" "pl_Facts q = [factRole (lr_RoleID (rx_Role c)), factBoundary (rx_Cur c) b,
        factPolicyDoc b h h, factPolicyUsers b bo bo] @ replacedFacts c"
      "pl_Ops q = putBoundaryOp (lr_Name (rx_Role c)) b # (if rx_Others c = [] then deletePolicyOps (rx_Cur c) else [])"
      using assms(1) p2 by (auto simp: removeRepoint_def r Some a Let_def bo_def)
    have "coversChanges (pl_Ops q) (pl_Facts q)"
      unfolding q covers_split using replaced_covered by (simp add: fact_defs covers_split(3))
    moreover have "loneWrites (pl_Ops q) (pl_Facts q)"
      using replaced_facts(1) [of c] unfolding q by simp
    ultimately show ?thesis using assms(3) by (simp add: core_def q replaced_facts(3) fact_defs)
  qed
qed

lemma removeCase_core:
  assumes "removeCase c p = Inr (q, t)" "pl_IneligibleReason p = []" "pl_Ops p = []"
  shows "core q"
  using assms removeDetach_core [OF assms(2), of c] removeInPlace_core [OF _ assms(2,3)] removeRepoint_core [OF _ assms(2)]
  by (auto simp: removeCase_def Let_def bindR_Inr_iff split: option.splits if_splits)

lemma core_eligibility: "core (p\<lparr>pl_Eligibility := e\<rparr>) \<longleftrightarrow> core p" "sound (p\<lparr>pl_Eligibility := e\<rparr>) \<longleftrightarrow> sound p"
  by (simp_all add: core_def sound_def dispositionChk_def)

lemma removeFinish_guaranteed:
  assumes "removeFinish c (p, t) = Inr r" "core p"
  shows "guaranteed r"
proof -
  obtain d im where s: "seal (removeEligibility (rx_Cur c) (removeDirect (p\<lparr>pl_Diff := d, pl_Impact := im\<rparr>))) = Inr r"
    using assms(1) by (auto simp: removeFinish_def Let_def bindR_Inr_iff)
  define q where "q = p\<lparr>pl_Diff := d, pl_Impact := im\<rparr>"
  have "core q" using assms(2) by (simp add: q_def)
  then have "sound (removeDirect q)" unfolding removeDirect_def
    by (rule core_sound) (simp add: foreignTargets_Nil)
  then have "sound (removeEligibility (rx_Cur c) (removeDirect q))" by (simp add: removeEligibility_def core_eligibility)
  then show ?thesis using s sound_seal unfolding q_def by blast
qed

lemma removal_guaranteed:
  assumes "CompileRemoveControl i = Inr r"
  shows "guaranteed r"
proof -
  define gone where "gone = checkIncarnation (rv_Live i) (co_RoleID (rv_Control i))"
  have st: "(case (gone, lv_Role (rv_Live i)) of
      ([], Some role) \<Rightarrow> removeLive i role (removeStart i) | _ \<Rightarrow> removeGone i gone (removeStart i)) = Inr r"
    using assms unfolding CompileRemoveControl_def Let_def gone_def by (elim bindR_resE)
  have start: "pl_IneligibleReason (removeStart i) = []" "pl_Ops (removeStart i) = []"
    by (simp_all add: removeStart_def Let_def)
  show ?thesis
  proof (cases gone)
    case Nil
    then obtain role where role: "lv_Role (rv_Live i) = Some role"
      by (auto simp: gone_def checkIncarnation_def split: option.splits)
    have live: "removeLive i role (removeStart i) = Inr r" using st Nil role by simp
    then obtain s cur h where s: "ArtifactState (rv_Live i) = Inr s" "as_BoundaryARN s = Some cur" "as_BoundaryDocumentHash s = Some h"
      by (auto simp: removeLive_def bindR_Inr_iff split: option.splits prod.splits sum.splits)
    obtain pol where pol: "livePolicyOf (rv_Live i) cur = Inr (Some pol)"
      using live s by (cases "livePolicyOf (rv_Live i) cur"; cases "projr (livePolicyOf (rv_Live i) cur)")
        (auto simp: removeLive_def bindR_Inr_iff)
    obtain c p q t where q: "removeCase c p = Inr (q, t)" "removeFinish c (q, t) = Inr r" "pl_IneligibleReason p = []" "pl_Ops p = []"
      using live start by (auto simp: removeLive_def bindR_Inr_iff Let_def s pol elim!: statePreconditionE archiveTextE)
    show ?thesis by (rule removeFinish_guaranteed [OF q(2) removeCase_core [OF q(1,3,4)]])
  next
    case (Cons g gs)
    then have "removeGone i gone (removeStart i) = Inr r" using st by simp
    then obtain q where "seal q = Inr r" "pl_Refusals q \<noteq> []" "pl_IneligibleReason q = []"
      using start Cons by (auto simp: removeGone_def bindR_Inr_iff elim!: statePreconditionE)
    then show ?thesis by (rule refused_guaranteed)
  qed
qed

lemma target_guaranteed:
  assumes "CompileTarget i = Inr tp"
  shows "guaranteed (tp_Apply tp)" "tp_Undo tp = None \<Longrightarrow> \<not> Eligible (tp_Apply tp)"
    "tp_Undo tp = Some u \<Longrightarrow> Eligible (tp_Apply tp) \<and> Eligible u \<and> guaranteed u \<and>
      undoes (co_RoleID (ti_Control i)) (tp_Apply tp) u"
proof -
  have "guaranteed (tp_Apply tp) \<and> (tp_Undo tp = None \<longrightarrow> \<not> Eligible (tp_Apply tp)) \<and>
    (\<forall>u. tp_Undo tp = Some u \<longrightarrow> Eligible (tp_Apply tp) \<and> Eligible u \<and> guaranteed u \<and>
      undoes (co_RoleID (ti_Control i)) (tp_Apply tp) u)"
    using assms
  proof (cases rule: CompileTargetE)
    case (gone p r)
    then have "guaranteed r" using refused_guaranteed [of p r] by simp
    moreover have "\<not> Eligible r" using seal_eligible [OF gone(5,2)] gone(1,3) by simp
    ultimately show ?thesis by (simp add: gone(6))
  next
    case (live role p defHash pu)
    obtain c where c: "goodPair c pu" "ac_Role c = role" using applyByBoundary_good [OF live(8) live(4-6)] by blast
    have "lr_RoleID role = co_RoleID (ti_Control i)" using live(2,3) by (simp add: checkIncarnation_def split: if_splits)
    then show ?thesis using sealBoth_good [OF c(1) live(9)] c(2) by auto
  qed
  then show "guaranteed (tp_Apply tp)" "tp_Undo tp = None \<Longrightarrow> \<not> Eligible (tp_Apply tp)"
    "tp_Undo tp = Some u \<Longrightarrow> Eligible (tp_Apply tp) \<and> Eligible u \<and> guaranteed u \<and>
      undoes (co_RoleID (ti_Control i)) (tp_Apply tp) u" by blast+
qed

text \<open>The plans the compiler returns.\<close>

inductive compiled :: "plan \<Rightarrow> bool" where
  apply_plan: "CompileTarget i = Inr tp \<Longrightarrow> compiled (tp_Apply tp)"
| undo_plan: "CompileTarget i = Inr tp \<Longrightarrow> tp_Undo tp = Some u \<Longrightarrow> compiled u"
| recovery_plan: "CompileRoleOnlyRecovery j = Inr p \<Longrightarrow> compiled p"
| removal_plan: "CompileRemoveControl k = Inr p \<Longrightarrow> compiled p"

lemma compiled_guaranteed: "compiled p \<Longrightarrow> guaranteed p"
  by (induction rule: compiled.induct)
     (auto intro: target_guaranteed(1) recovery_guaranteed removal_guaranteed dest: target_guaranteed(3))

end
