(* ===== verification/CompileTotal.thy ===== *)
theory CompileTotal
  imports CompileProps
begin

section \<open>Compiling always answers\<close>

text \<open>
  Sealing fails only on a missing field or a storage check, never on a hash. With it, compiling a
  target whose role has no boundary gives a plan for every input that passes validation: the
  refusals are in the plan, not errors.
\<close>

subsection \<open>Sealing\<close>

definition tagNames :: "planOp \<Rightarrow> string list" where
  "tagNames q = map (\<lambda>kv. jsonText (fst kv)) (op_Tags q)"

lemma shallow_tags: "distinct (map (\<lambda>kv. jsonText (fst kv)) t) \<Longrightarrow> shallow (Suc n) (tagsJSON t)"
  by (simp add: tagsJSON_def shallow_object case_prod_beta comp_def)

lemma shallow_op:
  assumes "distinct (tagNames q)"
  shows "shallow (Suc (Suc n)) (opJSON q)"
  unfolding opJSON_def
proof (rule shallow_members)
  show "namesWithin [''op'', ''role_name'', ''role_arn'', ''policy_arn'', ''policy_name'', ''path'', ''document_hash'',
      ''set_as_default'', ''tags'', ''select'', ''if_versions_at_least'', ''subject_arn'', ''trust_policy_hash'', ''resource_arn'',
      ''principal'', ''inline_name'', ''instance_profile'', ''only_if_unused'', ''binding'', ''steps'']
    ((''op'', jstr (op_Op q)) # omitempty ''role_name'' (op_RoleName q) @
    omitempty ''role_arn'' (op_RoleARN q) @ omitempty ''policy_arn'' (op_PolicyARN q) @
    omitempty ''policy_name'' (op_PolicyName q) @ omitempty ''path'' (op_Path q) @
    omitempty ''document_hash'' (op_DocumentHash q) @
    (if op_SetAsDefault q then [(''set_as_default'', JBool True)] else []) @
    (if op_Tags q = [] then [] else [(''tags'', tagsJSON (op_Tags q))]) @
    omitempty ''select'' (op_Select q) @
    (if op_IfVersionsAtLeast q = 0 then [] else [(''if_versions_at_least'', jint (op_IfVersionsAtLeast q))]) @
    omitempty ''subject_arn'' (op_SubjectARN q) @ omitempty ''trust_policy_hash'' (op_TrustPolicyHash q) @
    omitempty ''resource_arn'' (op_ResourceARN q) @ omitempty ''principal'' (op_Principal q) @
    omitempty ''inline_name'' (op_InlineName q) @ omitempty ''instance_profile'' (op_InstanceProfile q) @
    (if op_OnlyIfUnused q then [(''only_if_unused'', JBool True)] else []) @
    omitempty ''binding'' (op_Binding q) @
    (if op_Steps q = [] then [] else [(''steps'', JArray (map jstr (op_Steps q)))]))"
    by (intro names_intros)
  show "distinct [''op'', ''role_name'', ''role_arn'', ''policy_arn'', ''policy_name'', ''path'', ''document_hash'',
      ''set_as_default'', ''tags'', ''select'', ''if_versions_at_least'', ''subject_arn'', ''trust_policy_hash'', ''resource_arn'',
      ''principal'', ''inline_name'', ''instance_profile'', ''only_if_unused'', ''binding'', ''steps'']" by code_simp
qed (use shallow_tags assms in \<open>auto dest: shallow_omitempty simp: shallow_array tagNames_def split: if_splits\<close>)

lemma canonicalAll_total: "\<forall>v \<in> set vs. shallow 4 v \<Longrightarrow> \<exists>cs. canonicalAll vs = Inr cs"
proof (induction vs)
  case (Cons v vs)
  then have "canonical v = Inr (writeCanonical v)" by (intro shallow_hash [of 4]) (simp_all add: maxJSONDepth_def)
  with Cons show ?case by auto
qed simp

lemma planFields_total:
  assumes "planComplete h" "ph_BundleHash h \<noteq> []" "0 < ph_EvidenceRev h" "ph_Ops h = Some (JArray (map opJSON ops))"
    "\<forall>q \<in> set ops. distinct (tagNames q)"
  shows "\<exists>f. planFields h e = Inr f"
proof -
  have "shallow 4 v" if "v \<in> set (planHead h @ (if e then planEvidence h else []) @ planTail h)" for v
    using that assms(4,5) shallow_op [of _ 1]
    by (auto simp: planHead_def planEvidence_def planTail_def numeral_eq_Suc shallow_array shallow_unanalysed split: if_splits)
  then have "\<exists>cs. canonicalAll (planHead h @ (if e then planEvidence h else []) @ planTail h) = Inr cs"
    by (intro canonicalAll_total ballI)
  then show ?thesis using assms(1-3) by (simp only: planFields_def) simp
qed

lemma taggedHash_nonempty: "taggedHash d fs \<noteq> []"
  by (simp add: taggedHash_def sha256Label_def HashPrefix_def)

lemma ImpactHash_nonempty: "ImpactHash im = Inr h \<Longrightarrow> h \<noteq> []"
  by (auto simp: ImpactHash_def HashCanonicalTagged_def bindR_Inr_iff taggedHash_nonempty)

lemma CheckStorable_update [simp]:
  "CheckStorable (p\<lparr>pl_ImpactHash := a\<rparr>) = CheckStorable p" "CheckStorable (p\<lparr>pl_PlanHash := a\<rparr>) = CheckStorable p"
  "CheckStorable (p\<lparr>pl_MaterialHash := a\<rparr>) = CheckStorable p"
  by (simp_all add: CheckStorable_def ineligibleChk_def attachmentChk_def kindChk_def isSplit_def dispositionChk_def firstAttachmentChk_def)

lemma seal_total:
  assumes "planComplete (HashInput (settle p))" "pl_BundleHash p \<noteq> []" "0 < pl_EvidenceRev p"
    "\<forall>q \<in> set (pl_Ops p). distinct (tagNames q)" "CheckStorable (settle p) = []"
  shows "\<exists>r. seal p = Inr r"
proof -
  let ?h = "HashInput (settle p)"
  have h: "ph_BundleHash ?h \<noteq> []" "0 < ph_EvidenceRev ?h" "ph_Ops ?h = Some (JArray (map opJSON (pl_Ops (settle p))))"
    "\<forall>q \<in> set (pl_Ops (settle p)). distinct (tagNames q)"
    using assms(2-4) by (simp_all add: HashInput_def settle_def Let_def)
  obtain ih where ih: "ImpactHash (pl_Impact (settle p)) = Inr ih" using ImpactHash_total by blast
  have ne: "ih \<noteq> []" by (rule ImpactHash_nonempty [OF ih])
  obtain f g where fg: "planFields ?h True = Inr f" "planFields ?h False = Inr g"
    using planFields_total [OF assms(1) h] by meson
  have gaps: "canonical (JArray (map gapRefJSON gs)) = Inr (writeCanonical (JArray (map gapRefJSON gs)))" for gs
    by (rule shallow_hash [of 2]) (simp_all add: numeral_2_eq_2 shallow_array shallow_structs maxJSONDepth_def)
  have i: "canonical (jstr ih) = Inr (writeCanonical (jstr ih))" by (rule shallow_hash [of 1]) (simp_all add: maxJSONDepth_def)
  show ?thesis
    using assms(5) ne by (simp add: seal_def Let_def ih fg gaps i hashed_def PlanHash_def MaterialHash_def materialFields_def)
qed

subsection \<open>The document of a first boundary\<close>

lemma trimFuel_fixed: "find (\<lambda>e. prefix e s) encs = None \<Longrightarrow> trimFuel n encs s = s"
  by (cases n) simp_all

lemma spaces_apart: "list_all (\<lambda>e. e \<noteq> [] \<and> list_all (\<lambda>c. \<not> isServiceChar c) e) spaceEncodings"
  by code_simp

lemma service_trimmed:
  assumes "reService s"
  shows "toLower (trimSpace s) = s"
proof -
  have no: "\<not> prefix e t" if "e \<in> set spaceEncodings \<or> e \<in> set (map rev spaceEncodings)" "set t = set s" for e t
  proof
    assume "prefix e t"
    moreover have "e \<noteq> []" "list_all (\<lambda>c. \<not> isServiceChar c) e"
      using that(1) spaces_apart by (auto simp: list_all_iff)
    ultimately have "hd e \<in> set s" "\<not> isServiceChar (hd e)"
      using that(2) by (auto simp: list_all_iff dest: set_mono_prefix hd_in_set)
    then show False using assms by (auto simp: reService_def list_all_iff)
  qed
  have l: "trimLeft s = s" unfolding trimLeft_def by (rule trimFuel_fixed) (use no in \<open>auto simp: find_None_iff\<close>)
  have "trimFuel (length s) (map rev spaceEncodings) (rev s) = rev s"
    by (rule trimFuel_fixed) (use no [of _ "rev s"] in \<open>auto simp: find_None_iff\<close>)
  then have "trimSpace s = s" by (simp add: trimSpace_def l trimRight_def)
  moreover have "toLowerByte c = c" if "isServiceChar c" for c
    using that by (auto simp: isServiceChar_def isLowerAlpha_def inRange_def isDigit_def toLowerByte_def)
  then have "toLower s = s" using assms unfolding toLower_def reService_def list_all_iff by (simp add: map_idI)
  ultimately show ?thesis by simp
qed

lemma exclude_only_total:
  assumes "remove \<noteq> []" "\<forall>s \<in> set remove. reService s"
  obtains doc h d where "ExcludeOnlyDocument remove = Inr (doc, h)" "DecodePolicyDocument doc = Inr d"
proof -
  let ?as = "map (\<lambda>s. s @ '':*'') remove"
  have a: "exclusionActions remove = Inr ?as" using assms(2) service_trimmed by (auto simp: exclusionActions_Inr)
  have c: "canonical (exclusionJSON ?as) = Inr (writeCanonical (exclusionJSON ?as))"
    by (rule shallow_hash [OF exclusion_shallow]) (simp add: maxJSONDepth_def)
  have "\<forall>a \<in> set ?as. jstr a = JString a" using assms(2) jstr_action by auto
  then obtain d where "DecodePolicyDocument (writeCanonical (exclusionJSON ?as)) = Inr d" by (rule exclusion_decoded)
  then show thesis using that assms(1) a c by (simp add: ExcludeOnlyDocument_def hashed_def)
qed

lemma setDiff_total:
  assumes "\<And>t. bt = Some t \<Longrightarrow> \<exists>d. DecodePolicyDocument t = Inr d" "\<And>t. at' = Some t \<Longrightarrow> \<exists>d. DecodePolicyDocument t = Inr d"
  shows "\<exists>q. setDiff c n b a bt at' p = Inr q"
proof -
  have "\<exists>d. decodeOptional bt = Inr d" using assms(1) by (cases bt) (auto simp: decodeOptional_def decoded_def)
  moreover have "\<exists>d. decodeOptional at' = Inr d" using assms(2) by (cases at') (auto simp: decodeOptional_def decoded_def)
  ultimately show ?thesis by (auto simp: setDiff_def ExclusionChanges_def Let_def)
qed

subsection \<open>Preconditions\<close>

lemma shallow_state: "shallow (Suc (Suc (Suc n))) (stateJSON s)"
  by (simp add: stateJSON_def shallow_object shallow_array shallow_structs)

lemma statePrecondition_total:
  assumes "as_RoleID st \<noteq> []" "(as_BoundaryARN st = None) = (as_BoundaryDocumentHash st = None)"
  shows "\<exists>q. statePrecondition st p = Inr q"
proof -
  have "shallow 4 (stateDocument st)" by (simp add: stateDocument_def numeral_eq_Suc shallow_object shallow_state)
  then have d: "canonical (stateDocument st) = Inr (writeCanonical (stateDocument st))"
    by (rule shallow_hash) (simp add: maxJSONDepth_def)
  have s: "canonical (stateJSON (stateNormalized st)) = Inr (writeCanonical (stateJSON (stateNormalized st)))"
    by (rule shallow_hash [of 3]) (simp_all add: numeral_3_eq_3 shallow_state maxJSONDepth_def)
  show ?thesis using assms d by (simp add: statePrecondition_def StatePreconditionHash_def stateCanonical_def s hashed_def stateDocument_def)
qed

lemma undoBase_total:
  assumes "as_RoleID st \<noteq> []" "(as_BoundaryARN st = None) = (as_BoundaryDocumentHash st = None)"
  shows "\<exists>u. undoBase c p st = Inr u"
  using statePrecondition_total [OF assms] by (auto simp: undoBase_def Let_def bindR_Inr_iff)

lemma applyPrecondition_total:
  assumes "as_RoleID (ap_ArtifactState pre) \<noteq> []"
    "(as_BoundaryARN (ap_ArtifactState pre) = None) = (as_BoundaryDocumentHash (ap_ArtifactState pre) = None)"
    "distinct (map (\<lambda>kv. jsonText (fst kv)) (ap_ProtectionTags pre))"
  shows "\<exists>pc h. applyPreconditionOf pre p = Inr (p\<lparr>pl_Precondition := pc, pl_PreconditionHash := taggedHash DomainPrecondition [h]\<rparr>)"
proof -
  have "shallow 4 (preconditionJSON pre)"
    using shallow_tags [OF assms(3), of "Suc (Suc 0)"]
    by (simp add: preconditionJSON_def numeral_eq_Suc shallow_object shallow_state shallow_array shallow_structs)
  then have d: "canonical (preconditionJSON pre) = Inr (writeCanonical (preconditionJSON pre))"
    by (rule shallow_hash) (simp add: maxJSONDepth_def)
  have s: "canonical (stateJSON (stateNormalized st)) = Inr (writeCanonical (stateJSON (stateNormalized st)))" for st
    by (rule shallow_hash [of 3]) (simp_all add: numeral_3_eq_3 shallow_state maxJSONDepth_def)
  show ?thesis using assms(1,2)
    by (auto simp: applyPreconditionOf_def ApplyPreconditionHash_def preconditionCanonical_def stateCanonical_def s d hashed_def)
qed

lemma roleDefinition_total:
  assumes "distinct (map (\<lambda>kv. jsonText (fst kv)) (protectionTags (lr_Tags r)))"
  shows "\<exists>h. roleDefinitionHash r = Inr h"
proof -
  have "shallow 4 (JObject
    [(''role_arn'', jstr (lr_ARN r)), (''role_path'', jstr (lr_Path r)),
     (''protection_tags'', tagsJSON (protectionTags (lr_Tags r))),
     (''managed_policies'', JArray (map refJSON (sortedRefs (lr_ManagedPolicies r)))),
     (''inline_policies'', JArray (map refJSON (sortedRefs (lr_InlinePolicies r))))])"
    using shallow_tags [OF assms, of "Suc (Suc 0)"]
    by (simp add: numeral_eq_Suc shallow_object shallow_array shallow_structs)
  from shallow_hash [OF this] show ?thesis
    by (simp add: roleDefinitionHash_def HashCanonicalTagged_def hashed_def maxJSONDepth_def)
qed

subsection \<open>Plans ready to be sealed\<close>

definition coded :: "refusal list \<Rightarrow> bool" where
  "coded rs \<longleftrightarrow> (\<forall>r \<in> set rs. rf_Code r \<noteq> [])"

lemma coded_append [simp]: "coded (rs @ qs) \<longleftrightarrow> coded rs \<and> coded qs" "coded []"
  by (auto simp: coded_def)

lemma coded_reason: "coded rs \<Longrightarrow> rs \<noteq> [] \<Longrightarrow> joinWith ''; '' (map refusalString rs) \<noteq> []"
  by (cases rs rule: list.exhaust; cases "tl rs") (auto simp: coded_def refusalString_def)

lemma coded_sources:
  "coded (RoleEligibility role)" "coded (justifyRemovals rm act ctxs)" "coded (nameTooLong n)" "coded (checkSize d)"
  "coded (boundaryNameInUse i arn)" "coded (Refusals prf)" "coded (checkIncarnation live r)"
proof -
  have "coded (removalReason act e)" "coded (dependencyReason ctxs e)" for e
    by (auto simp: coded_def removalReason_def dependencyReason_def RefuseNotInActivityReport_def RefuseRemovalNotJustified_def
        RefuseRemovalIsDependency_def split: option.splits)
  then show "coded (justifyRemovals rm act ctxs)" by (auto simp: coded_def justifyRemovals_def)
  show "coded (RoleEligibility role)" "coded (nameTooLong n)" "coded (checkSize d)" "coded (boundaryNameInUse i arn)"
    "coded (Refusals prf)" "coded (checkIncarnation live r)"
    by (auto simp: coded_def RoleEligibility_def nameTooLong_def checkSize_def boundaryNameInUse_def Refusals_def
        checkIncarnation_def RefuseServiceLinked_def RefuseAWSReserved_def RefuseAuthSecManagedRole_def RefuseProtectedRole_def
        RefuseRecognitionOnly_def RefusePolicyNameTooLong_def RefuseDocumentTooLarge_def RefuseArtifactOwnedElsewhere_def
        RefusePolicyNameInUse_def RefuseEvidenceIncomplete_def RefuseBlocksBoundary_def RefuseRoleGone_def RefuseRoleRecreated_def
        split: if_splits option.splits)
qed

definition ready :: "targetInput \<Rightarrow> plan \<Rightarrow> bool" where
  "ready i p \<longleftrightarrow> pl_ControlID p = co_ID (ti_Control i) \<and> pl_Delivery p = rs_Delivery (ti_Intent i) \<and>
    pl_Eligibility p = EligibilityEligible \<and> pl_BundleHash p = bu_Hash (ef_Bundle (ti_Evidence i)) \<and>
    pl_EvidenceRev p = ef_EvidenceRev (ti_Evidence i) \<and> pl_ResourcePolicyScanRunID p = Some (ef_ScanRunID (ti_Evidence i)) \<and>
    pl_IneligibleReason p = [] \<and> coded (pl_Refusals p) \<and> pl_PreconditionHash p \<noteq> []"

lemma ready_update [simp]:
  "ready i (p\<lparr>pl_Diff := a\<rparr>) \<longleftrightarrow> ready i p" "ready i (p\<lparr>pl_Ops := b\<rparr>) \<longleftrightarrow> ready i p" "ready i (p\<lparr>pl_Facts := c\<rparr>) \<longleftrightarrow> ready i p"
  "ready i (p\<lparr>pl_Unanalysed := d\<rparr>) \<longleftrightarrow> ready i p" "ready i (p\<lparr>pl_DesiredBoundaryARN := e\<rparr>) \<longleftrightarrow> ready i p"
  "ready i (p\<lparr>pl_DesiredDocumentHash := e\<rparr>) \<longleftrightarrow> ready i p" "ready i (p\<lparr>pl_FirstAttachment := f\<rparr>) \<longleftrightarrow> ready i p"
  "ready i (p\<lparr>pl_DesiredAttachment := g\<rparr>) \<longleftrightarrow> ready i p" "ready i (p\<lparr>pl_ReplacedBoundaryARN := e\<rparr>) \<longleftrightarrow> ready i p"
  "ready i (p\<lparr>pl_ArtifactDisposition := g\<rparr>) \<longleftrightarrow> ready i p" "ready i (archive h t p) \<longleftrightarrow> ready i p"
  "ready i (refuse rs p) \<longleftrightarrow> ready i p \<and> coded rs" "ready i (restoredImpact p) \<longleftrightarrow> ready i p"
  by (auto simp: ready_def archive_def refuse_def restoredImpact_def)

lemma validTarget:
  assumes "validateTarget i = Inr ()"
  shows "co_ID (ti_Control i) \<noteq> []" "co_RoleID (ti_Control i) \<noteq> []" "validRightSize (ti_Intent i)"
    "bu_Hash (ef_Bundle (ti_Evidence i)) \<noteq> []" "0 < ef_EvidenceRev (ti_Evidence i)"
proof -
  have v: "validControl (ti_Control i)" "validateEvidence (ti_Evidence i) (co_RoleID (ti_Control i)) = Inr ()"
    "ValidateIntent \<lparr>in_Kind = IntentRightSizeServices, in_RightSize = Some (ti_Intent i),
       in_RemoveControl = None, in_DedicatedIdentity = None\<rparr> = []"
    using assms by (auto simp: validateTarget_def bindR_Inr_iff checkR_def Let_def split: if_splits)
  show "co_ID (ti_Control i) \<noteq> []" "co_RoleID (ti_Control i) \<noteq> []" using v(1) by (simp_all add: validControl_def)
  show "bu_Hash (ef_Bundle (ti_Evidence i)) \<noteq> []" "0 < ef_EvidenceRev (ti_Evidence i)"
    using v(2) by (auto simp: validateEvidence_def Let_def split: if_splits)
  show "validRightSize (ti_Intent i)" using v(3) by (simp add: ValidateIntent_def validateRightSize_Nil)
qed

lemma ready_seal:
  assumes "ready i p" "validateTarget i = Inr ()" "\<forall>q \<in> set (pl_Ops p). distinct (tagNames q)"
    "pl_Kind p \<noteq> []" "pl_DesiredAttachment p \<noteq> []" "pl_ArtifactDisposition p \<noteq> []"
    "attachmentChk p" "kindChk p" "dispositionChk p" "firstAttachmentChk p"
  shows "\<exists>r. seal p = Inr r"
proof (rule seal_total)
  note v = validTarget [OF assms(2)]
  have d: "rs_Delivery (ti_Intent i) \<noteq> []"
    using v(3) by (auto simp: validRightSize_def DeliveryDirect_def DeliveryIaCPR_def DeliveryExport_def)
  have sel: "pl_ControlID (settle p) = pl_ControlID p" "pl_ResourcePolicyScanRunID (settle p) = pl_ResourcePolicyScanRunID p"
    "pl_FirstAttachment (settle p) = pl_FirstAttachment p" by (simp_all add: settle_def Let_def)
  show "planComplete (HashInput (settle p))"
    using assms(1,4,5,6) v(1) d by (simp add: planComplete_def HashInput_def ready_def sel)
  show "pl_BundleHash p \<noteq> []" "0 < pl_EvidenceRev p" using assms(1) v(4,5) by (simp_all add: ready_def)
  show "\<forall>q \<in> set (pl_Ops p). distinct (tagNames q)" by (rule assms(3))
  have "ineligibleChk (settle p)"
    using assms(1) coded_reason [of "pl_Refusals p"] by (auto simp: ineligibleChk_def ready_def EligibilityEligible_def EligibilityIneligible_def)
  moreover have "attachmentChk (settle p)" using assms(7) by (auto simp: attachmentChk_def)
  moreover have "kindChk (settle p)" using assms(8) by (simp only: kindChk_def isSplit_def settle_sel) argo
  moreover have "dispositionChk (settle p)" using assms(9) by (simp add: dispositionChk_def)
  moreover have "firstAttachmentChk (settle p)" using assms(10) by (simp add: firstAttachmentChk_def sel)
  ultimately show "CheckStorable (settle p) = []" by (simp add: CheckStorable_Nil)
qed

subsection \<open>A role without a boundary\<close>

lemma op_tagNames [simp]:
  "tagNames (createOp arn n pth h (createTags ctl)) = map (\<lambda>kv. jsonText (fst kv)) (createTags ctl)"
  "tagNames (putBoundaryOp n arn) = []" "tagNames (deleteBoundaryOp n) = []"
  "q \<in> set (deletePolicyOps arn) \<Longrightarrow> tagNames q = []"
  by (auto simp: tagNames_def createOp_def putBoundaryOp_def deleteBoundaryOp_def deletePolicyOps_def newOp_def)

lemma createTags_distinct: "distinct (map (\<lambda>kv. jsonText (fst kv)) (createTags ctl))"
proof -
  have "map (\<lambda>kv. jsonText (fst kv)) (createTags ctl) = map jsonText [TagManagedBy, TagWorkspace, TagControl, TagPolicy, TagChange]"
    by (simp add: createTags_def)
  moreover have "distinct (map jsonText [TagManagedBy, TagWorkspace, TagControl, TagPolicy, TagChange])" by code_simp
  ultimately show ?thesis by simp
qed

lemma undoBase_ready:
  assumes "undoBase c p post = Inr u" "ready (ac_In c) p"
  shows "ready (ac_In c) u" "pl_Kind u = PlanUndo" "pl_FirstAttachment u = False" "pl_DesiredBoundaryARN u = None"
    "pl_DesiredDocumentHash u = None"
proof -
  obtain h where "StatePreconditionHash post = Inr h" "pl_PreconditionHash u = h" using assms(1) by (auto elim!: undoBaseE)
  then have "pl_PreconditionHash u \<noteq> []"
    by (auto simp: StatePreconditionHash_def bindR_Inr_iff taggedHash_nonempty)
  then show "ready (ac_In c) u"
    using assms by (auto simp: ready_def coded_def evidencePlan_def elim!: undoBaseE)
  show "pl_Kind u = PlanUndo" "pl_FirstAttachment u = False" "pl_DesiredBoundaryARN u = None" "pl_DesiredDocumentHash u = None"
    using assms(1) by (auto simp: evidencePlan_def elim!: undoBaseE)
qed

lemma setDiff_ready: "setDiff c n b a bt at' p = Inr q \<Longrightarrow> ready i q \<longleftrightarrow> ready i p"
  by (erule setDiffE) simp

lemmas chk_defs = attachmentChk_def kindChk_def isSplit_def dispositionChk_def firstAttachmentChk_def

lemma plan_words:
  "PlanUndo \<noteq> []" "PlanApply \<noteq> []" "AttachmentAbsent \<noteq> []" "AttachmentPresent \<noteq> []" "DispositionDelete \<noteq> []" "DispositionKeep \<noteq> []"
  "PlanUndo \<noteq> PlanSplit" "PlanUndo \<noteq> PlanSplitRevert" "PlanUndo \<noteq> PlanApply" "AttachmentAbsent \<noteq> AttachmentUnchanged"
  "PlanApply \<noteq> PlanSplit" "PlanApply \<noteq> PlanSplitRevert" "AttachmentPresent \<noteq> AttachmentUnchanged" "AttachmentPresent \<noteq> AttachmentAbsent"
  "AttachmentAbsent \<noteq> AttachmentPresent" "DispositionDelete \<noteq> DispositionKeep"
  by (simp_all add: go_consts)

lemma noneUndo_total:
  assumes "ready (ac_In c) p" "lr_RoleID (ac_Role c) \<noteq> []" "DecodePolicyDocument doc = Inr d" "validateTarget (ac_In c) = Inr ()"
  shows "\<exists>u r. noneUndo c doc h p = Inr u \<and> seal u = Inr r"
proof -
  let ?arn = "newBoundaryARN c"
  obtain u where u: "undoBase c p (postState c ?arn h []) = Inr u"
    using undoBase_total [of "postState c ?arn h []" c p] assms(2) by auto
  note ur = undoBase_ready [OF u assms(1)]
  define u1 where "u1 = u\<lparr>pl_DesiredAttachment := AttachmentAbsent, pl_ReplacedBoundaryARN := Some ?arn,
          pl_ArtifactDisposition := DispositionDelete,
          pl_Ops := deleteBoundaryOp (lr_Name (ac_Role c)) # deletePolicyOps ?arn\<rparr>"
  obtain v where v: "setDiff c CaseUndoDeleteNew (Some (BoundaryRef ?arn h)) None (Some doc) None u1 = Inr v"
    using setDiff_total [of "Some doc" None] assms(3) by fastforce
  define w where "w = (restoredImpact v)\<lparr>pl_Facts := roleFacts c False @ [factBoundary ?arn ValueNone, factPolicyDoc ?arn h ValueAbsent,
       factPolicyOwner ?arn (controlOwner (ti_Control (ac_In c))) ValueAbsent, factPolicyUsers ?arn [] []]\<rparr>"
  have w: "noneUndo c doc h p = Inr w" using u v by (simp add: noneUndo_def Let_def u1_def w_def)
  have fields: "pl_Kind w = PlanUndo" "pl_DesiredAttachment w = AttachmentAbsent" "pl_ArtifactDisposition w = DispositionDelete"
    "pl_ReplacedBoundaryARN w = Some ?arn" "pl_DesiredBoundaryARN w = None" "pl_DesiredDocumentHash w = None"
    "\<not> pl_FirstAttachment w" "pl_Ops w = deleteBoundaryOp (lr_Name (ac_Role c)) # deletePolicyOps ?arn"
    by (rule setDiffE [OF v]; simp add: w_def u1_def restoredImpact_def ur(2-5))+
  have "ready (ac_In c) w" using ur(1) by (simp add: w_def u1_def setDiff_ready [OF v])
  then have "\<exists>r. seal w = Inr r"
    by (rule ready_seal [OF _ assms(4)]) (simp_all add: fields chk_defs plan_words)
  then show ?thesis using w by blast
qed

lemma applyNone_total:
  assumes "ready (ac_In c) p" "pl_Kind p = PlanApply" "pl_DesiredAttachment p = AttachmentPresent" "pl_ArtifactDisposition p = DispositionKeep"
    "lr_RoleID (ac_Role c) \<noteq> []" "validateTarget (ac_In c) = Inr ()"
  shows "\<exists>q u r s. applyNone c p = Inr (q, Some u) \<and> seal q = Inr r \<and> seal u = Inr s"
proof -
  let ?arn = "newBoundaryARN c"
  have v: "validRightSize (ti_Intent (ac_In c))" by (rule validTarget(3) [OF assms(6)])
  have rm: "removedOf c \<noteq> []" "\<forall>s \<in> set (removedOf c). reService s"
    using v by (auto simp: removedOf_def validRightSize_def validRemove_def)
  obtain doc h d where e: "ExcludeOnlyDocument (removedOf c) = Inr (doc, h)" "DecodePolicyDocument doc = Inr d"
    by (rule exclude_only_total [OF rm])
  define p2 where "p2 = refuse (Refusals (targetProof c)) (refuse (boundaryNameInUse (ac_In c) ?arn)
    ((refuse (checkSize doc) (archive h doc (refuse (nameTooLong (AuthSecBoundaryPrefix @ lr_RoleID (ac_Role c))) p)))
      \<lparr>pl_DesiredBoundaryARN := Some ?arn, pl_DesiredDocumentHash := Some h, pl_FirstAttachment := True\<rparr>))"
  define p3 where "p3 = p2\<lparr>pl_Unanalysed := fp_Unanalysed (targetProof c),
      pl_Diff := (pl_Diff p2)\<lparr>df_FirstAttachment := Some (targetProof c)\<rparr>,
      pl_Ops := [createOp ?arn (AuthSecBoundaryPrefix @ lr_RoleID (ac_Role c)) AuthSecPolicyPath h (createTags (ti_Control (ac_In c))),
                 putBoundaryOp (lr_Name (ac_Role c)) ?arn]\<rparr>"
  obtain p4 where p4: "setDiff c CaseNoneToAuthSec None (Some (BoundaryRef ?arn h)) None (Some doc) p3 = Inr p4"
    using setDiff_total [of None "Some doc"] e(2) by fastforce
  define q where "q = p4\<lparr>pl_Facts := noneFacts c h\<rparr>"
  have rd: "ready (ac_In c) q" using assms(1) coded_sources by (simp add: q_def setDiff_ready [OF p4] p3_def p2_def)
  have fields: "pl_Kind q = PlanApply" "pl_DesiredAttachment q = AttachmentPresent" "pl_ArtifactDisposition q = DispositionKeep"
    "pl_DesiredBoundaryARN q = Some ?arn" "pl_DesiredDocumentHash q = Some h"
    "pl_Ops q = [createOp ?arn (AuthSecBoundaryPrefix @ lr_RoleID (ac_Role c)) AuthSecPolicyPath h (createTags (ti_Control (ac_In c))),
                 putBoundaryOp (lr_Name (ac_Role c)) ?arn]"
    by (rule setDiffE [OF p4]; simp add: q_def p3_def p2_def assms(2-4))+
  obtain u s where u: "noneUndo c doc h q = Inr u" "seal u = Inr s" using noneUndo_total [OF rd assms(5) e(2) assms(6)] by blast
  have "\<exists>r. seal q = Inr r"
    by (rule ready_seal [OF rd assms(6)])
       (use rd in \<open>simp_all add: fields chk_defs plan_words createTags_distinct ready_def\<close>)
  moreover have "applyNone c p = Inr (q, Some u)"
    using u(1) p4 by (simp add: applyNone_def Let_def e(1) p3_def p2_def q_def)
  ultimately show ?thesis using u(2) by blast
qed

lemma protection_names:
  assumes "distinct (map fst tags)"
  shows "distinct (map (\<lambda>kv. jsonText (fst kv)) (protectionTags tags))"
proof -
  have fixed: "jsonText RoleTagManagedBy = RoleTagManagedBy" "jsonText RoleTagProtected = RoleTagProtected" by code_simp+
  have "map (\<lambda>kv. jsonText (fst kv)) (protectionTags tags) = map fst (protectionTags tags)"
    by (rule map_cong [OF refl]) (auto simp: protectionTags_def fixed)
  moreover have "distinct (map fst (protectionTags tags))"
    unfolding protectionTags_def by (rule distinct_map_filter [OF assms])
  ultimately show ?thesis by metis
qed

lemma first_boundary_compiles:
  assumes "validateTarget i = Inr ()" "lv_Role (ti_Live i) = Some role" "lr_RoleID role = co_RoleID (ti_Control i)"
    "lr_BoundaryARN role = []" "distinct (map fst (lr_Tags role))"
  shows "\<exists>tp. CompileTarget i = Inr tp"
proof -
  note v = validTarget [OF assms(1)] and tags = protection_names [OF assms(5)]
  define pre where "pre = \<lparr>ap_ArtifactState = stateNormalized \<lparr>as_RoleID = lr_RoleID role, as_BoundaryARN = None,
      as_BoundaryDocumentHash = None, as_AttachmentSet = []\<rparr>, ap_RoleARN = lr_ARN role, ap_RolePath = lr_Path role,
      ap_ProtectionTags = protectionTags (lr_Tags role), ap_ManagedPolicies = lr_ManagedPolicies role,
      ap_InlinePolicies = lr_InlinePolicies role\<rparr>"
  have pre: "ApplyPreconditionFor (ti_Live i) = Inr pre"
    using assms(2,4) by (simp add: ApplyPreconditionFor_def ArtifactState_def Let_def pre_def)
  define p2 where "p2 = refuse (justifyRemovals (rs_Remove (ti_Intent i)) (bf_Activity (bu_Facts (ef_Bundle (ti_Evidence i))))
      (ti_DependencyContexts i)) (refuse (RoleEligibility role) (applyStart i))"
  obtain pc h where ap: "applyPreconditionOf pre p2 = Inr (p2\<lparr>pl_Precondition := pc, pl_PreconditionHash := taggedHash DomainPrecondition [h]\<rparr>)"
    using applyPrecondition_total [of pre p2] tags v(2) assms(3) by (auto simp: pre_def stateNormalized_def)
  obtain dh where dh: "roleDefinitionHash role = Inr dh" using roleDefinition_total [OF tags] by blast
  let ?p = "p2\<lparr>pl_Precondition := pc, pl_PreconditionHash := taggedHash DomainPrecondition [h]\<rparr>"
  define c where "c = \<lparr>ac_In = i, ac_Role = role, ac_Part = liveRolePartition role, ac_Acct = lr_AccountID role, ac_CurHash = [],
      ac_CurOthers = [], ac_DefHash = dh\<rparr>"
  have "ready (ac_In c) ?p"
    using coded_sources by (simp add: ready_def c_def p2_def applyStart_def refuse_def evidencePlan_def taggedHash_nonempty)
  moreover have "pl_Kind ?p = PlanApply" "pl_DesiredAttachment ?p = AttachmentPresent" "pl_ArtifactDisposition ?p = DispositionKeep"
    by (simp_all add: p2_def applyStart_def)
  ultimately obtain q u r s where q: "applyNone c ?p = Inr (q, Some u)" "seal q = Inr r" "seal u = Inr s"
    using applyNone_total [of c ?p] v(2) assms(1,3) by (auto simp: c_def)
  have "applyByBoundary i role dh ?p = Inr (q, Some u)" using q(1) assms(4) by (simp add: applyByBoundary_def c_def Let_def)
  moreover have "checkIncarnation (ti_Live i) (co_RoleID (ti_Control i)) = []" using assms(2,3) by (simp add: checkIncarnation_def)
  ultimately show ?thesis
    using assms(1,2) pre ap dh q(2,3) by (simp add: CompileTarget_def Let_def p2_def sealBoth_def)
qed

end
