(* ===== verification/CompileExample.thy ===== *)
theory CompileExample
  imports CompileTotal
begin

section \<open>A target that compiles\<close>

text \<open>
  A concrete target: a role without a boundary, two services to remove, complete evidence. Its
  hashes are left as they are; the facts on it are evaluated or follow from the general lemmas.
\<close>

definition exampleBundle :: evidenceBundle where
  "exampleBundle = \<lparr>bu_Facts = \<lparr>bf_Format = BundleFormat, bf_Catalog = CatalogLabel, bf_BuiltAt = ''t'',
      bf_Sources = [\<lparr>bs_Kind = SourceAWSPublication, bs_Rev = 3, bs_PublishedAt = None, bs_ConnectorID = ''k'', bs_ConnectorRun = ''run'',
        bs_Authenticated = True, bs_Ordered = True, bs_Trust = TrustTrusted, bs_TrustReasons = [], bs_FreshnessHours = 1,
        bs_ActivityReportGeneratedAt = None, bs_ResourcePolicyCoverage = CoverageComplete, bs_ResourcePolicyRun = None\<rparr>],
      bf_Target = \<lparr>bt_AccountID = su_AccountID (exampleSubject (CHR ''1'')), bt_RoleID = su_RoleID (exampleSubject (CHR ''1'')),
        bt_RoleARN = ''arn'', bt_EstateScope = []\<rparr>,
      bf_RemovedServices = [''sns'', ''sqs''], bf_Grants = [], bf_Consumers = [], bf_ConsumersUnresolved = 0, bf_Owners = [],
      bf_Activity = map (\<lambda>svc. \<lparr>ba_Service = svc, ba_State = EvidenceCollected, ba_Outcome = QualNoAttempt,
        ba_LastAuthenticatedAt = None, ba_GrantAgeBasis = GrantAgePredatesObservation, ba_VerifiedGrantFrom = None,
        ba_QualifiedDays = 90\<rparr>) [''sns'', ''sqs''],
      bf_Routes = [], bf_Gaps = []\<rparr>,
    bu_Canonical = ''{}'', bu_Hash = ''b'', bu_Trust = TrustTrusted, bu_TrustReasons = [], bu_GapRefs = []\<rparr>"

definition exampleRoleLive :: liveRole where
  "exampleRoleLive = \<lparr>lr_RoleID = su_RoleID (exampleSubject (CHR ''1'')), lr_ARN = ''arn:aws:iam::123456789012:role/app'', lr_Name = ''app'',
    lr_Path = ''/'', lr_AccountID = ''123456789012'', lr_Partition = ''aws'', lr_Tags = [(''team'', ''x'')],
    lr_Continuity = ContinuityImmutable, lr_BoundaryARN = [], lr_ManagedPolicies = [], lr_InlinePolicies = [],
    lr_TrustPolicyHash = ''t'', lr_Documents = []\<rparr>"

definition exampleTarget :: targetInput where
  "exampleTarget = \<lparr>ti_Control = \<lparr>co_ID = ''ctl'', co_PolicyID = ''pol'', co_AccountID = su_AccountID (exampleSubject (CHR ''1'')),
      co_RoleID = su_RoleID (exampleSubject (CHR ''1'')), co_WorkspaceRef = ''w'', co_OwnedPolicyARNs = []\<rparr>,
    ti_Intent = exampleIntent,
    ti_Live = \<lparr>lv_ReadAt = 0, lv_Role = Some exampleRoleLive, lv_Policies = [], lv_Roles = [], lv_Bindings = []\<rparr>,
    ti_Evidence = \<lparr>ef_Bundle = exampleBundle, ef_EvidenceRev = 3, ef_ScanRunID = ''run''\<rparr>,
    ti_ScanEvidence = Some \<lparr>ev_Coverage = map (\<lambda>f. \<lparr>cr_Form = pf_Name f, cr_Region = ''us-east-1'', cr_State = CoverageComplete,
        cr_Reason = []\<rparr>) AllForms, ev_Observations = [], ev_EnabledRegionsUnknown = False\<rparr>,
    ti_EnabledRegions = [''us-east-1''], ti_AccountServices = Some [], ti_DependencyContexts = []\<rparr>"

lemma example_target:
  "validateTarget exampleTarget = Inr ()" "lv_Role (ti_Live exampleTarget) = Some exampleRoleLive"
  "lr_RoleID exampleRoleLive = co_RoleID (ti_Control exampleTarget)" "lr_BoundaryARN exampleRoleLive = []"
  "distinct (map fst (lr_Tags exampleRoleLive))"
  by code_simp+

definition targetRemovals :: "targetInput \<Rightarrow> string list" where
  "targetRemovals i = sortedUnique (map rm_Service (rs_Remove (ti_Intent i)))"

definition targetAttachment :: "targetInput \<Rightarrow> liveRole \<Rightarrow> firstAttachmentProof" where
  "targetAttachment i role = ProveFirstAttachment (liveRoleRef role) (ef_ScanRunID (ti_Evidence i)) (ti_ScanEvidence i)
    (ti_EnabledRegions i) (ti_AccountServices i) (evidenceGaps (ti_Evidence i))"

lemma example_clean:
  "RoleEligibility exampleRoleLive = []"
  "justifyRemovals (rs_Remove (ti_Intent exampleTarget)) (bf_Activity (bu_Facts (ef_Bundle (ti_Evidence exampleTarget))))
    (ti_DependencyContexts exampleTarget) = []"
  "int (length (AuthSecBoundaryPrefix @ lr_RoleID exampleRoleLive)) \<le> MaxPolicyNameLen"
  "\<not> Blocked (targetAttachment exampleTarget exampleRoleLive)"
  by code_simp+

lemma example_size: "ExcludeOnlyDocument (targetRemovals exampleTarget) = Inr (doc, h) \<Longrightarrow> PolicyChars doc \<le> MaxPolicyChars"
proof -
  assume e: "ExcludeOnlyDocument (targetRemovals exampleTarget) = Inr (doc, h)"
  have r: "targetRemovals exampleTarget = [''sns'', ''sqs'']" by code_simp
  have a: "exclusionActions [''sns'', ''sqs''] = Inr [''sns:*'', ''sqs:*'']" by code_simp
  have "doc = writeCanonical (exclusionJSON [''sns:*'', ''sqs:*''])"
    using e unfolding ExcludeOnlyDocument_def r a bindR_simps by (auto simp: bindR_Inr_iff canonical_Inr simp del: exclusionActions.simps)
  moreover have "PolicyChars (writeCanonical (exclusionJSON [''sns:*'', ''sqs:*''])) \<le> MaxPolicyChars" by code_simp
  ultimately show ?thesis by simp
qed

end
