(* ===== verification/PlanSafety.thy ===== *)
theory PlanSafety
  imports CompileExample
begin

section \<open>Properties of compiled plans\<close>

text \<open>
  What the approver of a plan and the executor of its operations can rely on, for every plan the
  compiler returns: apply and undo, role-only recovery and the removal of a control.
\<close>

subsection \<open>Refusals\<close>

lemma applyNone_refusals:
  assumes "applyNone c p = Inr pu"
  obtains doc h where "ExcludeOnlyDocument (removedOf c) = Inr (doc, h)"
    "pl_Refusals (fst pu) = pl_Refusals p @ nameTooLong (AuthSecBoundaryPrefix @ lr_RoleID (ac_Role c)) @ checkSize doc @
      boundaryNameInUse (ac_In c) (newBoundaryARN c) @ Refusals (targetProof c)"
    "pl_DesiredDocumentHash (fst pu) = Some h" "pl_DesiredBoundaryARN (fst pu) = Some (newBoundaryARN c)"
  using assms by (auto simp: applyNone_def Let_def bindR_Inr_iff setDiff_fields)

lemma applyAuthsec_refusals:
  assumes "applyAuthsec c cur p = Inr pu" "pl_Refusals (fst pu) = []"
  shows "pl_Refusals p = []"
proof -
  define p1 where "p1 = refuse (consumersRefusal (lr_BoundaryARN (ac_Role c)) [] (ac_CurOthers c)) (refuse (ownershipRefusal c cur) p)"
  obtain doc h where e: "ExcludeOnlyDocument (removedOf c) = Inr (doc, h)"
    using assms(1) by (auto simp: applyAuthsec_def Let_def bindR_Inr_iff)
  have "pl_Refusals (fst pu) = pl_Refusals p1 @ checkSize doc"
    using assms(1) e by (cases "h = ac_CurHash c"; auto simp: applyAuthsec_def Let_def bindR_Inr_iff setDiff_fields p1_def)
  then show ?thesis using assms(2) by (simp add: p1_def)
qed

lemma narrow_refusals: "narrow c cur p = Inr (q, r) \<Longrightarrow> pl_Refusals q = [] \<Longrightarrow> pl_Refusals p = []"
  by (erule narrowE) auto

lemma customerExclusive_refusals:
  assumes "customerExclusive c cur p = Inr pu" "pl_Refusals (fst pu) = []"
  shows "pl_Refusals p = []"
proof -
  define p1 where "p1 = customerDirect (lr_BoundaryARN (ac_Role c) @ '' is a customer boundary; AuthSec never edits it in AWS (J2/J1 only)'') p"
  obtain p2 r where n: "narrow c cur p1 = Inr (p2, r)"
    using assms(1) by (auto simp: customerExclusive_def Let_def bindR_Inr_iff p1_def)
  have "pl_Refusals (fst pu) = pl_Refusals p2"
  proof (cases r)
    case None
    then show ?thesis using assms(1) n by (auto simp: customerExclusive_def Let_def p1_def)
  next
    case (Some d)
    obtain doc h nw where d: "d = (doc, h, nw)" by (cases d)
    show ?thesis using assms(1) n Some d
      by (cases "nw_Changed nw"; auto simp: customerExclusive_def Let_def p1_def bindR_Inr_iff setDiff_fields)
  qed
  then have "pl_Refusals p1 = []" using assms(2) narrow_refusals [OF n] by simp
  then show ?thesis by (simp add: p1_def)
qed

lemma customerShared_refusals:
  assumes "customerShared c cur p = Inr pu" "pl_Refusals (fst pu) = []"
  shows "pl_Refusals p = []"
proof -
  obtain copyARN copyName where cp: "SplitCopyARN (ac_Part c) (ac_Acct c) (lp_Path cur) (lp_Name cur) (lr_RoleID (ac_Role c)) =
      (copyARN, copyName)" by (meson surj_pair)
  define p1 where "p1 = refuse (nameTooLong copyName) (customerDirect (lr_BoundaryARN (ac_Role c) @
      '' is a shared customer boundary; AuthSec proposes a split copy only through J2/J1'') p)"
  obtain p2 r where n: "narrow c cur p1 = Inr (p2, r)"
    using assms(1) unfolding customerShared_def Let_def cp prod.case p1_def by (elim bindR_resE) auto
  have "\<exists>rs. pl_Refusals (fst pu) = pl_Refusals p2 @ rs"
  proof (cases r)
    case None
    then show ?thesis using assms(1) n by (auto simp: customerShared_def Let_def cp p1_def)
  next
    case (Some d)
    obtain doc h nw where d: "d = (doc, h, nw)" by (cases d)
    have s: "(if \<not> nw_Changed nw then sharedUnchanged c cur (p2\<lparr>pl_Diff := (pl_Diff p2)\<lparr>df_Narrowing := Some nw\<rparr>\<rparr>)
        else splitCopy c cur copyARN copyName doc h (p2\<lparr>pl_Diff := (pl_Diff p2)\<lparr>df_Narrowing := Some nw\<rparr>\<rparr>)) = Inr pu"
      using assms(1) n Some d by (simp add: customerShared_def Let_def cp p1_def)
    show ?thesis
      by (insert s, elim if_condE) (auto simp: sharedUnchanged_def splitCopy_def Let_def bindR_Inr_iff setDiff_fields)
  qed
  then have "pl_Refusals p1 = []" using assms(2) narrow_refusals [OF n] by auto
  then show ?thesis by (simp add: p1_def)
qed

lemma applyByBoundary_refusals:
  assumes "applyByBoundary i role defHash p = Inr pu" "pl_Refusals (fst pu) = []"
  shows "pl_Refusals p = []"
proof (cases "lr_BoundaryARN role = []")
  case True
  then obtain c where "applyNone c p = Inr pu" using assms(1) by (auto simp: applyByBoundary_def Let_def)
  then show ?thesis using assms(2) by (auto elim!: applyNone_refusals)
next
  case False
  obtain cur where cur: "livePolicyOf (ti_Live i) (lr_BoundaryARN role) = Inr (Some cur)"
    using assms(1) False by (auto simp: applyByBoundary_def Let_def bindR_Inr_iff split: option.splits)
  obtain h p1 where h: "archiveText (lp_DefaultDocument cur) p = Inr (h, p1)"
    using assms(1) False cur by (auto simp: applyByBoundary_def Let_def bindR_Inr_iff)
  define p2 where "p2 = p1\<lparr>pl_BeforeDocumentHash := Some h\<rparr>"
  obtain c where "applyAuthsec c cur p2 = Inr pu \<or> customerExclusive c cur p2 = Inr pu \<or> customerShared c cur p2 = Inr pu"
    using assms(1) False cur h by (simp add: applyByBoundary_def Let_def p2_def) metis
  then have "pl_Refusals p2 = []"
    using assms(2) applyAuthsec_refusals customerExclusive_refusals customerShared_refusals by blast
  then show ?thesis using h by (auto simp: p2_def elim!: archiveTextE)
qed

lemma Refusals_Nil: "Refusals p = [] \<longleftrightarrow> \<not> Blocked p"
  by (auto simp: Refusals_def Blocked_def)

lemma none_refusals_Nil:
  "nameTooLong n = [] \<longleftrightarrow> int (length n) \<le> MaxPolicyNameLen" "checkSize d = [] \<longleftrightarrow> PolicyChars d \<le> MaxPolicyChars"
  "boundaryNameInUse i arn = [] \<longleftrightarrow> (\<forall>pol. map_of (lv_Policies (ti_Live i)) arn \<noteq> Some (Some pol))"
  by (auto simp: nameTooLong_def checkSize_def boundaryNameInUse_def split: option.splits)

subsection \<open>The first boundary of a role\<close>

lemma first_boundary:
  assumes "validateTarget i = Inr ()" "lv_Role (ti_Live i) = Some role" "lr_RoleID role = co_RoleID (ti_Control i)"
    "lr_BoundaryARN role = []" "distinct (map fst (lr_Tags role))"
  shows "\<exists>tp doc h. CompileTarget i = Inr tp \<and> ExcludeOnlyDocument (targetRemovals i) = Inr (doc, h) \<and>
    pl_DesiredDocumentHash (tp_Apply tp) = Some h \<and>
    pl_DesiredBoundaryARN (tp_Apply tp) = Some (AuthSecBoundaryARN (liveRolePartition role) (lr_AccountID role) (lr_RoleID role)) \<and>
    (Eligible (tp_Apply tp) \<longleftrightarrow> RoleEligibility role = [] \<and>
      justifyRemovals (rs_Remove (ti_Intent i)) (bf_Activity (bu_Facts (ef_Bundle (ti_Evidence i)))) (ti_DependencyContexts i) = [] \<and>
      int (length (AuthSecBoundaryPrefix @ lr_RoleID role)) \<le> MaxPolicyNameLen \<and> PolicyChars doc \<le> MaxPolicyChars \<and>
      (\<forall>pol. map_of (lv_Policies (ti_Live i)) (AuthSecBoundaryARN (liveRolePartition role) (lr_AccountID role) (lr_RoleID role)) \<noteq>
        Some (Some pol)) \<and>
      \<not> Blocked (targetAttachment i role)) \<and>
    (tp_Undo tp \<noteq> None \<longleftrightarrow> Eligible (tp_Apply tp))"
proof -
  obtain tp where tp: "CompileTarget i = Inr tp" using first_boundary_compiles [OF assms] by blast
  have inc: "checkIncarnation (ti_Live i) (co_RoleID (ti_Control i)) = []" using assms(2,3) by (simp add: checkIncarnation_def)
  obtain p defHash pu where l: "pl_IneligibleReason p = []" "pl_Ops p = []" "pl_Delivery p = rs_Delivery (ti_Intent i)"
    "pl_Refusals p = RoleEligibility role @ justifyRemovals (rs_Remove (ti_Intent i))
       (bf_Activity (bu_Facts (ef_Bundle (ti_Evidence i)))) (ti_DependencyContexts i)"
    "applyByBoundary i role defHash p = Inr pu" "sealBoth pu = Inr tp"
    using tp by (cases rule: CompileTargetE) (use inc assms(2) in auto)
  define c where "c = \<lparr>ac_In = i, ac_Role = role, ac_Part = liveRolePartition role, ac_Acct = lr_AccountID role, ac_CurHash = [],
      ac_CurOthers = [], ac_DefHash = defHash\<rparr>"
  have n: "applyNone c p = Inr pu" using l(5) assms(4) by (simp add: applyByBoundary_def c_def Let_def)
  obtain doc h where r: "ExcludeOnlyDocument (removedOf c) = Inr (doc, h)"
    "pl_Refusals (fst pu) = pl_Refusals p @ nameTooLong (AuthSecBoundaryPrefix @ lr_RoleID (ac_Role c)) @ checkSize doc @
      boundaryNameInUse (ac_In c) (newBoundaryARN c) @ Refusals (targetProof c)"
    "pl_DesiredDocumentHash (fst pu) = Some h" "pl_DesiredBoundaryARN (fst pu) = Some (newBoundaryARN c)"
    by (rule applyNone_refusals [OF n])
  have arn: "newBoundaryARN c = AuthSecBoundaryARN (liveRolePartition role) (lr_AccountID role) (lr_RoleID role)"
    "removedOf c = targetRemovals i" "targetProof c = targetAttachment i role"
    by (simp_all add: newBoundaryARN_def c_def removedOf_def targetRemovals_def targetProof_def targetAttachment_def Let_def)
  have g: "goodPair c pu" by (rule applyNone_good [OF n l(1)]) (simp add: l(3) c_def)
  note s = sealBoth_good [OF g l(6)]
  have f: "pl_IneligibleReason (fst pu) = []" using g by (simp add: goodPair_def sound_def)
  have el: "Eligible (tp_Apply tp) \<longleftrightarrow> pl_Refusals (fst pu) = []" by (rule seal_eligible [OF s(2) f])
  have sel: "ac_Role c = role" "ac_In c = i" by (simp_all add: c_def)
  have "tp_Undo tp \<noteq> None \<longleftrightarrow> Eligible (tp_Apply tp)" using s(3,4) by blast
  moreover have "pl_DesiredDocumentHash (tp_Apply tp) = Some h" "pl_DesiredBoundaryARN (tp_Apply tp) = Some (newBoundaryARN c)"
    using seal_fields(6,7) [OF s(2)] r(3,4) by simp_all
  moreover note el [unfolded r(2) l(4) append_is_Nil_conv none_refusals_Nil Refusals_Nil arn sel conj_assoc]
  ultimately show ?thesis using tp r(1) unfolding arn by blast
qed

text \<open>
  C5. Compiling a valid target whose role has no boundary always gives a plan. It installs the
  exclusion-only document of the removed services under the role's own name, and it is eligible
  exactly when the role may be changed, every removal is justified, name and document fit, the
  name is free and the first-attachment proof is not blocked. An undo exists exactly then.
\<close>

theorem first_boundary_exact:
  assumes "validateTarget i = Inr ()" "lv_Role (ti_Live i) = Some role" "lr_RoleID role = co_RoleID (ti_Control i)"
    "lr_BoundaryARN role = []" "distinct (map fst (lr_Tags role))"
  shows "\<exists>tp doc h. CompileTarget i = Inr tp \<and> ExcludeOnlyDocument (targetRemovals i) = Inr (doc, h) \<and>
    pl_DesiredDocumentHash (tp_Apply tp) = Some h \<and>
    pl_DesiredBoundaryARN (tp_Apply tp) = Some (AuthSecBoundaryARN (liveRolePartition role) (lr_AccountID role) (lr_RoleID role)) \<and>
    (Eligible (tp_Apply tp) \<longleftrightarrow> RoleEligibility role = [] \<and>
      justifyRemovals (rs_Remove (ti_Intent i)) (bf_Activity (bu_Facts (ef_Bundle (ti_Evidence i)))) (ti_DependencyContexts i) = [] \<and>
      int (length (AuthSecBoundaryPrefix @ lr_RoleID role)) \<le> MaxPolicyNameLen \<and> PolicyChars doc \<le> MaxPolicyChars \<and>
      (\<forall>pol. map_of (lv_Policies (ti_Live i)) (AuthSecBoundaryARN (liveRolePartition role) (lr_AccountID role) (lr_RoleID role)) \<noteq>
        Some (Some pol)) \<and>
      \<not> Blocked (targetAttachment i role)) \<and>
    (tp_Undo tp \<noteq> None \<longleftrightarrow> Eligible (tp_Apply tp))"
  by (rule first_boundary [OF assms])

theorem first_boundary_exact_witness:
  "\<exists>tp. CompileTarget exampleTarget = Inr tp \<and> Eligible (tp_Apply tp) \<and> tp_Undo tp \<noteq> None"
  using first_boundary_exact [OF example_target] example_clean example_size by (force simp: exampleTarget_def)

lemma example_plans:
  obtains tp u where "CompileTarget exampleTarget = Inr tp" "Eligible (tp_Apply tp)" "tp_Undo tp = Some u"
  using first_boundary [OF example_target] example_clean example_size by (force simp: exampleTarget_def)

subsection \<open>Every compiled plan\<close>

text \<open>
  C6. Every plan the compiler returns is sealed: its hashes are those of its content and it passes
  the storage checks. It is eligible exactly when nothing is refused, has no operations otherwise,
  and delivered directly it names no policy outside AuthSec's path.
\<close>

theorem compiled_plan_sealed:
  assumes "compiled p"
  shows "sealed p \<and> (Eligible p \<longleftrightarrow> pl_Refusals p = []) \<and> (\<not> Eligible p \<longrightarrow> pl_Ops p = []) \<and>
    (pl_Delivery p = DeliveryDirect \<longrightarrow> ownTargets (pl_Ops p))"
  using compiled_guaranteed [OF assms] by (simp add: guaranteed_def)

theorem compiled_plan_sealed_witness: "\<exists>p. compiled p \<and> sealed p \<and> pl_Refusals p = []"
proof -
  obtain tp u where tp: "CompileTarget exampleTarget = Inr tp" "Eligible (tp_Apply tp)" "tp_Undo tp = Some u" by (rule example_plans)
  then show ?thesis using compiled_plan_sealed [OF apply_plan [OF tp(1)]] apply_plan [OF tp(1)] by blast
qed

lemma usersValue_Nil: "usersValue xs = usersValue [] \<longleftrightarrow> xs = []"
proof
  assume e: "usersValue xs = usersValue []"
  have "shallow 3 (JArray (map entityJSON es))" for es by (simp add: numeral_eq_Suc shallow_array shallow_structs)
  then have v: "CanonicalizeValue (JArray (map entityJSON es)) = Inr (writeCanonical (JArray (map entityJSON es)))" for es
    by (rule shallow_canonical) (simp add: maxJSONDepth_def)
  have ne: "writeCanonical (entityJSON x) \<noteq> []" for x by (simp add: entityJSON_def)
  have "joinWith '','' (map (writeCanonical \<circ> entityJSON) (sort_key entityKey xs)) = []"
    using e unfolding usersValue_def v by (simp add: comp_def)
  then have "sort_key entityKey xs = []" using ne by (cases "sort_key entityKey xs"; cases "tl (sort_key entityKey xs)") auto
  then show "xs = []" by (metis length_sort length_0_conv)
qed simp

lemma observeAll_pairs:
  "observeAll r live facts = Inr obs \<Longrightarrow> list_all2 (\<lambda>f kv. fst kv = fc_Key f \<and> observeFact r live f = Inr (snd kv)) facts obs"
  by (induction facts arbitrary: obs) (auto simp: bindR_Inr_iff)

lemma observeAll_observed:
  assumes "observeAll r live facts = Inr obs" "distinct (map fc_Key facts)" "f \<in> set facts"
  shows "observeFact r live f = Inr (observed obs (fc_Key f))"
proof -
  note all = observeAll_pairs [OF assms(1)]
  have keys: "map fst obs = map fc_Key facts" using all by (induction rule: list_all2_induct) auto
  obtain k where k: "k < length facts" "facts ! k = f" using assms(3) by (auto simp: in_set_conv_nth)
  then have v: "fst (obs ! k) = fc_Key f" "observeFact r live f = Inr (snd (obs ! k))" "k < length obs"
    using list_all2_nthD [OF all k(1)] list_all2_lengthD [OF all] by auto
  have "distinct (map fst (rev obs))" using assms(2) keys by (simp add: rev_map [symmetric])
  moreover have "(fc_Key f, snd (obs ! k)) \<in> set (rev obs)" using v(1,3) by (metis nth_mem prod.collapse set_rev)
  ultimately have "map_of (rev obs) (fc_Key f) = Some (snd (obs ! k))" by (rule map_of_is_SomeI)
  then show ?thesis using v(2) by (simp add: observed_def)
qed

lemma users_observed:
  assumes "Classify p live = Inr c" "cl_Class c \<noteq> ClassConflict" "distinct (map fc_Key (pl_Facts p))"
    "factPolicyUsers arn [] [] \<in> set (pl_Facts p)"
  shows "\<exists>x. map_of (lv_Policies live) arn = Some x \<and>
    (\<forall>pol. x = Some pol \<longrightarrow> otherUsers (lp_AttachmentSet pol) (factRoleID (pl_Facts p)) = [])"
proof -
  obtain obs where o: "observeAll (factRoleID (pl_Facts p)) live (pl_Facts p) = Inr obs" "c = classifyObserved p (pl_Facts p) obs"
    using assms(1) by (auto simp: Classify_def ObserveFacts_def bindR_Inr_iff split: if_splits)
  have "\<not> anyConflict (pl_Facts p) obs" using assms(2) unfolding o(2) by (auto simp: classify_fields(1))
  then have "observed obs (fc_Key (factPolicyUsers arn [] [])) = usersValue []"
    using assms(4) by (force simp: anyConflict_def fact_defs)
  then have "observeFact (factRoleID (pl_Facts p)) live (factPolicyUsers arn [] []) = Inr (usersValue [])"
    using observeAll_observed [OF o(1) assms(3,4)] by simp
  then show ?thesis
    by (auto simp: observeFact_def observePolicy_def fact_defs usersValue_Nil Let_def split: option.splits)
qed

text \<open>
  C3. A policy is rewritten, tagged or deleted only while nobody else uses it: when a live read
  is not a conflict for a compiled direct plan, every such operation is on a policy that was read
  and that, where it exists, no entity but the plan's role uses.
\<close>

theorem lone_policy_write:
  assumes "compiled p" "pl_Delivery p = DeliveryDirect" "q \<in> set (pl_Ops p)" "destructive q"
    "Classify p live = Inr c" "cl_Class c \<noteq> ClassConflict"
  shows "\<exists>x. map_of (lv_Policies live) (op_PolicyARN q) = Some x \<and>
    (\<forall>pol. x = Some pol \<longrightarrow> otherUsers (lp_AttachmentSet pol) (factRoleID (pl_Facts p)) = [])"
proof -
  have g: "guaranteed p" by (rule compiled_guaranteed [OF assms(1)])
  then have "Eligible p" using assms(3) by (auto simp: guaranteed_def)
  then have "distinct (map fc_Key (pl_Facts p))" "factPolicyUsers (op_PolicyARN q) [] [] \<in> set (pl_Facts p)"
    using g assms(2-4) by (auto simp: guaranteed_def loneWrites_def)
  then show ?thesis by (rule users_observed [OF assms(5,6)])
qed

definition undoShape :: "targetInput \<Rightarrow> liveRole \<Rightarrow> string \<Rightarrow> plan \<Rightarrow> bool" where
  "undoShape i role h u \<longleftrightarrow>
    (let arn = AuthSecBoundaryARN (liveRolePartition role) (lr_AccountID role) (lr_RoleID role) in
     pl_Ops u = deleteBoundaryOp (lr_Name role) # deletePolicyOps arn \<and> pl_Delivery u = rs_Delivery (ti_Intent i) \<and>
     set (pl_Facts u) = {factRole (lr_RoleID role), factBoundary arn ValueNone, factPolicyDoc arn h ValueAbsent,
       factPolicyOwner arn (controlOwner (ti_Control i)) ValueAbsent, factPolicyUsers arn [] []})"

lemma first_boundary_undo:
  assumes "CompileTarget i = Inr tp" "tp_Undo tp = Some u" "lv_Role (ti_Live i) = Some role" "lr_BoundaryARN role = []"
  obtains h where "undoShape i role h u"
proof -
  obtain p defHash pu where l: "pl_IneligibleReason p = []" "applyByBoundary i role defHash p = Inr pu" "sealBoth pu = Inr tp"
    using assms(1) by (cases rule: CompileTargetE) (use assms(2,3) in auto)
  define c where "c = \<lparr>ac_In = i, ac_Role = role, ac_Part = liveRolePartition role, ac_Acct = lr_AccountID role, ac_CurHash = [],
      ac_CurOthers = [], ac_DefHash = defHash\<rparr>"
  have n: "applyNone c p = Inr pu" using l(2) assms(4) by (simp add: applyByBoundary_def c_def Let_def)
  obtain doc h q v where v: "noneUndo c doc h q = Inr v" "pu = (q, Some v)"
    using n by (auto simp: applyNone_def Let_def bindR_Inr_iff)
  note f = noneUndo_fields [OF v(1)]
  have "seal v = Inr u" using l(3) assms(2) unfolding v(2) by (auto simp: sealBoth_def bindR_Inr_iff split: if_splits)
  from seal_fields(1-3) [OF this] have "undoShape i role h u"
    using f by (simp add: undoShape_def undoFields_def Let_def c_def newBoundaryARN_def roleFacts_def)
  then show thesis by (rule that)
qed

lemma observeAll_total: "\<forall>f \<in> set facts. \<exists>v. observeFact r live f = Inr v \<Longrightarrow> \<exists>obs. observeAll r live facts = Inr obs"
  by (induction facts) auto

definition exampleUndone :: liveRead where
  "exampleUndone = \<lparr>lv_ReadAt = 0, lv_Role = Some exampleRoleLive,
    lv_Policies = [(AuthSecBoundaryARN (liveRolePartition exampleRoleLive) (lr_AccountID exampleRoleLive) (lr_RoleID exampleRoleLive), None)],
    lv_Roles = [], lv_Bindings = []\<rparr>"

lemma example_undone:
  assumes "undoShape exampleTarget exampleRoleLive h u" "guaranteed u" "Eligible u"
  obtains c where "Classify u exampleUndone = Inr c" "cl_Class c \<noteq> ClassConflict"
proof -
  let ?arn = "AuthSecBoundaryARN (liveRolePartition exampleRoleLive) (lr_AccountID exampleRoleLive) (lr_RoleID exampleRoleLive)"
  have direct: "pl_Delivery u = DeliveryDirect" using assms(1) by (simp add: undoShape_def Let_def exampleTarget_def exampleIntent_def)
  have d: "distinct (map fc_Key (pl_Facts u))" using assms(2,3) direct by (simp add: guaranteed_def)
  have facts: "set (pl_Facts u) = {factRole (lr_RoleID exampleRoleLive), factBoundary ?arn ValueNone, factPolicyDoc ?arn h ValueAbsent,
       factPolicyOwner ?arn (controlOwner (ti_Control exampleTarget)) ValueAbsent, factPolicyUsers ?arn [] []}"
    "pl_Ops u = deleteBoundaryOp (lr_Name exampleRoleLive) # deletePolicyOps ?arn"
    using assms(1) by (simp_all add: undoShape_def Let_def)
  have see: "observeFact r exampleUndone f = Inr (fc_After f)" if "f \<in> set (pl_Facts u)" for f r
    using that unfolding facts by (auto simp: observeFact_def observePolicy_def fact_defs exampleUndone_def exampleRoleLive_def)
  then obtain obs where obs: "observeAll (factRoleID (pl_Facts u)) exampleUndone (pl_Facts u) = Inr obs"
    using observeAll_total by blast
  have "agrees (pl_Facts u) obs (executed (pl_Ops u) (length (pl_Ops u)))"
    unfolding agrees_def
  proof (intro ballI impI)
    fix f assume f: "f \<in> set (pl_Facts u)" "\<not> fc_OnlyBefore f"
    have "observed obs (fc_Key f) = fc_After f" using observeAll_observed [OF obs d f(1)] see [OF f(1)] by simp
    moreover have "coversChanges (pl_Ops u) (pl_Facts u)" using assms(2,3) direct by (simp add: guaranteed_def)
    ultimately show "observed obs (fc_Key f) = valueAfter (executed (pl_Ops u) (length (pl_Ops u))) f"
      using f by (auto simp: valueAfter_def coversChanges_def Changes_def)
  qed
  moreover have "definitionKept (pl_Facts u) obs" unfolding definitionKept_def facts by (simp add: fact_defs)
  ultimately have "cl_Class (classifyObserved u (pl_Facts u) obs) \<noteq> ClassConflict"
    unfolding classify_iff [OF direct d] by blast
  moreover have "pl_Facts u \<noteq> []" using facts(1) by auto
  ultimately show thesis using that obs by (simp add: Classify_def ObserveFacts_def)
qed

theorem lone_policy_write_witness:
  "\<exists>u q x. compiled u \<and> q \<in> set (pl_Ops u) \<and> destructive q \<and> map_of (lv_Policies exampleUndone) (op_PolicyARN q) = Some x"
proof -
  obtain tp u where tp: "CompileTarget exampleTarget = Inr tp" "tp_Undo tp = Some u" by (rule example_plans)
  obtain h where h: "undoShape exampleTarget exampleRoleLive h u" by (rule first_boundary_undo [OF tp example_target(2,4)])
  have c: "compiled u" by (rule undo_plan [OF tp])
  obtain k where k: "Classify u exampleUndone = Inr k" "cl_Class k \<noteq> ClassConflict"
    using example_undone [OF h] target_guaranteed(3) [OF tp] by blast
  have "\<exists>q \<in> set (pl_Ops u). destructive q"
    using h by (simp add: undoShape_def Let_def deletePolicyOps_def destructive_def newOp_def)
  then obtain q where q: "q \<in> set (pl_Ops u)" "destructive q" by blast
  have "pl_Delivery u = DeliveryDirect" using h by (simp add: undoShape_def Let_def exampleTarget_def exampleIntent_def)
  from lone_policy_write [OF c this q k] show ?thesis using c q by blast
qed

subsection \<open>Interrupted plans\<close>

text \<open>
  C2. A compiled direct plan can be stopped anywhere: after any number of its operations the
  classifier recognises the state, names an operation not later than the first one missing, and
  running the operations from there on completes the plan.
\<close>

theorem compiled_resumable:
  assumes "compiled p" "pl_Delivery p = DeliveryDirect" "Eligible p" "k \<le> length (pl_Ops p)"
    "agrees (pl_Facts p) obs (executed (pl_Ops p) k)" "definitionKept (pl_Facts p) obs"
  shows "cl_Class (classifyObserved p (pl_Facts p) obs) \<noteq> ClassConflict \<and>
    (\<exists>j \<le> k. cl_NextOp (classifyObserved p (pl_Facts p) obs) = int j \<and>
      cl_Class (classifyObserved p (pl_Facts p) (runOps (pl_Facts p) obs (drop j (pl_Ops p)))) = ClassAfter)"
proof -
  have g: "distinct (map fc_Key (pl_Facts p))" "coversChanges (pl_Ops p) (pl_Facts p)"
    using compiled_guaranteed [OF assms(1)] assms(2,3) by (simp_all add: guaranteed_def)
  have nc: "cl_Class (classifyObserved p (pl_Facts p) obs) \<noteq> ClassConflict"
    unfolding classify_iff [OF assms(2) g(1)] using assms(4-6) by blast
  obtain j where j: "cl_NextOp (classifyObserved p (pl_Facts p) obs) = int j" "j \<le> length (pl_Ops p)"
    "agrees (pl_Facts p) obs (executed (pl_Ops p) j)" "\<forall>m < j. \<not> agrees (pl_Facts p) obs (executed (pl_Ops p) m)"
    using classify_next [OF assms(2) g(1) nc] .
  have "j \<le> k" using j(4) assms(5) by (metis not_le_imp_less)
  moreover have "cl_Class (classifyObserved p (pl_Facts p) (runOps (pl_Facts p) obs (drop j (pl_Ops p)))) = ClassAfter"
    by (rule complete_after [OF assms(2) g agrees_runOps [OF g(1) j(3,2)]])
  ultimately show ?thesis using nc j(1) by blast
qed

lemma observed_before:
  assumes "distinct (map fc_Key facts)" "f \<in> set facts"
  shows "observed (map (\<lambda>f. (fc_Key f, g f)) facts) (fc_Key f) = g f"
proof -
  have "distinct (map fst (rev (map (\<lambda>f. (fc_Key f, g f)) facts)))" using assms(1) by (simp add: rev_map [symmetric] comp_def)
  moreover have "(fc_Key f, g f) \<in> set (rev (map (\<lambda>f. (fc_Key f, g f)) facts))" using assms(2) by auto
  ultimately have "map_of (rev (map (\<lambda>f. (fc_Key f, g f)) facts)) (fc_Key f) = Some (g f)" by (rule map_of_is_SomeI)
  then show ?thesis by (simp add: observed_def)
qed

lemma example_undo:
  obtains tp u h where "CompileTarget exampleTarget = Inr tp" "tp_Undo tp = Some u" "undoShape exampleTarget exampleRoleLive h u"
    "pl_Delivery u = DeliveryDirect" "Eligible u" "distinct (map fc_Key (pl_Facts u))"
proof -
  obtain tp u where tp: "CompileTarget exampleTarget = Inr tp" "tp_Undo tp = Some u" by (rule example_plans)
  obtain h where h: "undoShape exampleTarget exampleRoleLive h u" by (rule first_boundary_undo [OF tp example_target(2,4)])
  have d: "pl_Delivery u = DeliveryDirect" using h by (simp add: undoShape_def Let_def exampleTarget_def exampleIntent_def)
  show thesis using that [OF tp h d] target_guaranteed(3) [OF tp] d by (simp add: guaranteed_def)
qed

theorem compiled_resumable_witness:
  "\<exists>p obs. compiled p \<and> cl_Class (classifyObserved p (pl_Facts p) obs) \<noteq> ClassConflict \<and>
    cl_NextOp (classifyObserved p (pl_Facts p) obs) = 0"
proof -
  obtain tp u h where u: "CompileTarget exampleTarget = Inr tp" "tp_Undo tp = Some u" "undoShape exampleTarget exampleRoleLive h u"
    "pl_Delivery u = DeliveryDirect" "Eligible u" "distinct (map fc_Key (pl_Facts u))" by (rule example_undo)
  let ?obs = "map (\<lambda>f. (fc_Key f, fc_Before f)) (pl_Facts u)"
  have "agrees (pl_Facts u) ?obs (executed (pl_Ops u) 0)"
    using observed_before [OF u(6)] by (simp add: agrees_def valueAfter_def executed_def)
  moreover have "definitionKept (pl_Facts u) ?obs" using u(3) by (simp add: undoShape_def Let_def definitionKept_def fact_defs)
  ultimately show ?thesis
    using compiled_resumable [OF undo_plan [OF u(1,2)] u(4,5), of 0 ?obs] undo_plan [OF u(1,2)] by auto
qed

subsection \<open>Undo\<close>



subsection \<open>Justified removals\<close>

lemma removal_clean:
  assumes "justifyRemovals remove activity ctxs = []" "e \<in> set remove"
  shows "IsDependency (rm_Service e) ctxs = None \<and> (\<exists>a \<in> set activity. ba_Service a = rm_Service e \<and> ba_State a = EvidenceCollected \<and>
    ba_Outcome a = QualNoAttempt \<and> MinQualifiedDays \<le> ba_QualifiedDays a \<and>
    ba_GrantAgeBasis a \<in> {GrantAgeObservedSinceChange, GrantAgePredatesObservation})"
proof -
  have c: "removalReason activity e = []" "dependencyReason ctxs e = []"
    using assms by (auto simp: justifyRemovals_def)
  then obtain a where a: "map_of (rev (map (\<lambda>a. (ba_Service a, a)) activity)) (rm_Service e) = Some a"
    by (auto simp: removalReason_def split: option.splits)
  then have "a \<in> set activity" "ba_Service a = rm_Service e" by (auto dest!: map_of_SomeD)
  then show ?thesis using c a by (auto simp: removalReason_def dependencyReason_def split: option.splits if_splits)
qed

text \<open>
  C4. An eligible apply plan takes away only what the evidence supports. The live role is the
  control's and may be changed; the bundle is not untrusted and was built for this role; each
  removed service was collected with no attempt over at least the minimum of qualified days and a
  known grant age, and is no dependency of the workload.
\<close>

theorem eligible_apply_justified:
  assumes "CompileTarget i = Inr tp" "Eligible (tp_Apply tp)" "e \<in> set (rs_Remove (ti_Intent i))"
  shows "\<exists>role a. lv_Role (ti_Live i) = Some role \<and> lr_RoleID role = co_RoleID (ti_Control i) \<and> RoleEligibility role = [] \<and>
    bu_Trust (ef_Bundle (ti_Evidence i)) \<noteq> TrustUntrusted \<and> bt_RoleID (bf_Target (bu_Facts (ef_Bundle (ti_Evidence i)))) = lr_RoleID role \<and>
    a \<in> set (bf_Activity (bu_Facts (ef_Bundle (ti_Evidence i)))) \<and> ba_Service a = rm_Service e \<and>
    ba_State a = EvidenceCollected \<and> ba_Outcome a = QualNoAttempt \<and> MinQualifiedDays \<le> ba_QualifiedDays a \<and>
    ba_GrantAgeBasis a \<in> {GrantAgeObservedSinceChange, GrantAgePredatesObservation} \<and>
    IsDependency (rm_Service e) (ti_DependencyContexts i) = None"
  using assms(1)
proof (cases rule: CompileTargetE)
  case (gone p r)
  then show ?thesis using assms(2) seal_eligible [OF gone(5,2)] by simp
next
  case (live role p defHash pu)
  obtain c where c: "goodPair c pu" using applyByBoundary_good [OF live(8) live(4-6)] by blast
  note s = sealBoth_good [OF c live(9)]
  have "pl_Refusals (fst pu) = []" using seal_eligible [OF s(2)] assms(2) c by (simp add: goodPair_def sound_def)
  then have "pl_Refusals p = []" by (rule applyByBoundary_refusals [OF live(8)])
  then have r: "RoleEligibility role = []" "justifyRemovals (rs_Remove (ti_Intent i))
      (bf_Activity (bu_Facts (ef_Bundle (ti_Evidence i)))) (ti_DependencyContexts i) = []" using live(7) by simp_all
  have "lr_RoleID role = co_RoleID (ti_Control i)" using live(2,3) by (simp add: checkIncarnation_def split: if_splits)
  moreover have "validateEvidence (ti_Evidence i) (co_RoleID (ti_Control i)) = Inr ()"
    using live(1) by (auto simp: validateTarget_def bindR_Inr_iff)
  then have "bu_Trust (ef_Bundle (ti_Evidence i)) \<noteq> TrustUntrusted"
    "bt_RoleID (bf_Target (bu_Facts (ef_Bundle (ti_Evidence i)))) = co_RoleID (ti_Control i)" by (auto simp: validateEvidence_def Let_def split: if_splits)
  ultimately show ?thesis using live(3) r(1) removal_clean [OF r(2) assms(3)] by metis
qed

theorem eligible_apply_justified_witness:
  "\<exists>tp (a :: bundleActivity). CompileTarget exampleTarget = Inr tp \<and> Eligible (tp_Apply tp) \<and> ba_Service a = ''sqs'' \<and> ba_Outcome a = QualNoAttempt"
proof -
  obtain tp u where tp: "CompileTarget exampleTarget = Inr tp" "Eligible (tp_Apply tp)" by (rule example_plans)
  have "\<exists>e \<in> set (rs_Remove (ti_Intent exampleTarget)). rm_Service e = ''sqs''" by (simp add: exampleTarget_def exampleIntent_def)
  then obtain e where e: "e \<in> set (rs_Remove (ti_Intent exampleTarget))" "rm_Service e = ''sqs''" by blast
  obtain a :: bundleActivity where "ba_Service a = ''sqs''" "ba_Outcome a = QualNoAttempt"
    using eligible_apply_justified [OF tp e(1)] unfolding e(2) by blast
  then show ?thesis using tp by blast
qed

subsection \<open>The first-attachment proof\<close>

lemma forms_named: "distinct (map pf_Name AllForms)"
proof -
  have "distinct (map pf_Name policyBearingForms)" by code_simp
  then show ?thesis by (simp add: AllForms_def distinct_map)
qed

lemma form_collected: "\<exists>f \<in> set AllForms. pf_State f = FormCollected"
proof -
  have "list_ex (\<lambda>f. pf_State f = FormCollected) policyBearingForms" by code_simp
  then show ?thesis by (simp add: AllForms_def list_ex_iff)
qed

lemma formRoutes_form: "r \<in> set (formRoutes service ev er f) \<Longrightarrow> rt_Form r = pf_Name f"
  by (auto simp: formRoutes_def Let_def set_map_filter notAnalysed_def split: if_splits option.splits)

lemma formComplete_coverage: "formComplete (coverageOnly ev) er f \<longleftrightarrow> formComplete ev er f"
  by (simp add: formComplete_def regionComplete_def formRows_def coverageOnly_def)

lemma formIncomplete_Nil:
  assumes "f \<in> set AllForms" "pf_State f = FormCollected"
  shows "formIncomplete (Some ev) er f = [] \<longleftrightarrow> formComplete ev er f"
proof -
  let ?ev = "coverageOnly ev" and ?ns = "pf_Namespace f"
  have mem: "f \<in> set (FormsForNamespace ?ns)" "set (FormsForNamespace ?ns) \<subseteq> set AllForms"
    using assms(1) by (auto simp: FormsForNamespace_def AllForms_def)
  have same: "g = f" if "g \<in> set (FormsForNamespace ?ns)" "pf_Name g = pf_Name f" for g
    using that mem(2) assms(1) forms_named by (meson distinct_map inj_onD subsetD)
  have "set (ra_Routes (AnalyzeRoutes ?ns emptyRole (Some ?ev) er)) = (\<Union>g \<in> set (FormsForNamespace ?ns). set (formRoutes ?ns ?ev er g))"
    by (simp add: AnalyzeRoutes_def finish_def Let_def coverageOnly_def)
  then have "{r \<in> set (ra_Routes (AnalyzeRoutes ?ns emptyRole (Some ?ev) er)). rt_Form r = pf_Name f \<and> rt_Effect r = RouteEffectNotAnalysed} =
      set (formRoutes ?ns ?ev er f)"
    using mem(1) same by (auto dest: formRoutes_form formRoutes_effect) (metis formRoutes_form)
  then show ?thesis using assms(2) formRoutes_empty [of ?ns ?ev er f]
    by (simp add: formIncomplete_def filter_empty_conv formComplete_coverage) (metis (mono_tags, lifting) Collect_empty_eq set_empty2)
qed



end
