(* ===== verification/Spec2Isabelle.thy ===== *)
theory Spec2Isabelle
  imports Qualify PolicyDoc Catalog Routes Intent JsonProps HashProps DecodeProps RecoverProps BundleProps BoundaryProps PlanSafety
begin

text \<open>
  \<^bold>\<open>Verification of the governance-policy core of authsec (src/internal/igagov)\<close>

  authsec is an authorization service; its package \<^verbatim>\<open>internal/igagov\<close> is the pure core
  that decides which AWS service grants of a role are unused, compiles a reviewed intent into
  boundary policies, tracks a deployment and judges its health. It has no database, network
  or clock, so it is modelled as HOL functions.

  Theories, in the order of their imports:
  \<^item> \<open>GoPrelude\<close>: the Go standard library as far as the package uses it (strings, integers
    as text, sorting without duplicates).
  \<^item> \<open>Qualify\<close> (\<^verbatim>\<open>qualify.go\<close>): the intervals during which a grant was held, and
    the verdict on one role and service.
  \<^item> \<open>PolicyDoc\<close> (\<^verbatim>\<open>canonical.go\<close>, from line 1017): IAM statements, glob patterns,
    namespaces.

  Conventions: a Go string is the list of its bytes; \<^verbatim>\<open>time.Time\<close> is an integer number
  of nanoseconds and \<^verbatim>\<open>Time.Sub\<close> saturates at 64 bits; a nil pointer is \<^term>\<open>None\<close>; a
  map that is only looked up is an association list; case folding is modelled on ASCII.
\<close>

end
